(* ===== verification/Hex_Utils.thy ===== *)
theory Hex_Utils
  imports LDK_Prelude
begin

text \<open>
  The hexadecimal codec of \<open>src/hex_utils.rs\<close>. Every persisted object is keyed by the
  hexadecimal form of its identifier, so injectivity of \<open>to_string\<close> is what keeps two
  objects of one store apart. A Rust string is its list of UTF-8 bytes, here \<open>char list\<close>.
\<close>

unbundle bit_operations_syntax

definition hex_digit :: "u8 \<Rightarrow> char" where
  "hex_digit n = (if n < 10 then char_of (unat n + 48) else char_of (unat n + 87))"

definition to_string :: "bytes \<Rightarrow> string" where
  "to_string value = concat (map (\<lambda>v. [hex_digit (drop_bit 4 v), hex_digit (v AND 15)]) value)"

definition nibble_of_char :: "char \<Rightarrow> u8 option" where
  "nibble_of_char c =
     (let k = of_char c :: nat in
      if 65 \<le> k \<and> k \<le> 70 then Some (word_of_nat (k - 65 + 10))
      else if 97 \<le> k \<and> k \<le> 102 then Some (word_of_nat (k - 97 + 10))
      else if 48 \<le> k \<and> k \<le> 57 then Some (word_of_nat (k - 48))
      else None)"

fun to_vec_loop :: "nat \<Rightarrow> u8 \<Rightarrow> bytes \<Rightarrow> string \<Rightarrow> bytes option" where
  "to_vec_loop idx b out [] = Some out"
| "to_vec_loop idx b out (c # cs) =
     (case nibble_of_char c of
        None \<Rightarrow> None
      | Some d \<Rightarrow>
          (let b' = push_bit 4 b OR d in
           if odd idx then to_vec_loop (Suc idx) 0 (out @ [b']) cs
           else to_vec_loop (Suc idx) b' out cs))"

definition to_vec :: "string \<Rightarrow> bytes option" where
  "to_vec hex = to_vec_loop 0 0 [] hex"

section \<open>Decoding what was printed\<close>

lemma nibble_of_char_hex_digit: "n < 16 \<Longrightarrow> nibble_of_char (hex_digit n) = Some n"
proof -
  assume "n < 16"
  then have lt: "unat n < 16"
    by (simp add: word_less_nat_alt)
  have *: "n < 10 \<longleftrightarrow> unat n < 10"
    by (simp add: word_less_nat_alt)
  show ?thesis
    using lt unfolding nibble_of_char_def hex_digit_def Let_def *
    by (cases "unat n < 10") simp_all
qed

lemma drop_bit_4_less: "drop_bit 4 (v :: u8) < 16"
proof -
  have "unat v < 256"
    using unsigned_less[of v] by simp
  then have "unat (drop_bit 4 v) < 16"
    by (simp add: drop_bit_eq_div unat_div less_mult_imp_div_less)
  then show ?thesis
    by (simp add: word_less_nat_alt)
qed

lemma and_15_less: "(v :: u8) AND 15 < 16"
proof -
  have "v AND 15 = take_bit 4 v"
    by (simp add: take_bit_eq_mask mask_eq_exp_minus_1)
  then have "unat (v AND 15) < 16"
    by (simp add: take_bit_eq_mod unat_mod)
  then show ?thesis
    by (simp add: word_less_nat_alt)
qed

lemma nibbles_join: "push_bit 4 (drop_bit 4 v) OR (v AND 15) = (v :: u8)"
proof -
  have "v AND 15 = take_bit 4 v"
    by (simp add: take_bit_eq_mask mask_eq_exp_minus_1)
  then show ?thesis
    by (auto intro!: bit_eqI simp: bit_simps)
qed

lemmas nibble_simps = nibble_of_char_hex_digit drop_bit_4_less and_15_less nibbles_join

lemma to_string_simps [simp]:
  "to_string [] = []"
  "to_string (v # vs) = hex_digit (drop_bit 4 v) # hex_digit (v AND 15) # to_string vs"
  by (simp_all add: to_string_def)

lemma to_vec_loop_to_string: "even idx \<Longrightarrow> to_vec_loop idx 0 out (to_string vs) = Some (out @ vs)"
  by (induction vs arbitrary: idx out) (simp_all add: nibble_simps)

text \<open>
  C1: parsing the hexadecimal string printed for any byte string returns that byte string.
\<close>
theorem to_vec_to_string: "to_vec (to_string value) = Some value"
  by (simp add: to_vec_def to_vec_loop_to_string)

lemma to_string_inj: "to_string a = to_string b \<longleftrightarrow> a = b"
  by (metis option.inject to_vec_def to_vec_loop_to_string append_Nil even_zero)

lemma length_to_string: "length (to_string value) = 2 * length value"
  by (induction "value") simp_all

end
