(* ===== verification/KV_Store.thy ===== *)
theory KV_Store
  imports LDK_Prelude
begin

text \<open>
  The key-value store behind every persisted component. The first part is the interface the
  clients program against (\<open>KVStore\<close> and \<open>KVStoreSync\<close>), as a record of operations on an
  arbitrary state type and a locale with the contract. The second part is the implementation
  of \<open>src/io/sqlite_store/mod.rs\<close>: the validity check of \<open>src/io/utils.rs\<close>, the version
  counter, the per-key version locks with their reference counts, and the asynchronous writes
  that may be executed in any order.

  The SQL engine is third-party code: a statement either fails with an error chosen by the
  environment or has its documented effect on the table. The alphabet and the maximal length
  of keys are constants of the \<open>lightning\<close> crate and are parameters here.
\<close>

section \<open>The interface\<close>

datatype io_error = NotFound | InvalidData | OtherError

type_synonym kv_target = "string \<times> string \<times> string"

record 'kv kv_ops =
  kv_read :: "'kv \<Rightarrow> kv_target \<Rightarrow> (bytes, io_error) result"
  kv_write :: "'kv \<Rightarrow> kv_target \<Rightarrow> bytes \<Rightarrow> (unit, io_error) result \<times> 'kv"
  kv_remove :: "'kv \<Rightarrow> kv_target \<Rightarrow> (unit, io_error) result \<times> 'kv"

text \<open>
  The contract: \<open>contents\<close> is the abstract view of a store. A write that is acknowledged has
  happened, an unacknowledged one has changed nothing, and a read never invents data.
\<close>

locale kv_store =
  fixes ops :: "'kv kv_ops"
    and contents :: "'kv \<Rightarrow> kv_target \<rightharpoonup> bytes"
    and invar :: "'kv \<Rightarrow> bool"
  assumes write_ok: "invar s \<Longrightarrow> kv_write ops s t v = (Inr u, s') \<Longrightarrow> contents s' = (contents s)(t \<mapsto> v)"
    and write_err: "invar s \<Longrightarrow> kv_write ops s t v = (Inl e, s') \<Longrightarrow> contents s' = contents s"
    and remove_ok: "invar s \<Longrightarrow> kv_remove ops s t = (Inr u, s') \<Longrightarrow> contents s' = (contents s)(t := None)"
    and remove_err: "invar s \<Longrightarrow> kv_remove ops s t = (Inl e, s') \<Longrightarrow> contents s' = contents s"
    and read_ok: "invar s \<Longrightarrow> kv_read ops s t = Inr v \<Longrightarrow> contents s t = Some v"
    and read_not_found: "invar s \<Longrightarrow> kv_read ops s t = Inl NotFound \<Longrightarrow> contents s t = None"
    and invar_write: "invar s \<Longrightarrow> kv_write ops s t v = (r, s') \<Longrightarrow> invar s'"
    and invar_remove: "invar s \<Longrightarrow> kv_remove ops s t = (r, s') \<Longrightarrow> invar s'"
begin

lemma contents_write:
  "invar s \<Longrightarrow> kv_write ops s t v = (r, s') \<Longrightarrow>
     contents s' = (if isl r then contents s else (contents s)(t \<mapsto> v))"
  by (cases r) (auto dest: write_ok write_err)

lemma contents_remove:
  "invar s \<Longrightarrow> kv_remove ops s t = (r, s') \<Longrightarrow>
     contents s' = (if isl r then contents s else (contents s)(t := None))"
  by (cases r) (auto dest: remove_ok remove_err)

lemma read_after_write:
  "invar s \<Longrightarrow> kv_write ops s t v = (Inr u, s') \<Longrightarrow> kv_read ops s' t = Inr w \<Longrightarrow> w = v"
  using write_ok [of s t v u s'] invar_write [of s t v "Inr u" s'] read_ok [of s' t w] by simp

end

section \<open>Validity of namespaces and keys\<close>

definition is_valid_kvstore_str :: "string \<Rightarrow> nat \<Rightarrow> string \<Rightarrow> bool" where
  "is_valid_kvstore_str alphabet max_len key \<longleftrightarrow>
     length key \<le> max_len \<and> list_all (\<lambda>c. c \<in> set alphabet) key"

definition check_namespace_key_validity ::
    "string \<Rightarrow> nat \<Rightarrow> string \<Rightarrow> string \<Rightarrow> string option \<Rightarrow> (unit, io_error) result" where
  "check_namespace_key_validity alphabet max_len primary_namespace secondary_namespace key =
     (case key of
        Some k \<Rightarrow>
          if k = [] then Inl OtherError
          else if primary_namespace = [] \<and> secondary_namespace \<noteq> [] then Inl OtherError
          else if \<not> is_valid_kvstore_str alphabet max_len primary_namespace
                 \<or> \<not> is_valid_kvstore_str alphabet max_len secondary_namespace
                 \<or> \<not> is_valid_kvstore_str alphabet max_len k then Inl OtherError
          else Inr ()
      | None \<Rightarrow>
          if primary_namespace = [] \<and> secondary_namespace \<noteq> [] then Inl OtherError
          else if \<not> is_valid_kvstore_str alphabet max_len primary_namespace
                 \<or> \<not> is_valid_kvstore_str alphabet max_len secondary_namespace then Inl OtherError
          else Inr ())"

section \<open>The SQLite store\<close>

datatype kv_op = KvWrite bytes | KvRemove

text \<open>
  An asynchronous \<open>write\<close> or \<open>remove\<close> first takes a version and a reference to the lock of
  its key and then hands the rest to a blocking task. The record is what that task captured;
  the list of them is the set of tasks that have not run yet, each holding one reference.
\<close>

record in_flight_write =
  inner_lock_ref :: nat
  locking_key :: string
  version :: u64
  target :: kv_target
  operation :: kv_op

record sqlite_store =
  kv_table :: "kv_target \<rightharpoonup> bytes"
  next_write_version :: u64
  write_version_locks :: "string \<rightharpoonup> nat"
  last_written_version :: "nat \<Rightarrow> u64"
  next_lock :: nat
  in_flight :: "in_flight_write list"

definition SqliteStore_new :: "(kv_target \<rightharpoonup> bytes) \<Rightarrow> sqlite_store" where
  "SqliteStore_new tbl =
     \<lparr>kv_table = tbl, next_write_version = 1, write_version_locks = Map.empty,
      last_written_version = (\<lambda>_. 0), next_lock = 0, in_flight = []\<rparr>"

fun build_locking_key :: "kv_target \<Rightarrow> string" where
  "build_locking_key (primary_namespace, secondary_namespace, key) =
     primary_namespace @ ''#'' @ secondary_namespace @ ''#'' @ key"

definition get_inner_lock_ref :: "sqlite_store \<Rightarrow> string \<Rightarrow> nat \<times> sqlite_store" where
  "get_inner_lock_ref st lk =
     (case write_version_locks st lk of
        Some l \<Rightarrow> (l, st)
      | None \<Rightarrow>
          (next_lock st,
           st\<lparr>write_version_locks := (write_version_locks st)(lk \<mapsto> next_lock st),
              last_written_version := (last_written_version st)(next_lock st := 0),
              next_lock := Suc (next_lock st)\<rparr>))"

text \<open>\<open>None\<close> is the panic on an overflowing version counter.\<close>

definition get_new_version_and_lock_ref ::
    "sqlite_store \<Rightarrow> string \<Rightarrow> ((nat \<times> u64) \<times> sqlite_store) option" where
  "get_new_version_and_lock_ref st lk =
     (let v = next_write_version st;
          st1 = st\<lparr>next_write_version := v + 1\<rparr> in
      if v = - 1 then None
      else (case get_inner_lock_ref st1 lk of (l, st2) \<Rightarrow> Some ((l, v), st2)))"

definition SqliteStore_issue :: "sqlite_store \<Rightarrow> kv_target \<Rightarrow> kv_op \<Rightarrow> (in_flight_write \<times> sqlite_store) option" where
  "SqliteStore_issue st t op =
     (let lk = build_locking_key t in
      case get_new_version_and_lock_ref st lk of
        None \<Rightarrow> None
      | Some ((l, v), st1) \<Rightarrow>
          (let w = \<lparr>inner_lock_ref = l, locking_key = lk, version = v, target = t, operation = op\<rparr>
           in Some (w, st1\<lparr>in_flight := in_flight st1 @ [w]\<rparr>)))"

definition strong_count :: "sqlite_store \<Rightarrow> string \<Rightarrow> nat \<Rightarrow> nat" where
  "strong_count st lk l =
     (if write_version_locks st lk = Some l then 1 else 0)
     + length (filter (\<lambda>w. inner_lock_ref w = l) (in_flight st))"

definition clean_locks :: "sqlite_store \<Rightarrow> nat \<Rightarrow> string \<Rightarrow> sqlite_store" where
  "clean_locks st l lk =
     (if strong_count st lk l = 2
      then st\<lparr>write_version_locks := (write_version_locks st)(lk := None)\<rparr> else st)"

definition execute_locked_write ::
    "sqlite_store \<Rightarrow> nat \<Rightarrow> string \<Rightarrow> u64
       \<Rightarrow> ((kv_target \<rightharpoonup> bytes) \<Rightarrow> (kv_target \<rightharpoonup> bytes, io_error) result)
       \<Rightarrow> (unit, io_error) result \<times> sqlite_store" where
  "execute_locked_write st l lk v callback =
     (let is_stale_version = v \<le> last_written_version st l;
          (res, st1) =
            (if is_stale_version then (Inr (), st)
             else (case callback (kv_table st) of
                     Inl e \<Rightarrow> (Inl e, st)
                   | Inr tbl \<Rightarrow>
                       (Inr (), st\<lparr>kv_table := tbl,
                                  last_written_version := (last_written_version st)(l := v)\<rparr>)))
      in (res, clean_locks st1 l lk))"

text \<open>\<open>INSERT OR REPLACE\<close> and \<open>DELETE\<close> on the keyed table; \<open>db_ok\<close> tells whether the engine accepted the statement.\<close>

fun sql_execute ::
    "bool \<Rightarrow> kv_target \<Rightarrow> kv_op \<Rightarrow> (kv_target \<rightharpoonup> bytes) \<Rightarrow> (kv_target \<rightharpoonup> bytes, io_error) result" where
  "sql_execute False t op tbl = Inl OtherError"
| "sql_execute True t (KvWrite buf) tbl = Inr (tbl(t \<mapsto> buf))"
| "sql_execute True t KvRemove tbl = Inr (tbl(t := None))"

definition write_internal ::
    "string \<Rightarrow> nat \<Rightarrow> bool \<Rightarrow> sqlite_store \<Rightarrow> nat \<Rightarrow> string \<Rightarrow> u64 \<Rightarrow> kv_target \<Rightarrow> kv_op
       \<Rightarrow> (unit, io_error) result \<times> sqlite_store" where
  "write_internal alphabet max_len db_ok st l lk v t op =
     (case t of (primary_namespace, secondary_namespace, key) \<Rightarrow>
        (case check_namespace_key_validity alphabet max_len primary_namespace secondary_namespace (Some key) of
           Inl e \<Rightarrow> (Inl e, st)
         | Inr _ \<Rightarrow> execute_locked_write st l lk v (sql_execute db_ok t op)))"

text \<open>A blocking task runs to its end and drops the lock reference it holds.\<close>

definition SqliteStore_run_task ::
    "string \<Rightarrow> nat \<Rightarrow> bool \<Rightarrow> sqlite_store \<Rightarrow> in_flight_write \<Rightarrow> (unit, io_error) result \<times> sqlite_store" where
  "SqliteStore_run_task alphabet max_len db_ok st w =
     (let (res, st1) = write_internal alphabet max_len db_ok st (inner_lock_ref w) (locking_key w)
                         (version w) (target w) (operation w)
      in (res, st1\<lparr>in_flight := remove1 w (in_flight st1)\<rparr>))"

definition read_internal ::
    "string \<Rightarrow> nat \<Rightarrow> bool \<Rightarrow> sqlite_store \<Rightarrow> kv_target \<Rightarrow> (bytes, io_error) result" where
  "read_internal alphabet max_len db_ok st t =
     (case t of (primary_namespace, secondary_namespace, key) \<Rightarrow>
        (case check_namespace_key_validity alphabet max_len primary_namespace secondary_namespace (Some key) of
           Inl e \<Rightarrow> Inl e
         | Inr _ \<Rightarrow>
             if \<not> db_ok then Inl OtherError
             else (case kv_table st t of None \<Rightarrow> Inl NotFound | Some v \<Rightarrow> Inr v)))"

text \<open>
  The blocking calls of \<open>KVStoreSync\<close>: a task that runs as soon as it is issued, while other
  tasks may still be in flight. \<open>db\<close> chooses the engine's answer for each version. When the
  version counter is exhausted the process aborts and nothing is written any more.
\<close>

definition SqliteStore_sync ::
    "string \<Rightarrow> nat \<Rightarrow> (u64 \<Rightarrow> bool) \<Rightarrow> sqlite_store \<Rightarrow> kv_target \<Rightarrow> kv_op
       \<Rightarrow> (unit, io_error) result \<times> sqlite_store" where
  "SqliteStore_sync alphabet max_len db st t op =
     (case SqliteStore_issue st t op of
        None \<Rightarrow> (Inl OtherError, st)
      | Some (w, st1) \<Rightarrow> SqliteStore_run_task alphabet max_len (db (version w)) st1 w)"

definition sqlite_ops :: "string \<Rightarrow> nat \<Rightarrow> (u64 \<Rightarrow> bool) \<Rightarrow> sqlite_store kv_ops" where
  "sqlite_ops alphabet max_len db =
     \<lparr>kv_read = (\<lambda>st t. read_internal alphabet max_len (db (next_write_version st)) st t),
      kv_write = (\<lambda>st t v. SqliteStore_sync alphabet max_len db st t (KvWrite v)),
      kv_remove = (\<lambda>st t. SqliteStore_sync alphabet max_len db st t KvRemove)\<rparr>"

definition sqlite_fresh :: "sqlite_store \<Rightarrow> bool" where
  "sqlite_fresh st \<longleftrightarrow> 0 < next_write_version st \<and> (\<forall>l. last_written_version st l < next_write_version st)"

section \<open>The blocking calls satisfy the contract\<close>

lemma word_less_Suc: "v \<noteq> - 1 \<Longrightarrow> v < v + (1 :: 'a::len word)"
proof -
  assume "v \<noteq> - 1"
  then have "1 + v \<noteq> 0"
    by (metis add.commute eq_neg_iff_add_eq_0)
  then have "unat (1 + v) = Suc (unat v)"
    by (rule unatSuc)
  then show ?thesis
    by (simp add: word_less_nat_alt add.commute)
qed

lemma SqliteStore_issue_fresh:
  assumes "sqlite_fresh st" "SqliteStore_issue st t op = Some (w, st')"
  shows "sqlite_fresh st' \<and> kv_table st' = kv_table st \<and> target w = t \<and> operation w = op
    \<and> version w = next_write_version st \<and> next_write_version st' = next_write_version st + 1
    \<and> last_written_version st' (inner_lock_ref w) < version w \<and> version w < next_write_version st'"
proof -
  have "next_write_version st \<noteq> - 1"
    using assms(2) by (auto simp: SqliteStore_issue_def get_new_version_and_lock_ref_def Let_def split: if_splits)
  then have less: "next_write_version st < next_write_version st + 1"
    by (rule word_less_Suc)
  then have "x < next_write_version st + 1" if "x < next_write_version st" for x
    using that by (rule less_trans [rotated])
  with less show ?thesis
    using assms
    by (auto simp: SqliteStore_issue_def get_new_version_and_lock_ref_def get_inner_lock_ref_def
        sqlite_fresh_def Let_def split: if_splits option.splits)
qed

lemma clean_locks_frame [simp]:
  "kv_table (clean_locks st l lk) = kv_table st"
  "next_write_version (clean_locks st l lk) = next_write_version st"
  "last_written_version (clean_locks st l lk) = last_written_version st"
  "in_flight (clean_locks st l lk) = in_flight st"
  "next_lock (clean_locks st l lk) = next_lock st"
  by (simp_all add: clean_locks_def)

text \<open>
  What running a task amounts to: an invalid key is refused before the lock is looked at, a
  stale version is acknowledged without effect, and otherwise the statement is executed.
\<close>

definition task_valid :: "string \<Rightarrow> nat \<Rightarrow> kv_target \<Rightarrow> bool" where
  "task_valid alphabet max_len t \<longleftrightarrow>
     (case t of (p, s, k) \<Rightarrow> check_namespace_key_validity alphabet max_len p s (Some k) = Inr ())"

lemma SqliteStore_run_task_invalid:
  "\<not> task_valid alphabet max_len (target w) \<Longrightarrow>
     \<exists>e. SqliteStore_run_task alphabet max_len db_ok st w
          = (Inl e, st\<lparr>in_flight := remove1 w (in_flight st)\<rparr>)"
  by (cases "target w")
     (auto simp: SqliteStore_run_task_def write_internal_def task_valid_def split: sum.splits)

lemma SqliteStore_run_task_stale:
  "task_valid alphabet max_len (target w) \<Longrightarrow> version w \<le> last_written_version st (inner_lock_ref w) \<Longrightarrow>
     SqliteStore_run_task alphabet max_len db_ok st w
       = (Inr (), (clean_locks st (inner_lock_ref w) (locking_key w))\<lparr>in_flight := remove1 w (in_flight st)\<rparr>)"
  by (cases "target w")
     (simp add: SqliteStore_run_task_def write_internal_def task_valid_def execute_locked_write_def Let_def)

lemma SqliteStore_run_task_failed:
  "task_valid alphabet max_len (target w) \<Longrightarrow> last_written_version st (inner_lock_ref w) < version w \<Longrightarrow>
     SqliteStore_run_task alphabet max_len False st w
       = (Inl OtherError, (clean_locks st (inner_lock_ref w) (locking_key w))\<lparr>in_flight := remove1 w (in_flight st)\<rparr>)"
  by (cases "target w")
     (simp add: SqliteStore_run_task_def write_internal_def task_valid_def execute_locked_write_def Let_def
        leD)

fun kv_effect :: "kv_op \<Rightarrow> bytes option" where
  "kv_effect (KvWrite buf) = Some buf"
| "kv_effect KvRemove = None"

lemma sql_execute_True: "sql_execute True t op tbl = Inr (tbl(t := kv_effect op))"
  by (cases op) simp_all

lemma SqliteStore_run_task_applied:
  "task_valid alphabet max_len (target w) \<Longrightarrow> last_written_version st (inner_lock_ref w) < version w \<Longrightarrow>
     SqliteStore_run_task alphabet max_len True st w
       = (Inr (), (clean_locks (st\<lparr>kv_table := (kv_table st)(target w := kv_effect (operation w)),
                      last_written_version := (last_written_version st)(inner_lock_ref w := version w)\<rparr>)
                    (inner_lock_ref w) (locking_key w))\<lparr>in_flight := remove1 w (in_flight st)\<rparr>)"
  by (cases "target w")
     (simp add: SqliteStore_run_task_def write_internal_def task_valid_def execute_locked_write_def Let_def
        leD sql_execute_True)

lemma SqliteStore_run_task_current:
  assumes "SqliteStore_run_task alphabet max_len db_ok st w = (res, st')"
    and "last_written_version st (inner_lock_ref w) < version w"
  shows "next_write_version st' = next_write_version st \<and>
    (if isl res then kv_table st' = kv_table st \<and> last_written_version st' = last_written_version st
     else kv_table st' = (kv_table st)(target w := kv_effect (operation w))
          \<and> last_written_version st' = (last_written_version st)(inner_lock_ref w := version w))"
proof (cases "task_valid alphabet max_len (target w)")
  case False
  with assms(1) show ?thesis
    by (auto dest!: SqliteStore_run_task_invalid [of alphabet max_len w db_ok st])
next
  case True
  with assms show ?thesis
    by (cases db_ok) (auto simp: SqliteStore_run_task_failed SqliteStore_run_task_applied)
qed

lemma SqliteStore_sync_step:
  assumes "sqlite_fresh st" "SqliteStore_sync alphabet max_len db st t op = (res, st')"
  shows "sqlite_fresh st' \<and>
    (if isl res then kv_table st' = kv_table st
     else kv_table st' = (kv_table st)(t := kv_effect op))"
proof (cases "SqliteStore_issue st t op")
  case None
  then show ?thesis
    using assms by (auto simp: SqliteStore_sync_def)
next
  case (Some a)
  obtain w st1 where a: "a = (w, st1)"
    by (cases a)
  note issued = SqliteStore_issue_fresh [OF assms(1) Some [unfolded a]]
  from Some a assms(2) have run: "SqliteStore_run_task alphabet max_len (db (version w)) st1 w = (res, st')"
    by (simp add: SqliteStore_sync_def)
  from issued have "last_written_version st1 (inner_lock_ref w) < version w"
    by blast
  note ran = SqliteStore_run_task_current [OF run this]
  show ?thesis
    using issued ran by (cases "isl res") (auto simp: sqlite_fresh_def)
qed

interpretation sqlite: kv_store "sqlite_ops alphabet max_len db" kv_table sqlite_fresh
  for alphabet max_len db
proof (unfold_locales, goal_cases)
  case (1 s t v u s')
  then show ?case
    using SqliteStore_sync_step [of s alphabet max_len db t "KvWrite v" "Inr u" s']
    by (simp add: sqlite_ops_def)
next
  case (2 s t v e s')
  then show ?case
    using SqliteStore_sync_step [of s alphabet max_len db t "KvWrite v" "Inl e" s']
    by (simp add: sqlite_ops_def)
next
  case (3 s t u s')
  then show ?case
    using SqliteStore_sync_step [of s alphabet max_len db t KvRemove "Inr u" s']
    by (simp add: sqlite_ops_def)
next
  case (4 s t e s')
  then show ?case
    using SqliteStore_sync_step [of s alphabet max_len db t KvRemove "Inl e" s']
    by (simp add: sqlite_ops_def)
next
  case (5 s t v)
  then show ?case
    by (auto simp: sqlite_ops_def read_internal_def split: prod.splits sum.splits if_splits option.splits)
next
  case (6 s t)
  then show ?case
    by (auto simp: sqlite_ops_def read_internal_def check_namespace_key_validity_def
        split: prod.splits sum.splits if_splits option.splits)
next
  case (7 s t v r s')
  then show ?case
    using SqliteStore_sync_step [of s alphabet max_len db t "KvWrite v" r s']
    by (simp add: sqlite_ops_def)
next
  case (8 s t r s')
  then show ?case
    using SqliteStore_sync_step [of s alphabet max_len db t KvRemove r s']
    by (simp add: sqlite_ops_def)
qed

section \<open>Asynchronous writes take effect in the order they were issued\<close>

text \<open>
  Every interleaving of issuing tasks and running tasks that were issued. The list collects
  the tasks that were acknowledged with \<open>Ok\<close>, in the order in which they ran, which is
  unrelated to the order in which they were issued.
\<close>

inductive sqlite_reachable ::
    "string \<Rightarrow> nat \<Rightarrow> (kv_target \<rightharpoonup> bytes) \<Rightarrow> sqlite_store \<Rightarrow> in_flight_write list \<Rightarrow> bool"
  for alphabet max_len tbl where
  start: "sqlite_reachable alphabet max_len tbl (SqliteStore_new tbl) []"
| issue: "sqlite_reachable alphabet max_len tbl st log \<Longrightarrow> SqliteStore_issue st t op = Some (w, st') \<Longrightarrow>
    sqlite_reachable alphabet max_len tbl st' log"
| run: "sqlite_reachable alphabet max_len tbl st log \<Longrightarrow> w \<in> set (in_flight st) \<Longrightarrow>
    SqliteStore_run_task alphabet max_len db_ok st w = (res, st') \<Longrightarrow>
    sqlite_reachable alphabet max_len tbl st' (if isl res then log else log @ [w])"

definition newest_step :: "kv_target \<Rightarrow> in_flight_write \<Rightarrow> in_flight_write option \<Rightarrow> in_flight_write option" where
  "newest_step t w acc =
     (if target w = t \<and> (case acc of None \<Rightarrow> True | Some a \<Rightarrow> version a < version w) then Some w else acc)"

definition newest :: "kv_target \<Rightarrow> in_flight_write list \<Rightarrow> in_flight_write option" where
  "newest t log = fold (newest_step t) log None"

lemma newest_simps [simp]:
  "newest t [] = None"
  "newest t (log @ [w]) = newest_step t w (newest t log)"
  by (simp_all add: newest_def)

lemma newest_None: "newest t log = None \<longleftrightarrow> (\<forall>a \<in> set log. target a \<noteq> t)"
  by (induction log rule: rev_induct) (auto simp: newest_step_def split: option.splits)

lemma newest_Some:
  "newest t log = Some x \<Longrightarrow> x \<in> set log \<and> target x = t \<and> (\<forall>a \<in> set log. target a = t \<longrightarrow> version a \<le> version x)"
proof (induction log arbitrary: x rule: rev_induct)
  case Nil
  then show ?case by simp
next
  case (snoc w log)
  then show ?case
    by (cases "newest t log")
       (fastforce simp: newest_step_def newest_None split: if_splits)+
qed

lemma newest_snoc_less:
  "target w = t \<Longrightarrow> \<forall>a \<in> set log. target a = t \<longrightarrow> version a < version w \<Longrightarrow> newest t (log @ [w]) = Some w"
  by (auto simp: newest_step_def split: option.splits dest!: newest_Some)

lemma newest_snoc_stale:
  "a \<in> set log \<Longrightarrow> target a = target w \<Longrightarrow> version w \<le> version a \<Longrightarrow> newest t (log @ [w]) = newest t log"
  by (auto simp: newest_step_def newest_None split: option.splits dest!: newest_Some)

text \<open>Keys of the lock table determine their target when no component contains the separator.\<close>

definition no_hash :: "kv_target \<Rightarrow> bool" where
  "no_hash t \<longleftrightarrow> (case t of (p, s, k) \<Rightarrow> CHR ''#'' \<notin> set p \<union> set s \<union> set k)"

lemma hash_split:
  "CHR ''#'' \<notin> set a \<Longrightarrow> CHR ''#'' \<notin> set a' \<Longrightarrow> a @ CHR ''#'' # b = a' @ CHR ''#'' # b' \<Longrightarrow> a = a' \<and> b = b'"
proof (induction a arbitrary: a')
  case Nil
  then show ?case by (cases a') auto
next
  case (Cons x a)
  then show ?case by (cases a') auto
qed

lemma no_hash_count: "no_hash t \<longleftrightarrow> count_list (build_locking_key t) (CHR ''#'') = 2"
  by (cases t) (simp add: no_hash_def count_list_0_iff)

lemma build_locking_key_inj:
  assumes "no_hash t" "build_locking_key t = build_locking_key t'"
  shows "t = t'"
proof -
  obtain p s k p' s' k' where t: "t = (p, s, k)" "t' = (p', s', k')"
    by (cases t; cases t')
  from assms have "no_hash t'"
    by (simp add: no_hash_count)
  with assms t have nh: "CHR ''#'' \<notin> set p" "CHR ''#'' \<notin> set s" "CHR ''#'' \<notin> set p'" "CHR ''#'' \<notin> set s'"
    and eq: "p @ CHR ''#'' # (s @ CHR ''#'' # k) = p' @ CHR ''#'' # (s' @ CHR ''#'' # k')"
    by (simp_all add: no_hash_def)
  from hash_split [OF nh(1,3) eq] have "p = p'" and eq': "s @ CHR ''#'' # k = s' @ CHR ''#'' # k'"
    by simp_all
  with hash_split [OF nh(2,4) eq'] show ?thesis
    using t by simp
qed

lemma task_valid_no_hash:
  "CHR ''#'' \<notin> set alphabet \<Longrightarrow> task_valid alphabet max_len t \<Longrightarrow> no_hash t"
  by (cases t)
     (auto simp: task_valid_def no_hash_def check_namespace_key_validity_def is_valid_kvstore_str_def
        list_all_iff split: if_splits)

text \<open>The invariant, in five parts.\<close>

definition tasks_ok :: "sqlite_store \<Rightarrow> bool" where
  "tasks_ok st \<longleftrightarrow> distinct (map version (in_flight st)) \<and>
     (\<forall>w \<in> set (in_flight st). write_version_locks st (locking_key w) = Some (inner_lock_ref w)
        \<and> build_locking_key (target w) = locking_key w \<and> 0 < version w \<and> version w < next_write_version st)"

definition locks_ok :: "sqlite_store \<Rightarrow> bool" where
  "locks_ok st \<longleftrightarrow> 0 < next_write_version st \<and>
     (\<forall>lk l. write_version_locks st lk = Some l \<longrightarrow>
        l < next_lock st \<and> (\<forall>lk'. write_version_locks st lk' = Some l \<longrightarrow> lk' = lk))"

definition log_ok :: "string \<Rightarrow> nat \<Rightarrow> sqlite_store \<Rightarrow> in_flight_write list \<Rightarrow> bool" where
  "log_ok alphabet max_len st log \<longleftrightarrow>
     (\<forall>e \<in> set log. version e < next_write_version st \<and> build_locking_key (target e) = locking_key e
        \<and> task_valid alphabet max_len (target e))"

definition cell_ok :: "sqlite_store \<Rightarrow> in_flight_write list \<Rightarrow> string \<Rightarrow> nat \<Rightarrow> bool" where
  "cell_ok st log lk l \<longleftrightarrow>
     (last_written_version st l \<noteq> 0 \<longrightarrow>
        (\<exists>e \<in> set log. locking_key e = lk \<and> version e = last_written_version st l))
     \<and> ((\<forall>e \<in> set log. locking_key e = lk \<longrightarrow> version e \<le> last_written_version st l)
        \<or> (\<forall>e \<in> set log. \<forall>w \<in> set (in_flight st).
              locking_key e = lk \<longrightarrow> locking_key w = lk \<longrightarrow> version e < version w))"

definition cells_ok :: "sqlite_store \<Rightarrow> in_flight_write list \<Rightarrow> bool" where
  "cells_ok st log \<longleftrightarrow> (\<forall>lk l. write_version_locks st lk = Some l \<longrightarrow> cell_ok st log lk l)"

definition table_ok :: "(kv_target \<rightharpoonup> bytes) \<Rightarrow> sqlite_store \<Rightarrow> in_flight_write list \<Rightarrow> bool" where
  "table_ok tbl st log \<longleftrightarrow>
     (\<forall>t. kv_table st t = (case newest t log of None \<Rightarrow> tbl t | Some e \<Rightarrow> kv_effect (operation e)))"

definition order_inv ::
    "string \<Rightarrow> nat \<Rightarrow> (kv_target \<rightharpoonup> bytes) \<Rightarrow> sqlite_store \<Rightarrow> in_flight_write list \<Rightarrow> bool" where
  "order_inv alphabet max_len tbl st log \<longleftrightarrow>
     tasks_ok st \<and> locks_ok st \<and> log_ok alphabet max_len st log \<and> cells_ok st log \<and> table_ok tbl st log"

lemma order_inv_new: "order_inv alphabet max_len tbl (SqliteStore_new tbl) []"
  by (simp add: order_inv_def tasks_ok_def locks_ok_def log_ok_def cells_ok_def table_ok_def SqliteStore_new_def)

text \<open>Issuing a task: the shapes of the successor state.\<close>

lemma SqliteStore_issue_cases:
  assumes "SqliteStore_issue st t op = Some (w, st')"
  obtains (known) l where "next_write_version st \<noteq> - 1" "write_version_locks st (build_locking_key t) = Some l"
      "w = \<lparr>inner_lock_ref = l, locking_key = build_locking_key t, version = next_write_version st,
            target = t, operation = op\<rparr>"
      "st' = st\<lparr>next_write_version := next_write_version st + 1, in_flight := in_flight st @ [w]\<rparr>"
  | (new) "next_write_version st \<noteq> - 1" "write_version_locks st (build_locking_key t) = None"
      "w = \<lparr>inner_lock_ref = next_lock st, locking_key = build_locking_key t,
            version = next_write_version st, target = t, operation = op\<rparr>"
      "st' = st\<lparr>next_write_version := next_write_version st + 1,
                write_version_locks := (write_version_locks st)(build_locking_key t \<mapsto> next_lock st),
                last_written_version := (last_written_version st)(next_lock st := 0),
                next_lock := Suc (next_lock st), in_flight := in_flight st @ [w]\<rparr>"
  using assms
  by (auto simp: SqliteStore_issue_def get_new_version_and_lock_ref_def get_inner_lock_ref_def Let_def
      split: if_splits option.splits)

lemma tasks_ok_distinct: "tasks_ok st \<Longrightarrow> distinct (in_flight st)"
  by (simp add: tasks_ok_def distinct_map)

lemma order_inv_task:
  assumes "order_inv alphabet max_len tbl st log" "w \<in> set (in_flight st)"
  shows "write_version_locks st (locking_key w) = Some (inner_lock_ref w)"
    and "build_locking_key (target w) = locking_key w" and "0 < version w" and "version w < next_write_version st"
  using assms unfolding order_inv_def tasks_ok_def by blast+

lemma order_inv_cell:
  "order_inv alphabet max_len tbl st log \<Longrightarrow> write_version_locks st lk = Some l \<Longrightarrow> cell_ok st log lk l"
  by (simp add: order_inv_def cells_ok_def)

lemma order_inv_drop:
  assumes inv: "order_inv alphabet max_len tbl st log"
  shows "order_inv alphabet max_len tbl (st\<lparr>in_flight := remove1 w (in_flight st)\<rparr>) log"
    (is "order_inv _ _ _ ?st _")
proof -
  have sub: "x \<in> set (in_flight st)" if "x \<in> set (remove1 w (in_flight st))" for x
    using that by (meson notin_set_remove1)
  have "distinct (map version (remove1 w ws))" if "distinct (map version ws)" for ws
    using that by (induction ws) (auto dest!: set_remove1_subset [THEN subsetD])
  with inv sub have "tasks_ok ?st"
    by (simp add: order_inv_def tasks_ok_def)
  moreover have "locks_ok ?st" "log_ok alphabet max_len ?st log" "table_ok tbl ?st log"
    using inv by (simp_all add: order_inv_def locks_ok_def log_ok_def table_ok_def)
  moreover have "cells_ok ?st log"
    unfolding cells_ok_def
  proof (intro allI impI)
    fix lk l assume "write_version_locks ?st lk = Some l"
    then have "cell_ok st log lk l"
      using order_inv_cell [OF inv] by simp
    with sub show "cell_ok ?st log lk l"
      unfolding cell_ok_def by auto
  qed
  ultimately show ?thesis
    by (simp add: order_inv_def)
qed

lemma order_inv_forget_lock:
  assumes inv: "order_inv alphabet max_len tbl st log"
    and none: "\<forall>x \<in> set (in_flight st). locking_key x \<noteq> lk"
  shows "order_inv alphabet max_len tbl (st\<lparr>write_version_locks := (write_version_locks st)(lk := None)\<rparr>) log"
proof -
  let ?st = "st\<lparr>write_version_locks := (write_version_locks st)(lk := None)\<rparr>"
  have "tasks_ok ?st"
    using assms by (simp add: order_inv_def tasks_ok_def)
  moreover have "locks_ok ?st" "log_ok alphabet max_len ?st log" "table_ok tbl ?st log"
    using inv by (simp_all add: order_inv_def locks_ok_def log_ok_def table_ok_def)
  moreover have "cells_ok ?st log"
    using inv by (simp add: order_inv_def cells_ok_def cell_ok_def)
  ultimately show ?thesis
    by (simp add: order_inv_def)
qed

lemma strong_count_two:
  assumes "tasks_ok st" "w \<in> set (in_flight st)" "strong_count st (locking_key w) (inner_lock_ref w) = 2"
    and "x \<in> set (in_flight st)" "x \<noteq> w"
  shows "locking_key x \<noteq> locking_key w"
proof
  assume eq: "locking_key x = locking_key w"
  let ?f = "filter (\<lambda>y. inner_lock_ref y = inner_lock_ref w) (in_flight st)"
  have refs: "write_version_locks st (locking_key y) = Some (inner_lock_ref y)" if "y \<in> set (in_flight st)" for y
    using assms(1) that unfolding tasks_ok_def by blast
  have "inner_lock_ref x = inner_lock_ref w"
    using refs [OF assms(4)] refs [OF assms(2)] eq by simp
  with assms have "{x, w} \<subseteq> set ?f"
    by simp
  then have "card {x, w} \<le> card (set ?f)"
    by (intro card_mono) auto
  also have "card (set ?f) \<le> length ?f"
    by (rule card_length)
  finally have "2 \<le> length ?f"
    using assms(5) by simp
  then show False
    using assms(3) refs [OF assms(2)] by (simp add: strong_count_def)
qed

text \<open>A finished task gives its reference back and drops the lock when it was the last user.\<close>

lemma order_inv_finish:
  assumes inv: "order_inv alphabet max_len tbl st log" and w: "w \<in> set (in_flight st)"
  shows "order_inv alphabet max_len tbl
    ((clean_locks st (inner_lock_ref w) (locking_key w))\<lparr>in_flight := remove1 w (in_flight st)\<rparr>) log"
proof (cases "strong_count st (locking_key w) (inner_lock_ref w) = 2")
  case False
  then show ?thesis
    using order_inv_drop [OF inv] by (simp add: clean_locks_def)
next
  case True
  let ?st = "st\<lparr>in_flight := remove1 w (in_flight st)\<rparr>"
  from inv have "tasks_ok st" by (simp add: order_inv_def)
  then have "\<forall>x \<in> set (in_flight ?st). locking_key x \<noteq> locking_key w"
    using strong_count_two [OF _ w True] tasks_ok_distinct by auto
  from order_inv_forget_lock [OF order_inv_drop [OF inv] this]
  have "order_inv alphabet max_len tbl
    (?st\<lparr>write_version_locks := (write_version_locks st)(locking_key w := None)\<rparr>) log" by simp
  also have "?st\<lparr>write_version_locks := (write_version_locks st)(locking_key w := None)\<rparr>
    = (clean_locks st (inner_lock_ref w) (locking_key w))\<lparr>in_flight := remove1 w (in_flight st)\<rparr>"
    using True by (cases st) (simp add: clean_locks_def)
  finally show ?thesis .
qed

lemma cell_ok_snoc_other:
  "locking_key w \<noteq> lk \<Longrightarrow> cell_ok st (log @ [w]) lk l \<longleftrightarrow> cell_ok st log lk l"
  by (simp add: cell_ok_def ball_Un bex_Un)

lemma cell_ok_less:
  assumes "cell_ok st log (locking_key w) l" "w \<in> set (in_flight st)" "last_written_version st l < version w"
    and "e \<in> set log" "locking_key e = locking_key w"
  shows "version e < version w"
  using assms unfolding cell_ok_def by (metis le_less_trans)

lemma cell_ok_snoc_stale:
  assumes cell: "cell_ok st log (locking_key w) l" and w: "w \<in> set (in_flight st)"
    and stale: "version w \<le> last_written_version st l"
    and e: "e \<in> set log" "locking_key e = locking_key w" "version e = last_written_version st l"
  shows "cell_ok st (log @ [w]) (locking_key w) l"
proof -
  from e w stale have "\<not> (\<forall>e \<in> set log. \<forall>x \<in> set (in_flight st).
      locking_key e = locking_key w \<longrightarrow> locking_key x = locking_key w \<longrightarrow> version e < version x)"
    by (metis not_less)
  with cell have "\<forall>e \<in> set log. locking_key e = locking_key w \<longrightarrow> version e \<le> last_written_version st l"
    unfolding cell_ok_def by blast
  with stale have "\<forall>e \<in> set (log @ [w]). locking_key e = locking_key w \<longrightarrow> version e \<le> last_written_version st l"
    by simp
  moreover have "\<exists>e \<in> set (log @ [w]). locking_key e = locking_key w \<and> version e = last_written_version st l"
    using e by (intro bexI [of _ e]) simp_all
  ultimately show ?thesis
    unfolding cell_ok_def by blast
qed

lemma order_inv_stale:
  assumes inv: "order_inv alphabet max_len tbl st log" and w: "w \<in> set (in_flight st)"
    and valid: "task_valid alphabet max_len (target w)" and alph: "CHR ''#'' \<notin> set alphabet"
    and stale: "version w \<le> last_written_version st (inner_lock_ref w)"
  shows "order_inv alphabet max_len tbl st (log @ [w])"
proof -
  note lk = order_inv_task(1) [OF inv w] and key = order_inv_task(2) [OF inv w]
    and pos = order_inv_task(3,4) [OF inv w]
  note cell = order_inv_cell [OF inv lk]
  from pos stale have "last_written_version st (inner_lock_ref w) \<noteq> 0"
    by auto
  with cell obtain e where e: "e \<in> set log" "locking_key e = locking_key w"
      "version e = last_written_version st (inner_lock_ref w)"
    unfolding cell_ok_def by blast
  from inv e(1) have "build_locking_key (target e) = locking_key e"
    unfolding order_inv_def log_ok_def by blast
  with e(2) key have "target e = target w"
    using build_locking_key_inj [OF task_valid_no_hash [OF alph valid], of "target e"] by simp
  then have newest: "newest t (log @ [w]) = newest t log" for t
    using e stale by (intro newest_snoc_stale [of e]) simp_all
  have "cells_ok st (log @ [w])"
    unfolding cells_ok_def
  proof (intro allI impI)
    fix lk' l assume l: "write_version_locks st lk' = Some l"
    show "cell_ok st (log @ [w]) lk' l"
      using order_inv_cell [OF inv l] cell_ok_snoc_stale [OF cell w stale e] l lk
      by (cases "lk' = locking_key w") (simp_all add: cell_ok_snoc_other)
  qed
  moreover have "table_ok tbl st (log @ [w])" "log_ok alphabet max_len st (log @ [w])"
    using inv valid key pos
    by (simp_all add: order_inv_def table_ok_def log_ok_def newest del: newest_simps)
  ultimately show ?thesis
    using inv by (simp add: order_inv_def)
qed

lemma order_inv_applied:
  assumes inv: "order_inv alphabet max_len tbl st log" and w: "w \<in> set (in_flight st)"
    and valid: "task_valid alphabet max_len (target w)"
    and current: "last_written_version st (inner_lock_ref w) < version w"
  shows "order_inv alphabet max_len tbl
    (st\<lparr>kv_table := (kv_table st)(target w := kv_effect (operation w)),
        last_written_version := (last_written_version st)(inner_lock_ref w := version w)\<rparr>) (log @ [w])"
    (is "order_inv _ _ _ ?st _")
proof -
  note lk = order_inv_task(1) [OF inv w] and key = order_inv_task(2) [OF inv w]
    and pos = order_inv_task(3,4) [OF inv w]
  note less = cell_ok_less [OF order_inv_cell [OF inv lk] w current]
  from inv have keys: "build_locking_key (target e) = locking_key e" if "e \<in> set log" for e
    using that unfolding order_inv_def log_ok_def by blast
  have "\<forall>e \<in> set log. target e = target w \<longrightarrow> version e < version w"
    using less keys key by metis
  then have "newest (target w) (log @ [w]) = Some w"
    by (intro newest_snoc_less) simp_all
  moreover have "newest t (log @ [w]) = newest t log" if "t \<noteq> target w" for t
    using that by (simp add: newest_step_def)
  ultimately have "table_ok tbl ?st (log @ [w])"
    using inv by (simp add: order_inv_def table_ok_def del: newest_simps)
  moreover have "cells_ok ?st (log @ [w])"
    unfolding cells_ok_def
  proof (intro allI impI)
    fix lk' l assume "write_version_locks ?st lk' = Some l"
    then have l: "write_version_locks st lk' = Some l" by simp
    show "cell_ok ?st (log @ [w]) lk' l"
    proof (cases "lk' = locking_key w")
      case True
      with lk l less show ?thesis
        by (simp add: cell_ok_def less_imp_le)
    next
      case False
      with inv lk l have "l \<noteq> inner_lock_ref w"
        unfolding order_inv_def locks_ok_def by blast
      with order_inv_cell [OF inv l] False show ?thesis
        by (simp add: cell_ok_snoc_other cell_ok_def)
    qed
  qed
  moreover have "log_ok alphabet max_len ?st (log @ [w])"
    using inv valid key pos by (simp add: order_inv_def log_ok_def)
  ultimately show ?thesis
    using inv by (simp add: order_inv_def tasks_ok_def locks_ok_def)
qed

lemma order_inv_issue_known:
  assumes inv: "order_inv alphabet max_len tbl st log"
    and l: "write_version_locks st (build_locking_key t) = Some l"
    and w: "w = \<lparr>inner_lock_ref = l, locking_key = build_locking_key t, version = next_write_version st,
            target = t, operation = op\<rparr>"
    and less: "next_write_version st < next_write_version st + 1"
  shows "order_inv alphabet max_len tbl
    (st\<lparr>next_write_version := next_write_version st + 1, in_flight := in_flight st @ [w]\<rparr>) log"
    (is "order_inv _ _ _ ?st _")
proof -
  have up: "x < next_write_version st + 1" if "x < next_write_version st" for x
    using that less by (rule less_trans)
  from inv have T: "tasks_ok st" and L: "locks_ok st" and G: "log_ok alphabet max_len st log"
    and C: "cells_ok st log" and B: "table_ok tbl st log"
    by (simp_all add: order_inv_def)
  have "tasks_ok ?st"
    using T L up less l w by (auto simp: tasks_ok_def locks_ok_def)
  moreover have "locks_ok ?st" "log_ok alphabet max_len ?st log" "table_ok tbl ?st log"
    using L G B up by (auto simp: locks_ok_def log_ok_def table_ok_def)
  moreover have "cells_ok ?st log"
    using C G w unfolding cells_ok_def cell_ok_def log_ok_def by fastforce
  ultimately show ?thesis
    by (simp add: order_inv_def)
qed

lemma order_inv_issue_new:
  assumes inv: "order_inv alphabet max_len tbl st log"
    and l: "write_version_locks st (build_locking_key t) = None"
    and w: "w = \<lparr>inner_lock_ref = next_lock st, locking_key = build_locking_key t,
            version = next_write_version st, target = t, operation = op\<rparr>"
    and less: "next_write_version st < next_write_version st + 1"
  shows "order_inv alphabet max_len tbl
    (st\<lparr>next_write_version := next_write_version st + 1,
        write_version_locks := (write_version_locks st)(build_locking_key t \<mapsto> next_lock st),
        last_written_version := (last_written_version st)(next_lock st := 0),
        next_lock := Suc (next_lock st), in_flight := in_flight st @ [w]\<rparr>) log"
    (is "order_inv _ _ _ ?st _")
proof -
  have up: "x < next_write_version st + 1" if "x < next_write_version st" for x
    using that less by (rule less_trans)
  from inv have T: "tasks_ok st" and L: "locks_ok st" and G: "log_ok alphabet max_len st log"
    and B: "table_ok tbl st log"
    by (simp_all add: order_inv_def)
  have unused: "write_version_locks st lk \<noteq> Some (next_lock st)" for lk
    using L by (auto simp: locks_ok_def)
  have nokey: "locking_key x \<noteq> build_locking_key t" if "x \<in> set (in_flight st)" for x
    using T l that by (auto simp: tasks_ok_def)
  have "tasks_ok ?st"
    using T L up less w nokey by (auto simp: tasks_ok_def locks_ok_def)
  moreover have "locks_ok ?st" "log_ok alphabet max_len ?st log" "table_ok tbl ?st log"
    using L G B up unused by (auto simp: locks_ok_def log_ok_def table_ok_def less_Suc_eq)
  moreover have "cell_ok ?st log lk l'" if a: "write_version_locks ?st lk = Some l'" for lk l'
  proof (cases "lk = build_locking_key t")
    case True
    with a have "l' = next_lock st" by simp
    with True w nokey G show ?thesis
      by (fastforce simp: cell_ok_def log_ok_def)
  next
    case False
    with a have b: "write_version_locks st lk = Some l'" by simp
    moreover with unused have "l' \<noteq> next_lock st" by auto
    ultimately show ?thesis
      using order_inv_cell [OF inv b] False w by (fastforce simp: cell_ok_def)
  qed
  ultimately show ?thesis
    by (simp add: order_inv_def cells_ok_def)
qed

lemma order_inv_issue:
  assumes inv: "order_inv alphabet max_len tbl st log"
    and iss: "SqliteStore_issue st t op = Some (w, st')"
  shows "order_inv alphabet max_len tbl st' log"
  using iss
proof (cases rule: SqliteStore_issue_cases)
  case (known l)
  then show ?thesis
    using order_inv_issue_known [OF inv known(2,3) word_less_Suc [OF known(1)]] by simp
next
  case new
  then show ?thesis
    using order_inv_issue_new [OF inv new(2,3) word_less_Suc [OF new(1)]] by simp
qed

lemma order_inv_run:
  assumes inv: "order_inv alphabet max_len tbl st log" and w: "w \<in> set (in_flight st)"
    and alph: "CHR ''#'' \<notin> set alphabet"
    and run: "SqliteStore_run_task alphabet max_len db_ok st w = (res, st')"
  shows "order_inv alphabet max_len tbl st' (if isl res then log else log @ [w])"
proof (cases "task_valid alphabet max_len (target w)")
  case False
  then show ?thesis
    using run order_inv_drop [OF inv, of w]
    by (auto dest!: SqliteStore_run_task_invalid [of alphabet max_len w db_ok st])
next
  case valid: True
  show ?thesis
  proof (cases "version w \<le> last_written_version st (inner_lock_ref w)")
    case True
    from order_inv_finish [OF order_inv_stale [OF inv w valid alph True] w]
    show ?thesis using run SqliteStore_run_task_stale [OF valid True, of db_ok] by auto
  next
    case False
    then have current: "last_written_version st (inner_lock_ref w) < version w" by simp
    from order_inv_finish [OF order_inv_applied [OF inv w valid current], of w] w
      order_inv_finish [OF inv w]
    show ?thesis
      using run SqliteStore_run_task_failed [OF valid current] SqliteStore_run_task_applied [OF valid current]
      by (cases db_ok) auto
  qed
qed

lemma sqlite_reachable_inv:
  "sqlite_reachable alphabet max_len tbl st log \<Longrightarrow> CHR ''#'' \<notin> set alphabet \<Longrightarrow>
     order_inv alphabet max_len tbl st log"
proof (induction rule: sqlite_reachable.induct)
  case start
  show ?case by (rule order_inv_new)
next
  case (issue st log t op w st')
  then show ?case by (blast intro: order_inv_issue)
next
  case (run st log w db_ok res st')
  then show ?case by (blast intro: order_inv_run)
qed

text \<open>
  C2: in every interleaving of issued and executed tasks of the SQLite store, failing and
  stale ones included, the value stored under a key is the effect of the acknowledged write
  or removal that was issued last (has the greatest version), whatever the order in which the
  blocking tasks ran; without any it is the initial value. The separator of the lock keys is
  not a legal key character.
\<close>
theorem sqlite_writes_in_issue_order:
  assumes "sqlite_reachable alphabet max_len tbl st log" and "CHR ''#'' \<notin> set alphabet"
  shows "kv_table st t = (case newest t log of None \<Rightarrow> tbl t | Some e \<Rightarrow> kv_effect (operation e))"
  using sqlite_reachable_inv [OF assms] unfolding order_inv_def table_ok_def by blast

theorem sqlite_writes_in_issue_order_witness:
  "\<exists>st log. sqlite_reachable ''k'' 120 Map.empty st log \<and> map version log = [2, 1]
     \<and> kv_table st ([], [], ''k'') = Some [7]"
proof -
  let ?t = "([], [], ''k'') :: kv_target" and ?S = "SqliteStore_new Map.empty"
  let ?w1 = "\<lparr>inner_lock_ref = 0, locking_key = ''##k'', version = 1, target = ?t, operation = KvWrite [9]\<rparr>"
  let ?w2 = "\<lparr>inner_lock_ref = 0, locking_key = ''##k'', version = 2, target = ?t, operation = KvWrite [7]\<rparr>"
  let ?st = "\<lambda>tbl v locks last ws. \<lparr>kv_table = tbl, next_write_version = v, write_version_locks = locks,
      last_written_version = last, next_lock = Suc 0, in_flight = ws\<rparr>"
  let ?S1 = "?st Map.empty 2 [''##k'' \<mapsto> 0] ((\<lambda>_. 0)(0 := 0)) [?w1]"
  let ?S2 = "?st Map.empty 3 [''##k'' \<mapsto> 0] ((\<lambda>_. 0)(0 := 0)) [?w1, ?w2]"
  let ?S3 = "?st [?t \<mapsto> [7]] 3 [''##k'' \<mapsto> 0] ((\<lambda>_. 0)(0 := 2)) [?w1]"
  let ?S4 = "?st [?t \<mapsto> [7]] 3 Map.empty ((\<lambda>_. 0)(0 := 2)) []"
  note defs = SqliteStore_new_def SqliteStore_issue_def get_new_version_and_lock_ref_def
    get_inner_lock_ref_def SqliteStore_run_task_def write_internal_def execute_locked_write_def
    check_namespace_key_validity_def is_valid_kvstore_str_def clean_locks_def strong_count_def Let_def
  have "SqliteStore_issue ?S ?t (KvWrite [9]) = Some (?w1, ?S1)"
    by (simp add: defs)
  note r1 = sqlite_reachable.issue [OF sqlite_reachable.start this]
  have "SqliteStore_issue ?S1 ?t (KvWrite [7]) = Some (?w2, ?S2)"
    by (simp add: defs)
  note r2 = sqlite_reachable.issue [OF r1 this]
  have "SqliteStore_run_task ''k'' 120 True ?S2 ?w2 = (Inr (), ?S3)"
    by (simp add: defs)
  note r3 = sqlite_reachable.run [OF r2 _ this, simplified]
  have "SqliteStore_run_task ''k'' 120 True ?S3 ?w1 = (Inr (), ?S4)"
    by (simp add: defs)
  note r4 = sqlite_reachable.run [OF r3 _ this, simplified]
  from sqlite_writes_in_issue_order [OF r4, of ?t] have "kv_table ?S4 ?t = Some [7]"
    by (simp add: newest_def newest_step_def)
  with r4 show ?thesis
    by (intro exI [of _ ?S4] exI [of _ "[?w2, ?w1]"]) simp
qed

end
