(* ===== verification/Node_Error.thy ===== *)
theory Node_Error
  imports LDK_Prelude
begin

text \<open>
  The error type of the node's API (\<open>Error\<close> of \<open>src/error.rs\<close>), with the constructors of the
  source in their order. Every fallible operation of the component theories returns a result
  over it.
\<close>

datatype (plugins only: code) node_error =
    AlreadyRunning
  | NotRunning
  | OnchainTxCreationFailed
  | ConnectionFailed
  | InvoiceCreationFailed
  | InvoiceRequestCreationFailed
  | OfferCreationFailed
  | RefundCreationFailed
  | PaymentSendingFailed
  | InvalidCustomTlvs
  | ProbeSendingFailed
  | RouteNotFound
  | ChannelCreationFailed
  | ChannelClosingFailed
  | ChannelSplicingFailed
  | ChannelConfigUpdateFailed
  | PersistenceFailed
  | FeerateEstimationUpdateFailed
  | FeerateEstimationUpdateTimeout
  | WalletOperationFailed
  | WalletOperationTimeout
  | OnchainTxSigningFailed
  | TxSyncFailed
  | TxSyncTimeout
  | GossipUpdateFailed
  | GossipUpdateTimeout
  | LiquidityRequestFailed
  | UriParameterParsingFailed
  | InvalidAddress
  | InvalidSocketAddress
  | InvalidPublicKey
  | InvalidSecretKey
  | InvalidOfferId
  | InvalidNodeId
  | InvalidPaymentId
  | InvalidPaymentHash
  | InvalidPaymentPreimage
  | InvalidPaymentSecret
  | InvalidAmount
  | InvalidInvoice
  | InvalidOffer
  | InvalidRefund
  | InvalidChannelId
  | InvalidNetwork
  | InvalidUri
  | InvalidQuantity
  | InvalidNodeAlias
  | InvalidDateTime
  | InvalidFeeRate
  | DuplicatePayment
  | UnsupportedCurrency
  | InsufficientFunds
  | LiquiditySourceUnavailable
  | LiquidityFeeTooHigh
  | InvalidBlindedPaths
  | AsyncPaymentServicesDisabled
  | CannotRbfFundingTransaction
  | TransactionNotFound
  | TransactionNotBroadcastByWallet
  | TransactionAlreadyConfirmed
  | NoSpendableOutputs
  | CoinSelectionFailed
  | InvalidMnemonic
  | BackgroundSyncNotEnabled
  | AddressTypeAlreadyMonitored
  | AddressTypeIsPrimary
  | AddressTypeNotMonitored
  | OnchainWalletAccountNotRegistered
  | InvalidSeedBytes

end
