(* ===== verification/Data_Store.thy ===== *)
theory Data_Store
  imports Hex_Utils KV_Store Node_Error
begin

text \<open>
  The write-through object store of \<open>src/data_store.rs\<close>: a map of objects in memory, each
  also written to the key-value store under the hexadecimal form of its identifier. The trait
  \<open>StorableObject\<close> with its associated types is the record \<open>storable\<close> and its laws are the
  locale \<open>storable_object\<close>. The key-value store is shared with other components, so it is
  passed in and returned. A method body runs under the mutex of the object map and is one
  atomic step; where the source mutates the map before the fallible call to the store, the
  error branch of the model returns the mutated map.
\<close>

section \<open>Objects that can be stored\<close>

record ('id, 'so, 'up) storable =
  so_id :: "'so \<Rightarrow> 'id"
  so_update :: "'so \<Rightarrow> 'up \<Rightarrow> bool \<times> 'so"
  so_to_update :: "'so \<Rightarrow> 'up"
  up_id :: "'up \<Rightarrow> 'id"
  encode_to_hex_str :: "'id \<Rightarrow> string"
  so_encode :: "'so \<Rightarrow> bytes"

datatype DataStoreUpdateResult = Updated | Unchanged | UpdateNotFound

record ('id, 'so) data_store =
  objects :: "'id \<rightharpoonup> 'so"
  primary_namespace :: string
  secondary_namespace :: string

section \<open>Operations\<close>

definition DataStore_new ::
    "('id, 'so, 'up) storable \<Rightarrow> 'so list \<Rightarrow> string \<Rightarrow> string \<Rightarrow> ('id, 'so) data_store" where
  "DataStore_new S objs p s =
     \<lparr>objects = fold (\<lambda>obj m. m(so_id S obj \<mapsto> obj)) objs Map.empty,
      primary_namespace = p, secondary_namespace = s\<rparr>"

definition store_target :: "('id, 'so, 'up) storable \<Rightarrow> ('id, 'so) data_store \<Rightarrow> 'id \<Rightarrow> kv_target" where
  "store_target S ds i = (primary_namespace ds, secondary_namespace ds, encode_to_hex_str S i)"

definition DataStore_persist ::
    "('id, 'so, 'up) storable \<Rightarrow> 'kv kv_ops \<Rightarrow> ('id, 'so) data_store \<Rightarrow> 'kv \<Rightarrow> 'so
       \<Rightarrow> (unit, node_error) result \<times> 'kv" where
  "DataStore_persist S ops ds kv obj =
     (case kv_write ops kv (store_target S ds (so_id S obj)) (so_encode S obj) of
        (Inl e, kv') \<Rightarrow> (Inl PersistenceFailed, kv')
      | (Inr _, kv') \<Rightarrow> (Inr (), kv'))"

definition DataStore_insert ::
    "('id, 'so, 'up) storable \<Rightarrow> 'kv kv_ops \<Rightarrow> ('id, 'so) data_store \<Rightarrow> 'kv \<Rightarrow> 'so
       \<Rightarrow> (bool, node_error) result \<times> ('id, 'so) data_store \<times> 'kv" where
  "DataStore_insert S ops ds kv obj =
     (case DataStore_persist S ops ds kv obj of
        (Inl e, kv') \<Rightarrow> (Inl e, ds, kv')
      | (Inr _, kv') \<Rightarrow>
          (Inr (objects ds (so_id S obj) \<noteq> None),
           ds\<lparr>objects := (objects ds)(so_id S obj \<mapsto> obj)\<rparr>, kv'))"

definition DataStore_insert_or_update ::
    "('id, 'so, 'up) storable \<Rightarrow> 'kv kv_ops \<Rightarrow> ('id, 'so) data_store \<Rightarrow> 'kv \<Rightarrow> 'so
       \<Rightarrow> (bool, node_error) result \<times> ('id, 'so) data_store \<times> 'kv" where
  "DataStore_insert_or_update S ops ds kv obj =
     (case objects ds (so_id S obj) of
        Some entry \<Rightarrow>
          (case so_update S entry (so_to_update S obj) of
             (updated, updated_object) \<Rightarrow>
               if updated then
                 (case DataStore_persist S ops ds kv updated_object of
                    (Inl e, kv') \<Rightarrow> (Inl e, ds, kv')
                  | (Inr _, kv') \<Rightarrow>
                      (Inr True, ds\<lparr>objects := (objects ds)(so_id S obj \<mapsto> updated_object)\<rparr>, kv'))
               else (Inr False, ds, kv))
      | None \<Rightarrow>
          (case DataStore_persist S ops ds kv obj of
             (Inl e, kv') \<Rightarrow> (Inl e, ds, kv')
           | (Inr _, kv') \<Rightarrow> (Inr True, ds\<lparr>objects := (objects ds)(so_id S obj \<mapsto> obj)\<rparr>, kv')))"

definition DataStore_remove ::
    "('id, 'so, 'up) storable \<Rightarrow> 'kv kv_ops \<Rightarrow> ('id, 'so) data_store \<Rightarrow> 'kv \<Rightarrow> 'id
       \<Rightarrow> (unit, node_error) result \<times> ('id, 'so) data_store \<times> 'kv" where
  "DataStore_remove S ops ds kv i =
     (let removed = objects ds i \<noteq> None;
          ds' = ds\<lparr>objects := (objects ds)(i := None)\<rparr> in
      if removed then
        (case kv_remove ops kv (store_target S ds i) of
           (Inl e, kv') \<Rightarrow> (Inl PersistenceFailed, ds', kv')
         | (Inr _, kv') \<Rightarrow> (Inr (), ds', kv'))
      else (Inr (), ds', kv))"

definition DataStore_get :: "('id, 'so) data_store \<Rightarrow> 'id \<Rightarrow> 'so option" where
  "DataStore_get ds i = objects ds i"

text \<open>\<open>get_mut\<close> hands out the object in the map, so it is changed before it is persisted.\<close>

definition DataStore_update ::
    "('id, 'so, 'up) storable \<Rightarrow> 'kv kv_ops \<Rightarrow> ('id, 'so) data_store \<Rightarrow> 'kv \<Rightarrow> 'up
       \<Rightarrow> (DataStoreUpdateResult, node_error) result \<times> ('id, 'so) data_store \<times> 'kv" where
  "DataStore_update S ops ds kv up =
     (case objects ds (up_id S up) of
        None \<Rightarrow> (Inr UpdateNotFound, ds, kv)
      | Some object \<Rightarrow>
          (case so_update S object up of
             (updated, object') \<Rightarrow>
               (let ds' = ds\<lparr>objects := (objects ds)(up_id S up \<mapsto> object')\<rparr> in
                if updated then
                  (case DataStore_persist S ops ds kv object' of
                     (Inl e, kv') \<Rightarrow> (Inl e, ds', kv')
                   | (Inr _, kv') \<Rightarrow> (Inr Updated, ds', kv'))
                else (Inr Unchanged, ds', kv))))"

text \<open>The values of a hash map come in an unspecified order, so the result is a set.\<close>

definition DataStore_list_filter :: "('id, 'so) data_store \<Rightarrow> ('so \<Rightarrow> bool) \<Rightarrow> 'so set" where
  "DataStore_list_filter ds f = {obj \<in> ran (objects ds). f obj}"

section \<open>Laws of stored objects\<close>

text \<open>
  What the store relies on: an update keeps the identifier, reports exactly whether it changed
  something, changes nothing when it is repeated, and identifiers have distinct keys.
\<close>

locale storable_object =
  fixes S :: "('id, 'so, 'up) storable"
  assumes update_id: "so_update S obj up = (b, obj') \<Longrightarrow> so_id S obj' = so_id S obj"
    and update_unchanged: "so_update S obj up = (False, obj') \<Longrightarrow> obj' = obj"
    and update_twice: "so_update S obj up = (b, obj') \<Longrightarrow> so_update S obj' up = (False, obj')"
    and update_self: "so_update S obj (so_to_update S obj) = (False, obj)"
    and to_update_id: "up_id S (so_to_update S obj) = so_id S obj"
    and encode_inj: "encode_to_hex_str S i = encode_to_hex_str S j \<Longrightarrow> i = j"
begin

lemma store_target_inj [simp]: "store_target S ds i = store_target S ds j \<longleftrightarrow> i = j"
  by (auto simp: store_target_def dest: encode_inj)

end

text \<open>Every object is stored under its own identifier, and the disk holds what memory holds.\<close>

definition keyed :: "('id, 'so, 'up) storable \<Rightarrow> ('id, 'so) data_store \<Rightarrow> bool" where
  "keyed S ds \<longleftrightarrow> (\<forall>i obj. objects ds i = Some obj \<longrightarrow> so_id S obj = i)"

definition synced ::
    "('id, 'so, 'up) storable \<Rightarrow> ('id, 'so) data_store \<Rightarrow> (kv_target \<rightharpoonup> bytes) \<Rightarrow> bool" where
  "synced S ds m \<longleftrightarrow> (\<forall>i. m (store_target S ds i) = map_option (so_encode S) (objects ds i))"

lemma store_target_objects_update [simp]:
  "store_target S (ds\<lparr>objects := m\<rparr>) i = store_target S ds i"
  by (simp add: store_target_def)

lemma keyed_obj: "keyed S ds \<Longrightarrow> objects ds i = Some obj \<Longrightarrow> so_id S obj = i"
  by (simp add: keyed_def)

lemma keyed_upd: "keyed S ds \<Longrightarrow> so_id S obj = i \<Longrightarrow> keyed S (ds\<lparr>objects := (objects ds)(i \<mapsto> obj)\<rparr>)"
  by (simp add: keyed_def)

lemma keyed_del: "keyed S ds \<Longrightarrow> keyed S (ds\<lparr>objects := (objects ds)(i := None)\<rparr>)"
  by (simp add: keyed_def)

lemma keyed_fold:
  "\<forall>i obj. m i = Some obj \<longrightarrow> f obj = i \<Longrightarrow>
     \<forall>i obj. fold (\<lambda>obj m. m(f obj \<mapsto> obj)) objs m i = Some obj \<longrightarrow> f obj = i"
proof (induction objs arbitrary: m)
  case Nil
  then show ?case by simp
next
  case (Cons x objs)
  have "f obj = i" if "(m(f x \<mapsto> x)) i = Some obj" for i obj
    using Cons.prems [rule_format, of i obj] that by (cases "i = f x") auto
  then have "\<forall>i obj. (m(f x \<mapsto> x)) i = Some obj \<longrightarrow> f obj = i"
    by blast
  then show ?case
    unfolding fold.simps comp_apply by (rule Cons.IH)
qed

lemma keyed_new: "keyed S (DataStore_new S objs p s)"
  unfolding keyed_def DataStore_new_def data_store.select_convs
  by (rule keyed_fold) simp

section \<open>A store of objects on a key-value store\<close>

locale object_store = storable_object S + kv_store ops contents invar
  for S :: "('id, 'so, 'up) storable" and ops :: "'kv kv_ops" and contents and invar
begin

lemma synced_upd:
  "synced S ds m \<Longrightarrow>
     synced S (ds\<lparr>objects := (objects ds)(i \<mapsto> obj)\<rparr>) (m(store_target S ds i \<mapsto> so_encode S obj))"
  by (simp add: synced_def)

lemma synced_del:
  "synced S ds m \<Longrightarrow> synced S (ds\<lparr>objects := (objects ds)(i := None)\<rparr>) (m(store_target S ds i := None))"
  by (simp add: synced_def)

lemma persist_contents:
  assumes inv: "invar kv" and p: "DataStore_persist S ops ds kv obj = (r, kv')"
  shows "invar kv' \<and> contents kv' =
    (if isl r then contents kv else (contents kv)(store_target S ds (so_id S obj) \<mapsto> so_encode S obj))"
proof -
  obtain q k where w: "kv_write ops kv (store_target S ds (so_id S obj)) (so_encode S obj) = (q, k)"
    by fastforce
  with p show ?thesis
    using contents_write [OF inv w] invar_write [OF inv w]
    by (cases q) (auto simp: DataStore_persist_def)
qed

text \<open>
  The shape of the two inserting operations: the object \<open>obj\<close> to be stored under \<open>i\<close> is
  persisted first and enters the map only when that succeeded.
\<close>

lemma persist_then_store:
  assumes inv: "invar kv" and k: "keyed S ds" and s: "synced S ds (contents kv)" and i: "so_id S obj = i"
    and p: "DataStore_persist S ops ds kv obj = (q, kv')"
    and ds': "ds' = (if isl q then ds else ds\<lparr>objects := (objects ds)(i \<mapsto> obj)\<rparr>)"
  shows "invar kv' \<and> keyed S ds' \<and> synced S ds' (contents kv')"
  using persist_contents [OF inv p] keyed_upd [OF k i] synced_upd [OF s, of i obj] k s i ds'
  by (cases "isl q") simp_all

lemma insert_ok:
  assumes "invar kv" "keyed S ds" "synced S ds (contents kv)" "DataStore_insert S ops ds kv obj = (r, ds', kv')"
  shows "invar kv' \<and> keyed S ds' \<and> synced S ds' (contents kv') \<and> (isl r \<longrightarrow> ds' = ds)"
proof -
  obtain q k where p: "DataStore_persist S ops ds kv obj = (q, k)"
    by fastforce
  have "isl r = isl q \<and> k = kv' \<and> ds' = (if isl q then ds else ds\<lparr>objects := (objects ds)(so_id S obj \<mapsto> obj)\<rparr>)"
    using assms(4) p by (cases q) (auto simp: DataStore_insert_def)
  with persist_then_store [OF assms(1-3) refl p, of ds'] show ?thesis
    by simp
qed

lemma insert_or_update_ok:
  assumes "invar kv" "keyed S ds" "synced S ds (contents kv)"
    and "DataStore_insert_or_update S ops ds kv obj = (r, ds', kv')"
  shows "invar kv' \<and> keyed S ds' \<and> synced S ds' (contents kv') \<and> (isl r \<longrightarrow> ds' = ds)"
proof (cases "objects ds (so_id S obj)")
  case None
  obtain q k where p: "DataStore_persist S ops ds kv obj = (q, k)"
    by fastforce
  have "isl r = isl q \<and> k = kv' \<and> ds' = (if isl q then ds else ds\<lparr>objects := (objects ds)(so_id S obj \<mapsto> obj)\<rparr>)"
    using assms(4) p None by (cases q) (auto simp: DataStore_insert_or_update_def)
  with persist_then_store [OF assms(1-3) refl p, of ds'] show ?thesis
    by simp
next
  case (Some entry)
  obtain b obj' where up: "so_update S entry (so_to_update S obj) = (b, obj')"
    by fastforce
  with Some assms(2) have i: "so_id S obj' = so_id S obj"
    using update_id keyed_obj by metis
  obtain q k where p: "DataStore_persist S ops ds kv obj' = (q, k)"
    by fastforce
  show ?thesis
  proof (cases b)
    case True
    with assms(4) p Some up
    have "isl r = isl q \<and> k = kv' \<and> ds' = (if isl q then ds else ds\<lparr>objects := (objects ds)(so_id S obj \<mapsto> obj')\<rparr>)"
      by (cases q) (auto simp: DataStore_insert_or_update_def)
    with persist_then_store [OF assms(1-3) i p, of ds'] show ?thesis
      by simp
  next
    case False
    with assms Some up show ?thesis
      by (simp add: DataStore_insert_or_update_def)
  qed
qed

text \<open>
  \<open>update\<close> on the other hand changes the object in place first: the map holds the new object
  whether or not it could be persisted.
\<close>

lemma update_state:
  assumes "invar kv" "keyed S ds" "synced S ds (contents kv)" "objects ds (up_id S up) = Some obj"
    and "so_update S obj up = (b, obj')" and "DataStore_update S ops ds kv up = (r, ds', kv')"
  shows "invar kv' \<and> keyed S ds' \<and> ds' = ds\<lparr>objects := (objects ds)(up_id S up \<mapsto> obj')\<rparr>
    \<and> (if isl r then b \<and> r = Inl PersistenceFailed \<and> contents kv' = contents kv
       else r = Inr (if b then Updated else Unchanged) \<and> synced S ds' (contents kv'))"
proof -
  have i: "so_id S obj' = up_id S up"
    using assms(2,4,5) update_id keyed_obj by metis
  obtain q k where p: "DataStore_persist S ops ds kv obj' = (q, k)"
    by fastforce
  have q: "q = Inl PersistenceFailed" if "isl q"
    using p that by (auto simp: DataStore_persist_def split: prod.splits sum.splits)
  show ?thesis
  proof (cases b)
    case True
    with assms p have "r = (if isl q then q' else Inr Updated)" if "q' = map_sum id (\<lambda>_. Updated) q" for q'
      using that by (cases q) (auto simp: DataStore_update_def)
    moreover have "kv' = k" "ds' = ds\<lparr>objects := (objects ds)(up_id S up \<mapsto> obj')\<rparr>"
      using True assms p by (cases q; auto simp: DataStore_update_def)+
    ultimately show ?thesis
      using True q persist_contents [OF assms(1) p] keyed_upd [OF assms(2) i]
        synced_upd [OF assms(3), of "up_id S up" obj'] i
      by (cases q) simp_all
  next
    case False
    with assms have "obj' = obj"
      by (auto dest: update_unchanged)
    with False assms have "ds' = ds" "kv' = kv" "r = Inr Unchanged"
      by (auto simp: DataStore_update_def map_upd_triv)
    with assms False \<open>obj' = obj\<close> show ?thesis
      by (simp add: map_upd_triv)
  qed
qed

lemma update_retry_unchanged:
  assumes "invar kv" "keyed S ds" "synced S ds (contents kv)" "objects ds (up_id S up) = Some obj"
    and "DataStore_update S ops ds kv up = (Inl e, ds', kv')"
  shows "contents kv' = contents kv \<and> objects ds' (up_id S up) = Some (snd (so_update S obj up))
    \<and> DataStore_update S ops ds' kv2 up = (Inr Unchanged, ds', kv2)"
proof -
  obtain b obj' where u: "so_update S obj up = (b, obj')"
    by fastforce
  note st = update_state [OF assms(1-4) u assms(5)]
  with update_twice [OF u] u show ?thesis
    by (simp add: DataStore_update_def)
qed

lemma insert_then_insert_or_update:
  assumes "DataStore_insert S ops ds kv obj = (Inr b, ds', kv')"
  shows "b = (objects ds (so_id S obj) \<noteq> None) \<and> DataStore_get ds' (so_id S obj) = Some obj
    \<and> DataStore_insert_or_update S ops ds' kv2 obj = (Inr False, ds', kv2)"
  using assms update_self [of obj]
  by (auto simp: DataStore_insert_def DataStore_insert_or_update_def DataStore_get_def
      split: prod.splits sum.splits)

lemma remove_state:
  assumes "invar kv" "keyed S ds" "synced S ds (contents kv)" "DataStore_remove S ops ds kv i = (r, ds', kv')"
  shows "invar kv' \<and> keyed S ds' \<and> objects ds' = (objects ds)(i := None)
    \<and> (if isl r then objects ds i \<noteq> None \<and> contents kv' = contents kv else synced S ds' (contents kv'))"
proof (cases "objects ds i")
  case None
  with assms show ?thesis
    by (auto simp: DataStore_remove_def keyed_del synced_def)
next
  case (Some obj)
  obtain q k where p: "kv_remove ops kv (store_target S ds i) = (q, k)"
    by fastforce
  with Some assms show ?thesis
    using contents_remove [OF assms(1) p] invar_remove [OF assms(1) p] keyed_del [OF assms(2)]
      synced_del [OF assms(3), of i]
    by (cases q) (auto simp: DataStore_remove_def)
qed

end

end
