(* ===== verification/LN_Types.thy ===== *)
theory LN_Types
  imports LDK_Prelude
begin

text \<open>
  The identifiers the node's own code passes around: newtypes over byte strings of the
  \<open>lightning\<close> and \<open>bitcoin\<close> crates, which the sources only compare, copy and print.
\<close>

datatype payment_id = PaymentId bytes
datatype payment_hash = PaymentHash bytes
datatype payment_preimage = PaymentPreimage bytes
datatype payment_secret = PaymentSecret bytes
datatype offer_id = OfferId bytes
datatype channel_id = ChannelId bytes
datatype public_key = PublicKey bytes
datatype txid = Txid bytes
datatype block_hash = BlockHash bytes
datatype user_channel_id = UserChannelId u128

record outpoint =
  op_txid :: txid
  op_vout :: u32

record custom_tlv_record =
  type_num :: u64
  tlv_value :: bytes

text \<open>Inbound payments are tracked under an identifier equal to their hash.\<close>

fun id_of_hash :: "payment_hash \<Rightarrow> payment_id" where
  "id_of_hash (PaymentHash b) = PaymentId b"

fun hash_of_id :: "payment_id \<Rightarrow> payment_hash" where
  "hash_of_id (PaymentId b) = PaymentHash b"

end
