(* ===== verification/Payment_Store.thy ===== *)
theory Payment_Store
  imports LN_Types Data_Store
begin

text \<open>
  The payment records of \<open>src/payment/store.rs\<close>: the data, the in-place update with its
  change flag, the full update computed from a record, and the persisted form with the
  compatibility rule for records written by version 0.2.1 and before. Updates with a failing
  \<open>debug_assert\<close> panic in debug builds only; the assertions are the predicate
  \<open>PaymentDetails_update_asserts\<close> and release behaviour is modelled otherwise. The clock is
  the argument \<open>now\<close>. The byte-level TLV stream is written and read by macros of the
  \<open>lightning\<close> crate; here a record is the collection of its typed fields.
\<close>

section \<open>Data\<close>

datatype payment_direction = Inbound | Outbound

datatype payment_status = Pending | Succeeded | Failed

datatype confirmation_status = Confirmed block_hash u32 u64 | Unconfirmed

record lsp_fee_limits =
  max_total_opening_fee_msat :: "u64 option"
  max_proportional_opening_fee_ppm_msat :: "u64 option"

text \<open>
  The arguments are, in order: \<open>Onchain\<close> txid, status; \<open>Bolt11\<close> hash, preimage, secret,
  description, invoice; \<open>Bolt11Jit\<close> hash, preimage, secret, skimmed fee, fee limits,
  description, invoice; \<open>Bolt12Offer\<close> hash, preimage, secret, offer, payer note, quantity;
  \<open>Bolt12Refund\<close> hash, preimage, secret, payer note, quantity; \<open>Spontaneous\<close> hash, preimage.
\<close>

datatype payment_kind =
    Onchain txid confirmation_status
  | Bolt11 payment_hash "payment_preimage option" "payment_secret option" "string option" "string option"
  | Bolt11Jit payment_hash "payment_preimage option" "payment_secret option" "u64 option" lsp_fee_limits
      "string option" "string option"
  | Bolt12Offer "payment_hash option" "payment_preimage option" "payment_secret option" offer_id
      "string option" "u64 option"
  | Bolt12Refund "payment_hash option" "payment_preimage option" "payment_secret option"
      "string option" "u64 option"
  | Spontaneous payment_hash "payment_preimage option"

record payment_details =
  pd_id :: payment_id
  pd_kind :: payment_kind
  pd_amount_msat :: "u64 option"
  pd_fee_paid_msat :: "u64 option"
  pd_direction :: payment_direction
  pd_status :: payment_status
  pd_latest_update_timestamp :: u64

record payment_details_update =
  pu_id :: payment_id
  pu_hash :: "payment_hash option option"
  pu_preimage :: "payment_preimage option option"
  pu_secret :: "payment_secret option option"
  pu_amount_msat :: "u64 option option"
  pu_fee_paid_msat :: "u64 option option"
  pu_counterparty_skimmed_fee_msat :: "u64 option option"
  pu_direction :: "payment_direction option"
  pu_status :: "payment_status option"
  pu_confirmation_status :: "confirmation_status option"

definition PaymentDetails_new ::
    "u64 \<Rightarrow> payment_id \<Rightarrow> payment_kind \<Rightarrow> u64 option \<Rightarrow> u64 option \<Rightarrow> payment_direction \<Rightarrow> payment_status
       \<Rightarrow> payment_details" where
  "PaymentDetails_new now i kind amount_msat fee_paid_msat direction status =
     \<lparr>pd_id = i, pd_kind = kind, pd_amount_msat = amount_msat, pd_fee_paid_msat = fee_paid_msat,
      pd_direction = direction, pd_status = status, pd_latest_update_timestamp = now\<rparr>"

definition PaymentDetailsUpdate_new :: "payment_id \<Rightarrow> payment_details_update" where
  "PaymentDetailsUpdate_new i =
     \<lparr>pu_id = i, pu_hash = None, pu_preimage = None, pu_secret = None, pu_amount_msat = None,
      pu_fee_paid_msat = None, pu_counterparty_skimmed_fee_msat = None, pu_direction = None,
      pu_status = None, pu_confirmation_status = None\<rparr>"

section \<open>Updating a record in place\<close>

text \<open>
  The macro \<open>update_if_necessary\<close>: \<open>self'\<close> is the record with the new value in place. Each
  step below is one \<open>if let\<close> of the source, on the record and the flag \<open>updated\<close>.
\<close>

definition update_if_necessary :: "'v \<Rightarrow> 'v \<Rightarrow> 's \<Rightarrow> 's \<times> bool \<Rightarrow> 's \<times> bool" where
  "update_if_necessary val upd self' st = (if val \<noteq> upd then (self', True) else st)"

type_synonym update_state = "payment_details \<times> bool"

fun update_hash :: "payment_hash option option \<Rightarrow> update_state \<Rightarrow> update_state" where
  "update_hash None st = st"
| "update_hash (Some hash_opt) (self, updated) =
     (case pd_kind self of
        Bolt12Offer h p s off n q \<Rightarrow>
          update_if_necessary h hash_opt (self\<lparr>pd_kind := Bolt12Offer hash_opt p s off n q\<rparr>) (self, updated)
      | Bolt12Refund h p s n q \<Rightarrow>
          update_if_necessary h hash_opt (self\<lparr>pd_kind := Bolt12Refund hash_opt p s n q\<rparr>) (self, updated)
      | _ \<Rightarrow> (self, updated))"

fun update_preimage :: "payment_preimage option option \<Rightarrow> update_state \<Rightarrow> update_state" where
  "update_preimage None st = st"
| "update_preimage (Some preimage_opt) (self, updated) =
     (case pd_kind self of
        Bolt11 h p s d b \<Rightarrow>
          update_if_necessary p preimage_opt (self\<lparr>pd_kind := Bolt11 h preimage_opt s d b\<rparr>) (self, updated)
      | Bolt11Jit h p s c l d b \<Rightarrow>
          update_if_necessary p preimage_opt (self\<lparr>pd_kind := Bolt11Jit h preimage_opt s c l d b\<rparr>) (self, updated)
      | Bolt12Offer h p s off n q \<Rightarrow>
          update_if_necessary p preimage_opt (self\<lparr>pd_kind := Bolt12Offer h preimage_opt s off n q\<rparr>) (self, updated)
      | Bolt12Refund h p s n q \<Rightarrow>
          update_if_necessary p preimage_opt (self\<lparr>pd_kind := Bolt12Refund h preimage_opt s n q\<rparr>) (self, updated)
      | Spontaneous h p \<Rightarrow>
          update_if_necessary p preimage_opt (self\<lparr>pd_kind := Spontaneous h preimage_opt\<rparr>) (self, updated)
      | _ \<Rightarrow> (self, updated))"

fun update_secret :: "payment_secret option option \<Rightarrow> update_state \<Rightarrow> update_state" where
  "update_secret None st = st"
| "update_secret (Some secret_opt) (self, updated) =
     (case pd_kind self of
        Bolt11 h p s d b \<Rightarrow>
          update_if_necessary s secret_opt (self\<lparr>pd_kind := Bolt11 h p secret_opt d b\<rparr>) (self, updated)
      | Bolt11Jit h p s c l d b \<Rightarrow>
          update_if_necessary s secret_opt (self\<lparr>pd_kind := Bolt11Jit h p secret_opt c l d b\<rparr>) (self, updated)
      | Bolt12Offer h p s off n q \<Rightarrow>
          update_if_necessary s secret_opt (self\<lparr>pd_kind := Bolt12Offer h p secret_opt off n q\<rparr>) (self, updated)
      | Bolt12Refund h p s n q \<Rightarrow>
          update_if_necessary s secret_opt (self\<lparr>pd_kind := Bolt12Refund h p secret_opt n q\<rparr>) (self, updated)
      | _ \<Rightarrow> (self, updated))"

fun update_amount_msat :: "u64 option option \<Rightarrow> update_state \<Rightarrow> update_state" where
  "update_amount_msat None st = st"
| "update_amount_msat (Some amount_opt) (self, updated) =
     update_if_necessary (pd_amount_msat self) amount_opt (self\<lparr>pd_amount_msat := amount_opt\<rparr>) (self, updated)"

fun update_fee_paid_msat :: "u64 option option \<Rightarrow> update_state \<Rightarrow> update_state" where
  "update_fee_paid_msat None st = st"
| "update_fee_paid_msat (Some fee_opt) (self, updated) =
     update_if_necessary (pd_fee_paid_msat self) fee_opt (self\<lparr>pd_fee_paid_msat := fee_opt\<rparr>) (self, updated)"

fun update_skimmed_fee_msat :: "u64 option option \<Rightarrow> update_state \<Rightarrow> update_state" where
  "update_skimmed_fee_msat None st = st"
| "update_skimmed_fee_msat (Some fee) (self, updated) =
     (case pd_kind self of
        Bolt11Jit h p s c l d b \<Rightarrow>
          update_if_necessary c fee (self\<lparr>pd_kind := Bolt11Jit h p s fee l d b\<rparr>) (self, updated)
      | _ \<Rightarrow> (self, updated))"

fun update_status :: "payment_status option \<Rightarrow> update_state \<Rightarrow> update_state" where
  "update_status None st = st"
| "update_status (Some status) (self, updated) =
     update_if_necessary (pd_status self) status (self\<lparr>pd_status := status\<rparr>) (self, updated)"

fun update_confirmation_status :: "confirmation_status option \<Rightarrow> update_state \<Rightarrow> update_state" where
  "update_confirmation_status None st = st"
| "update_confirmation_status (Some cs) (self, updated) =
     (case pd_kind self of
        Onchain t c \<Rightarrow> update_if_necessary c cs (self\<lparr>pd_kind := Onchain t cs\<rparr>) (self, updated)
      | _ \<Rightarrow> (self, updated))"

fun update_direction :: "payment_direction option \<Rightarrow> update_state \<Rightarrow> update_state" where
  "update_direction None st = st"
| "update_direction (Some direction) (self, updated) =
     (let downgrade = pd_direction self = Outbound \<and> direction = Inbound in
      if \<not> downgrade
      then update_if_necessary (pd_direction self) direction (self\<lparr>pd_direction := direction\<rparr>) (self, updated)
      else (self, updated))"

definition PaymentDetails_update ::
    "u64 \<Rightarrow> payment_details \<Rightarrow> payment_details_update \<Rightarrow> bool \<times> payment_details" where
  "PaymentDetails_update now self up =
     (let st = (self, False);
          st = update_hash (pu_hash up) st;
          st = update_preimage (pu_preimage up) st;
          st = update_secret (pu_secret up) st;
          st = update_amount_msat (pu_amount_msat up) st;
          st = update_fee_paid_msat (pu_fee_paid_msat up) st;
          st = update_skimmed_fee_msat (pu_counterparty_skimmed_fee_msat up) st;
          st = update_status (pu_status up) st;
          st = update_confirmation_status (pu_confirmation_status up) st;
          (self', updated) = update_direction (pu_direction up) st in
      if updated then (True, self'\<lparr>pd_latest_update_timestamp := now\<rparr>) else (False, self'))"

text \<open>The assertions that are checked in debug builds.\<close>

definition PaymentDetails_update_asserts :: "payment_details \<Rightarrow> payment_details_update \<Rightarrow> bool" where
  "PaymentDetails_update_asserts self up \<longleftrightarrow>
     pd_id self = pu_id up
     \<and> (case pu_hash up of
          None \<Rightarrow> True
        | Some hash_opt \<Rightarrow>
            (case pd_kind self of
               Bolt12Offer h p s off n q \<Rightarrow> pd_direction self = Outbound \<and> (h = None \<or> h = hash_opt)
             | Bolt12Refund h p s n q \<Rightarrow> pd_direction self = Outbound \<and> (h = None \<or> h = hash_opt)
             | _ \<Rightarrow> True))
     \<and> (pu_counterparty_skimmed_fee_msat up \<noteq> None \<longrightarrow>
          (case pd_kind self of Bolt11Jit h p s c l d b \<Rightarrow> True | _ \<Rightarrow> False))"

definition PaymentDetailsUpdate_from :: "payment_details \<Rightarrow> payment_details_update" where
  "PaymentDetailsUpdate_from v =
     (let (hash, preimage, secret) =
            (case pd_kind v of
               Bolt11 h p s d b \<Rightarrow> (Some h, p, s)
             | Bolt11Jit h p s c l d b \<Rightarrow> (Some h, p, s)
             | Bolt12Offer h p s off n q \<Rightarrow> (h, p, s)
             | Bolt12Refund h p s n q \<Rightarrow> (h, p, s)
             | Spontaneous h p \<Rightarrow> (Some h, p, None)
             | _ \<Rightarrow> (None, None, None));
          confirmation_status = (case pd_kind v of Onchain t s \<Rightarrow> Some s | _ \<Rightarrow> None);
          skimmed = (case pd_kind v of Bolt11Jit h p s c l d b \<Rightarrow> Some c | _ \<Rightarrow> None)
      in \<lparr>pu_id = pd_id v, pu_hash = Some hash, pu_preimage = Some preimage, pu_secret = Some secret,
          pu_amount_msat = Some (pd_amount_msat v), pu_fee_paid_msat = Some (pd_fee_paid_msat v),
          pu_counterparty_skimmed_fee_msat = skimmed, pu_direction = Some (pd_direction v),
          pu_status = Some (pd_status v), pu_confirmation_status = confirmation_status\<rparr>)"

fun PaymentId_encode_to_hex_str :: "payment_id \<Rightarrow> string" where
  "PaymentId_encode_to_hex_str (PaymentId b) = to_string b"

section \<open>Persisted form\<close>

text \<open>
  The fields of the TLV stream by their numbers. A field that is \<open>required\<close> of an optional
  value is absent, present and empty, or present with a value. \<open>None\<close> is an absent field.
\<close>

record payment_tlv =
  tlv_id :: "payment_id option"
  tlv_lsp_fee_limits :: "lsp_fee_limits option"
  tlv_preimage :: "payment_preimage option option"
  tlv_kind :: "payment_kind option"
  tlv_secret :: "payment_secret option option"
  tlv_latest_update_timestamp :: "u64 option"
  tlv_amount_msat :: "u64 option option"
  tlv_fee_paid_msat :: "u64 option"
  tlv_direction :: "payment_direction option"
  tlv_status :: "payment_status option"

datatype decode_error = InvalidValue

definition PaymentDetails_write :: "payment_details \<Rightarrow> payment_tlv" where
  "PaymentDetails_write self =
     \<lparr>tlv_id = Some (pd_id self), tlv_lsp_fee_limits = None, tlv_preimage = Some None,
      tlv_kind = Some (pd_kind self), tlv_secret = Some None,
      tlv_latest_update_timestamp = Some (pd_latest_update_timestamp self),
      tlv_amount_msat = Some (pd_amount_msat self), tlv_fee_paid_msat = pd_fee_paid_msat self,
      tlv_direction = Some (pd_direction self), tlv_status = Some (pd_status self)\<rparr>"

definition legacy_kind ::
    "payment_id \<Rightarrow> payment_preimage option \<Rightarrow> payment_secret option \<Rightarrow> lsp_fee_limits option \<Rightarrow> payment_kind" where
  "legacy_kind i preimage secret limits =
     (let hash = hash_of_id i in
      if secret \<noteq> None then
        (case limits of
           Some lsp_fee_limits \<Rightarrow> Bolt11Jit hash preimage secret None lsp_fee_limits None None
         | None \<Rightarrow> Bolt11 hash preimage secret None None)
      else Spontaneous hash preimage)"

definition PaymentDetails_read :: "u64 \<Rightarrow> payment_tlv \<Rightarrow> (payment_details, decode_error) result" where
  "PaymentDetails_read unix_time_secs t =
     and_then (ok_or InvalidValue (tlv_id t)) (\<lambda>i.
     and_then (ok_or InvalidValue (tlv_preimage t)) (\<lambda>preimage.
     and_then (ok_or InvalidValue (tlv_secret t)) (\<lambda>secret.
     (let latest_update_timestamp =
            (case tlv_latest_update_timestamp t of None \<Rightarrow> unix_time_secs | Some ts \<Rightarrow> ts) in
     and_then (ok_or InvalidValue (tlv_amount_msat t)) (\<lambda>amount_msat.
     and_then (ok_or InvalidValue (tlv_direction t)) (\<lambda>direction.
     and_then (ok_or InvalidValue (tlv_status t)) (\<lambda>status.
     (let kind = (case tlv_kind t of
                    Some kind \<Rightarrow> kind
                  | None \<Rightarrow> legacy_kind i preimage secret (tlv_lsp_fee_limits t))
      in Inr \<lparr>pd_id = i, pd_kind = kind, pd_amount_msat = amount_msat,
              pd_fee_paid_msat = tlv_fee_paid_msat t, pd_direction = direction, pd_status = status,
              pd_latest_update_timestamp = latest_update_timestamp\<rparr>))))))))"

text \<open>
  Reading all payments at start-up: \<open>keys\<close> is what the store listed, in the order in which the
  parallel reads complete; the first failing one is the result. \<open>decode\<close> splits bytes into
  the fields of the stream.
\<close>

fun read_payments_loop ::
    "(bytes \<Rightarrow> payment_tlv option) \<Rightarrow> u64 \<Rightarrow> 'kv kv_ops \<Rightarrow> 'kv \<Rightarrow> string \<Rightarrow> string \<Rightarrow> string list
       \<Rightarrow> payment_details list \<Rightarrow> (payment_details list, io_error) result" where
  "read_payments_loop decode now ops kv p s [] payments = Inr payments"
| "read_payments_loop decode now ops kv p s (key # keys) payments =
     (case kv_read ops kv (p, s, key) of
        Inl e \<Rightarrow> Inl e
      | Inr data \<Rightarrow>
          (case decode data of
             None \<Rightarrow> Inl InvalidData
           | Some t \<Rightarrow>
               (case PaymentDetails_read now t of
                  Inl _ \<Rightarrow> Inl InvalidData
                | Inr payment \<Rightarrow> read_payments_loop decode now ops kv p s keys (payments @ [payment]))))"

definition PAYMENT_INFO_PERSISTENCE_PRIMARY_NAMESPACE :: string where
  "PAYMENT_INFO_PERSISTENCE_PRIMARY_NAMESPACE = ''payments''"

definition PAYMENT_INFO_PERSISTENCE_SECONDARY_NAMESPACE :: string where
  "PAYMENT_INFO_PERSISTENCE_SECONDARY_NAMESPACE = []"

definition read_payments_async ::
    "(bytes \<Rightarrow> payment_tlv option) \<Rightarrow> u64 \<Rightarrow> 'kv kv_ops \<Rightarrow> 'kv \<Rightarrow> (string list, io_error) result
       \<Rightarrow> (payment_details list, io_error) result" where
  "read_payments_async decode now ops kv listed =
     and_then listed (\<lambda>keys.
       if keys = [] then Inr []
       else read_payments_loop decode now ops kv PAYMENT_INFO_PERSISTENCE_PRIMARY_NAMESPACE
              PAYMENT_INFO_PERSISTENCE_SECONDARY_NAMESPACE keys [])"

section \<open>Payments as stored objects\<close>

definition payment_storable ::
    "u64 \<Rightarrow> (payment_tlv \<Rightarrow> bytes) \<Rightarrow> (payment_id, payment_details, payment_details_update) storable" where
  "payment_storable now encode =
     \<lparr>so_id = pd_id, so_update = PaymentDetails_update now, so_to_update = PaymentDetailsUpdate_from,
      up_id = pu_id, encode_to_hex_str = PaymentId_encode_to_hex_str,
      so_encode = (\<lambda>d. encode (PaymentDetails_write d))\<rparr>"

section \<open>The update as one overwrite\<close>

text \<open>
  The reference: every field an update carries replaces the field of the record where the kind
  has it, except that an outbound payment stays outbound.
\<close>

fun overwrite :: "'a option \<Rightarrow> 'a \<Rightarrow> 'a" where
  "overwrite None x = x"
| "overwrite (Some y) x = y"

fun kind_overwrite :: "payment_details_update \<Rightarrow> payment_kind \<Rightarrow> payment_kind" where
  "kind_overwrite up (Onchain t c) = Onchain t (overwrite (pu_confirmation_status up) c)"
| "kind_overwrite up (Bolt11 h p s d b) =
     Bolt11 h (overwrite (pu_preimage up) p) (overwrite (pu_secret up) s) d b"
| "kind_overwrite up (Bolt11Jit h p s c l d b) =
     Bolt11Jit h (overwrite (pu_preimage up) p) (overwrite (pu_secret up) s)
       (overwrite (pu_counterparty_skimmed_fee_msat up) c) l d b"
| "kind_overwrite up (Bolt12Offer h p s off n q) =
     Bolt12Offer (overwrite (pu_hash up) h) (overwrite (pu_preimage up) p) (overwrite (pu_secret up) s) off n q"
| "kind_overwrite up (Bolt12Refund h p s n q) =
     Bolt12Refund (overwrite (pu_hash up) h) (overwrite (pu_preimage up) p) (overwrite (pu_secret up) s) n q"
| "kind_overwrite up (Spontaneous h p) = Spontaneous h (overwrite (pu_preimage up) p)"

definition details_overwrite :: "payment_details_update \<Rightarrow> payment_details \<Rightarrow> payment_details" where
  "details_overwrite up d =
     d\<lparr>pd_kind := kind_overwrite up (pd_kind d),
       pd_amount_msat := overwrite (pu_amount_msat up) (pd_amount_msat d),
       pd_fee_paid_msat := overwrite (pu_fee_paid_msat up) (pd_fee_paid_msat d),
       pd_status := overwrite (pu_status up) (pd_status d),
       pd_direction := (if pd_direction d = Outbound then Outbound
                        else overwrite (pu_direction up) (pd_direction d))\<rparr>"

text \<open>The record that ends up in the store when \<open>d\<close> arrives.\<close>

definition payment_merge :: "u64 \<Rightarrow> payment_details option \<Rightarrow> payment_details \<Rightarrow> payment_details" where
  "payment_merge now old d =
     (case old of None \<Rightarrow> d | Some e \<Rightarrow> snd (PaymentDetails_update now e (PaymentDetailsUpdate_from d)))"

text \<open>
  Each step of the update overwrites one part of the record and raises the flag on a change:
  \<open>raising put get f\<close> is such a step.
\<close>

definition raising :: "('v \<Rightarrow> 's \<Rightarrow> 's) \<Rightarrow> ('s \<Rightarrow> 'v) \<Rightarrow> ('v \<Rightarrow> 'v) \<Rightarrow> 's \<times> bool \<Rightarrow> 's \<times> bool" where
  "raising put get f st = (put (f (get (fst st))) (fst st), snd st \<or> f (get (fst st)) \<noteq> get (fst st))"

abbreviation kind_step :: "payment_details_update \<Rightarrow> update_state \<Rightarrow> update_state" where
  "kind_step up \<equiv> raising (\<lambda>k d. d\<lparr>pd_kind := k\<rparr>) pd_kind (kind_overwrite up)"

abbreviation no_update :: payment_details_update where
  "no_update \<equiv> PaymentDetailsUpdate_new (PaymentId [])"

lemma step_eqI: "(\<And>d u. f (d, u) = g (d, u)) \<Longrightarrow> f = g" for f g :: "update_state \<Rightarrow> update_state"
  by auto

lemmas step_defs = raising_def update_if_necessary_def PaymentDetailsUpdate_new_def

lemma update_hash_step: "update_hash h = kind_step (no_update\<lparr>pu_hash := h\<rparr>)"
proof (rule step_eqI)
  show "update_hash h (d, u) = kind_step (no_update\<lparr>pu_hash := h\<rparr>) (d, u)" for d u
    by (cases h; cases "pd_kind d") (auto simp: step_defs)
qed

lemma update_preimage_step: "update_preimage p = kind_step (no_update\<lparr>pu_preimage := p\<rparr>)"
proof (rule step_eqI)
  show "update_preimage p (d, u) = kind_step (no_update\<lparr>pu_preimage := p\<rparr>) (d, u)" for d u
    by (cases p; cases "pd_kind d") (auto simp: step_defs)
qed

lemma update_secret_step: "update_secret s = kind_step (no_update\<lparr>pu_secret := s\<rparr>)"
proof (rule step_eqI)
  show "update_secret s (d, u) = kind_step (no_update\<lparr>pu_secret := s\<rparr>) (d, u)" for d u
    by (cases s; cases "pd_kind d") (auto simp: step_defs)
qed

lemma update_skimmed_fee_msat_step:
  "update_skimmed_fee_msat c = kind_step (no_update\<lparr>pu_counterparty_skimmed_fee_msat := c\<rparr>)"
proof (rule step_eqI)
  show "update_skimmed_fee_msat c (d, u)
      = kind_step (no_update\<lparr>pu_counterparty_skimmed_fee_msat := c\<rparr>) (d, u)" for d u
    by (cases c; cases "pd_kind d") (auto simp: step_defs)
qed

lemma update_confirmation_status_step:
  "update_confirmation_status c = kind_step (no_update\<lparr>pu_confirmation_status := c\<rparr>)"
proof (rule step_eqI)
  show "update_confirmation_status c (d, u)
      = kind_step (no_update\<lparr>pu_confirmation_status := c\<rparr>) (d, u)" for d u
    by (cases c; cases "pd_kind d") (auto simp: step_defs)
qed

lemma update_field_steps:
  "update_amount_msat a = raising (\<lambda>v d. d\<lparr>pd_amount_msat := v\<rparr>) pd_amount_msat (overwrite a)"
  "update_fee_paid_msat f = raising (\<lambda>v d. d\<lparr>pd_fee_paid_msat := v\<rparr>) pd_fee_paid_msat (overwrite f)"
  "update_status s = raising (\<lambda>v d. d\<lparr>pd_status := v\<rparr>) pd_status (overwrite s)"
  "update_direction r = raising (\<lambda>v d. d\<lparr>pd_direction := v\<rparr>) pd_direction
     (\<lambda>v. if v = Outbound then Outbound else overwrite r v)"
proof -
  show "update_amount_msat a = raising (\<lambda>v d. d\<lparr>pd_amount_msat := v\<rparr>) pd_amount_msat (overwrite a)"
    by (rule step_eqI, cases a) (auto simp: step_defs)
  show "update_fee_paid_msat f = raising (\<lambda>v d. d\<lparr>pd_fee_paid_msat := v\<rparr>) pd_fee_paid_msat (overwrite f)"
    by (rule step_eqI, cases f) (auto simp: step_defs)
  show "update_status s = raising (\<lambda>v d. d\<lparr>pd_status := v\<rparr>) pd_status (overwrite s)"
    by (rule step_eqI, cases s) (auto simp: step_defs)
  have "x = Outbound \<or> x = Inbound" for x
    by (cases x) simp_all
  then show "update_direction r = raising (\<lambda>v d. d\<lparr>pd_direction := v\<rparr>) pd_direction
     (\<lambda>v. if v = Outbound then Outbound else overwrite r v)"
    by (intro step_eqI, cases r) (auto simp: step_defs Let_def)
qed

lemmas update_steps = update_hash_step update_preimage_step update_secret_step update_field_steps
  update_skimmed_fee_msat_step update_confirmation_status_step

lemma details_overwrite_eq:
  "details_overwrite up d = d \<longleftrightarrow>
     kind_overwrite up (pd_kind d) = pd_kind d
     \<and> overwrite (pu_amount_msat up) (pd_amount_msat d) = pd_amount_msat d
     \<and> overwrite (pu_fee_paid_msat up) (pd_fee_paid_msat d) = pd_fee_paid_msat d
     \<and> overwrite (pu_status up) (pd_status d) = pd_status d
     \<and> (pd_direction d = Outbound \<or> overwrite (pu_direction up) (pd_direction d) = pd_direction d)"
  by (cases d) (auto simp: details_overwrite_def)

lemma kind_overwrite_steps:
  fixes up :: payment_details_update
  defines "k1 \<equiv> kind_overwrite (no_update\<lparr>pu_hash := pu_hash up\<rparr>)"
    and "k2 \<equiv> kind_overwrite (no_update\<lparr>pu_preimage := pu_preimage up\<rparr>)"
    and "k3 \<equiv> kind_overwrite (no_update\<lparr>pu_secret := pu_secret up\<rparr>)"
    and "k4 \<equiv> kind_overwrite (no_update\<lparr>pu_counterparty_skimmed_fee_msat := pu_counterparty_skimmed_fee_msat up\<rparr>)"
    and "k5 \<equiv> kind_overwrite (no_update\<lparr>pu_confirmation_status := pu_confirmation_status up\<rparr>)"
  shows "k5 (k4 (k3 (k2 (k1 k)))) = kind_overwrite up k"
    and "kind_overwrite up k = k \<longleftrightarrow> k1 k = k \<and> k2 k = k \<and> k3 k = k \<and> k4 k = k \<and> k5 k = k"
  by (cases k; simp add: assms PaymentDetailsUpdate_new_def)+

lemma PaymentDetails_update_overwrite:
  "PaymentDetails_update now d up =
     (if details_overwrite up d = d then (False, d)
      else (True, (details_overwrite up d)\<lparr>pd_latest_update_timestamp := now\<rparr>))"
proof -
  define st where "st = (update_direction (pu_direction up) \<circ> update_confirmation_status (pu_confirmation_status up)
    \<circ> update_status (pu_status up) \<circ> update_skimmed_fee_msat (pu_counterparty_skimmed_fee_msat up)
    \<circ> update_fee_paid_msat (pu_fee_paid_msat up) \<circ> update_amount_msat (pu_amount_msat up)
    \<circ> update_secret (pu_secret up) \<circ> update_preimage (pu_preimage up) \<circ> update_hash (pu_hash up)) (d, False)"
  have "fst st = details_overwrite up d"
    by (cases d) (simp add: st_def update_steps raising_def kind_overwrite_steps(1) details_overwrite_def)
  moreover have "\<not> snd st \<longleftrightarrow> details_overwrite up d = d"
    unfolding details_overwrite_eq
    using kind_overwrite_steps(2) [of up "pd_kind d"]
    by (simp add: st_def update_steps raising_def) blast
  ultimately show ?thesis
    by (auto simp: PaymentDetails_update_def st_def Let_def split: prod.splits)
qed

section \<open>Payments satisfy the laws of stored objects\<close>

lemma overwrite_twice [simp]: "overwrite v (overwrite v x) = overwrite v x"
  by (cases v) simp_all

lemma kind_overwrite_twice: "kind_overwrite up (kind_overwrite up k) = kind_overwrite up k"
  by (cases k) simp_all

lemma details_overwrite_twice:
  "details_overwrite up ((details_overwrite up d)\<lparr>pd_latest_update_timestamp := now\<rparr>)
     = (details_overwrite up d)\<lparr>pd_latest_update_timestamp := now\<rparr>"
  by (cases d) (simp add: details_overwrite_def kind_overwrite_twice)

lemma pd_id_details_overwrite [simp]: "pd_id (details_overwrite up d) = pd_id d"
  by (simp add: details_overwrite_def)

lemma details_overwrite_from: "details_overwrite (PaymentDetailsUpdate_from d) d = d"
  unfolding details_overwrite_eq
  by (cases "pd_kind d") (simp_all add: PaymentDetailsUpdate_from_def Let_def)

lemma PaymentId_encode_inj: "PaymentId_encode_to_hex_str i = PaymentId_encode_to_hex_str j \<Longrightarrow> i = j"
  by (cases i; cases j) (auto dest: to_string_inj [THEN iffD1])

lemma payment_storable_laws: "storable_object (payment_storable now encode)"
proof
  note upd = PaymentDetails_update_overwrite
  fix d d' up b
  assume u: "so_update (payment_storable now encode) d up = (b, d')"
  show "so_id (payment_storable now encode) d' = so_id (payment_storable now encode) d"
    using u by (auto simp: payment_storable_def upd split: if_splits)
  show "so_update (payment_storable now encode) d' up = (False, d')"
    using u by (auto simp: payment_storable_def upd details_overwrite_twice split: if_splits)
next
  fix d d' up
  assume "so_update (payment_storable now encode) d up = (False, d')"
  then show "d' = d"
    by (auto simp: payment_storable_def PaymentDetails_update_overwrite split: if_splits)
next
  fix d
  show "so_update (payment_storable now encode) d (so_to_update (payment_storable now encode) d) = (False, d)"
    by (simp add: payment_storable_def PaymentDetails_update_overwrite details_overwrite_from)
  show "up_id (payment_storable now encode) (so_to_update (payment_storable now encode) d)
      = so_id (payment_storable now encode) d"
    by (simp add: payment_storable_def PaymentDetailsUpdate_from_def Let_def split_beta)
next
  fix i j
  assume "encode_to_hex_str (payment_storable now encode) i = encode_to_hex_str (payment_storable now encode) j"
  then show "i = j"
    by (simp add: payment_storable_def PaymentId_encode_inj)
qed

interpretation payments: object_store "payment_storable now encode" "sqlite_ops alphabet max_len db"
    kv_table sqlite_fresh for now encode alphabet max_len db
  by (intro object_store.intro payment_storable_laws sqlite.kv_store_axioms)

section \<open>Restart\<close>

lemma PaymentDetails_read_write: "PaymentDetails_read now (PaymentDetails_write d) = Inr d"
  by (simp add: PaymentDetails_read_def PaymentDetails_write_def)

lemma fold_insert_objects:
  assumes "\<forall>i \<in> set ids. m i \<noteq> None \<and> f (the (m i)) = i"
  shows "fold (\<lambda>obj m. m(f obj \<mapsto> obj)) (map (\<lambda>i. the (m i)) ids) m0 = m0 ++ m |` set ids"
  using assms
proof (induction ids arbitrary: m0)
  case (Cons i ids)
  have "fold (\<lambda>obj m. m(f obj \<mapsto> obj)) (map (\<lambda>i. the (m i)) (i # ids)) m0
      = m0(i \<mapsto> the (m i)) ++ m |` set ids"
    unfolding list.map fold.simps comp_apply
    using Cons.prems by (subst Cons.IH) auto
  also have "\<dots> = m0 ++ m |` set (i # ids)"
    using Cons.prems by (fastforce simp: map_add_def restrict_map_def split: option.splits)
  finally show ?case .
qed simp

lemma read_payments_loop_objects:
  assumes "\<forall>i \<in> set ids. kv_read ops kv (p, s, PaymentId_encode_to_hex_str i)
      = Inr (encode (PaymentDetails_write (f i)))"
    and "\<forall>i \<in> set ids. decode (encode (PaymentDetails_write (f i))) = Some (PaymentDetails_write (f i))"
  shows "read_payments_loop decode now ops kv p s (map PaymentId_encode_to_hex_str ids) acc = Inr (acc @ map f ids)"
  using assms by (induction ids arbitrary: acc) (simp_all add: PaymentDetails_read_write)

lemma payment_store_restart:
  fixes encode :: "payment_tlv \<Rightarrow> bytes" and now :: u64 and ds :: "(payment_id, payment_details) data_store"
  defines "S \<equiv> payment_storable now encode"
  assumes codec: "\<forall>d \<in> ran (objects ds). decode (encode (PaymentDetails_write d)) = Some (PaymentDetails_write d)"
    and inv: "sqlite_fresh kv"
    and k: "keyed S ds" and s: "synced S ds (kv_table kv)"
    and ns: "primary_namespace ds = PAYMENT_INFO_PERSISTENCE_PRIMARY_NAMESPACE"
      "secondary_namespace ds = PAYMENT_INFO_PERSISTENCE_SECONDARY_NAMESPACE"
    and keys: "set keys = PaymentId_encode_to_hex_str ` dom (objects ds)"
    and reads: "\<forall>key \<in> set keys. \<not> isl (kv_read (sqlite_ops alphabet max_len db) kv
      (primary_namespace ds, secondary_namespace ds, key))"
  shows "\<exists>payments. read_payments_async decode now (sqlite_ops alphabet max_len db) kv (Inr keys) = Inr payments
    \<and> DataStore_new S payments PAYMENT_INFO_PERSISTENCE_PRIMARY_NAMESPACE
        PAYMENT_INFO_PERSISTENCE_SECONDARY_NAMESPACE = ds"
proof -
  let ?ops = "sqlite_ops alphabet max_len db" and ?hex = PaymentId_encode_to_hex_str
  have "\<forall>key \<in> set keys. \<exists>i. i \<in> dom (objects ds) \<and> key = ?hex i"
    using keys by auto
  then obtain f where f: "\<And>key. key \<in> set keys \<Longrightarrow> f key \<in> dom (objects ds) \<and> key = ?hex (f key)"
    by metis
  define ids where "ids = map f keys"
  have keys_ids: "keys = map ?hex ids"
    using f by (simp add: ids_def map_idI)
  have set_ids: "set ids = dom (objects ds)"
    using keys unfolding keys_ids by (auto dest: PaymentId_encode_inj)
  have read: "\<forall>i \<in> set ids. kv_read ?ops kv (PAYMENT_INFO_PERSISTENCE_PRIMARY_NAMESPACE,
      PAYMENT_INFO_PERSISTENCE_SECONDARY_NAMESPACE, ?hex i)
      = Inr (encode (PaymentDetails_write (the (objects ds i))))"
  proof
    fix i assume i: "i \<in> set ids"
    have "\<not> isl (kv_read ?ops kv (primary_namespace ds, secondary_namespace ds, ?hex i))"
      using reads i unfolding keys_ids by auto
    then obtain v where v: "kv_read ?ops kv (primary_namespace ds, secondary_namespace ds, ?hex i) = Inr v"
      by (metis sum.collapse(2))
    with sqlite.read_ok [OF inv v] s i set_ids show "kv_read ?ops kv (PAYMENT_INFO_PERSISTENCE_PRIMARY_NAMESPACE,
      PAYMENT_INFO_PERSISTENCE_SECONDARY_NAMESPACE, ?hex i)
      = Inr (encode (PaymentDetails_write (the (objects ds i))))"
      by (auto simp: synced_def store_target_def S_def payment_storable_def ns dest: spec [of _ i])
  qed
  have "DataStore_new S (map (\<lambda>i. the (objects ds i)) ids) PAYMENT_INFO_PERSISTENCE_PRIMARY_NAMESPACE
      PAYMENT_INFO_PERSISTENCE_SECONDARY_NAMESPACE = ds"
  proof -
    have "\<forall>i \<in> set ids. objects ds i \<noteq> None \<and> so_id S (the (objects ds i)) = i"
      using set_ids keyed_obj [OF k] by fastforce
    from fold_insert_objects [OF this, of Map.empty] set_ids ns show ?thesis
      by (cases ds) (simp add: DataStore_new_def restrict_map_def dom_def fun_eq_iff)
  qed
  moreover have "read_payments_async decode now ?ops kv (Inr keys) = Inr (map (\<lambda>i. the (objects ds i)) ids)"
    using read_payments_loop_objects [OF read, of decode now "[]"] codec set_ids keys_ids
    by (fastforce simp: read_payments_async_def ran_def)
  ultimately show ?thesis
    by blast
qed

section \<open>Properties\<close>

text \<open>
  C3: the staged in-place update of a payment is one simultaneous overwrite. The flag is raised
  exactly when some field changes, the timestamp moves exactly then, and neither the identifier
  nor the direction of an outbound payment ever changes.
\<close>

theorem payment_update_is_overwrite:
  "PaymentDetails_update now d up =
     (if details_overwrite up d = d then (False, d)
      else (True, (details_overwrite up d)\<lparr>pd_latest_update_timestamp := now\<rparr>))"
  by (rule PaymentDetails_update_overwrite)

lemma DataStore_persist_err: "DataStore_persist S ops ds kv obj = (Inl e, kv') \<Longrightarrow> e = PersistenceFailed"
  by (auto simp: DataStore_persist_def split: prod.splits sum.splits)

lemma insert_or_update_result:
  assumes "DataStore_insert_or_update (payment_storable now encode) ops ds kv d = (r, ds', kv')"
  shows "if isl r then r = Inl PersistenceFailed
    else DataStore_get ds' (pd_id d) = Some (payment_merge now (DataStore_get ds (pd_id d)) d)"
proof (cases "objects ds (pd_id d)")
  case None
  obtain q k where "DataStore_persist (payment_storable now encode) ops ds kv d = (q, k)"
    by fastforce
  with None assms show ?thesis
    by (cases q) (auto simp: DataStore_insert_or_update_def payment_storable_def DataStore_get_def
        payment_merge_def dest: DataStore_persist_err)
next
  case (Some e)
  obtain b e' where u: "PaymentDetails_update now e (PaymentDetailsUpdate_from d) = (b, e')"
    by fastforce
  obtain q k where p: "DataStore_persist (payment_storable now encode) ops ds kv e' = (q, k)"
    by fastforce
  have "\<not> b \<Longrightarrow> e' = e"
    using u by (auto simp: PaymentDetails_update_overwrite split: if_splits)
  with Some assms u p show ?thesis
    by (cases q; cases b) (auto simp: DataStore_insert_or_update_def payment_storable_def DataStore_get_def
        payment_merge_def dest: DataStore_persist_err)
qed

text \<open>
  C4: storing a payment keeps memory and disk equal, whether the store accepts the write or not.
  On success the record under the payment's identifier is the arriving one, or the stored one
  with the arriving fields merged in; on failure the error is reported and the map is untouched.
\<close>

theorem payment_insert_or_update_synced:
  assumes "sqlite_fresh kv" "keyed (payment_storable now encode) ds"
    and "synced (payment_storable now encode) ds (kv_table kv)"
    and "DataStore_insert_or_update (payment_storable now encode) (sqlite_ops alphabet max_len db) ds kv d
           = (r, ds', kv')"
  shows "sqlite_fresh kv' \<and> keyed (payment_storable now encode) ds'
    \<and> synced (payment_storable now encode) ds' (kv_table kv')
    \<and> (if isl r then r = Inl PersistenceFailed \<and> ds' = ds
       else DataStore_get ds' (pd_id d) = Some (payment_merge now (DataStore_get ds (pd_id d)) d))"
  using payments.insert_or_update_ok [OF assms] insert_or_update_result [OF assms(4)] by auto

text \<open>
  C5: \<open>DataStore::update\<close> changes the record in memory before it persists it. When the write
  fails, the disk keeps the old record, memory holds the new one, and repeating the same update
  reports \<open>Unchanged\<close> without writing anything: the update is never persisted.
\<close>

theorem payment_failed_update_never_persisted:
  assumes "sqlite_fresh kv" "keyed (payment_storable now encode) ds"
    and "synced (payment_storable now encode) ds (kv_table kv)" "objects ds (pu_id up) = Some d"
    and "DataStore_update (payment_storable now encode) (sqlite_ops alphabet max_len db) ds kv up
           = (Inl e, ds', kv')"
  shows "kv_table kv' = kv_table kv
    \<and> DataStore_get ds' (pu_id up) = Some (snd (PaymentDetails_update now d up))
    \<and> DataStore_update (payment_storable now encode) (sqlite_ops alphabet max_len db2) ds' kv2 up
        = (Inr Unchanged, ds', kv2)"
proof -
  have "up_id (payment_storable now encode) = pu_id"
    by (simp add: payment_storable_def)
  with payments.update_retry_unchanged [of kv now encode ds up d alphabet max_len db e ds' kv'] assms
  have "kv_table kv' = kv_table kv \<and> objects ds' (pu_id up) = Some (snd (PaymentDetails_update now d up))"
    by (simp add: payment_storable_def)
  moreover have "PaymentDetails_update now (snd (PaymentDetails_update now d up)) up
      = (False, snd (PaymentDetails_update now d up))"
    by (simp add: PaymentDetails_update_overwrite details_overwrite_twice)
  ultimately show ?thesis
    by (cases ds') (simp add: DataStore_get_def DataStore_update_def payment_storable_def map_upd_triv)
qed

text \<open>
  C6: after a restart the payments read back from the store make up exactly the map that was in
  memory, whatever the order in which the keys are listed and the reads complete. It is assumed
  that the codec reads back the records it wrote and that the reads themselves succeed.
\<close>

theorem payments_survive_restart:
  assumes "\<forall>d \<in> ran (objects ds). decode (encode (PaymentDetails_write d)) = Some (PaymentDetails_write d)"
    and "sqlite_fresh kv" "keyed (payment_storable now encode) ds"
    and "synced (payment_storable now encode) ds (kv_table kv)"
    and "primary_namespace ds = PAYMENT_INFO_PERSISTENCE_PRIMARY_NAMESPACE"
      "secondary_namespace ds = PAYMENT_INFO_PERSISTENCE_SECONDARY_NAMESPACE"
    and "set keys = PaymentId_encode_to_hex_str ` dom (objects ds)"
    and "\<forall>key \<in> set keys. \<not> isl (kv_read (sqlite_ops alphabet max_len db) kv
      (primary_namespace ds, secondary_namespace ds, key))"
  shows "\<exists>payments. read_payments_async decode now (sqlite_ops alphabet max_len db) kv (Inr keys) = Inr payments
    \<and> DataStore_new (payment_storable now encode) payments PAYMENT_INFO_PERSISTENCE_PRIMARY_NAMESPACE
        PAYMENT_INFO_PERSISTENCE_SECONDARY_NAMESPACE = ds"
  by (rule payment_store_restart [OF assms])

lemma PaymentDetails_read_Inr:
  "PaymentDetails_read now t = Inr d \<longleftrightarrow>
     (\<exists>p s. tlv_id t = Some (pd_id d) \<and> tlv_preimage t = Some p \<and> tlv_secret t = Some s
       \<and> tlv_amount_msat t = Some (pd_amount_msat d) \<and> tlv_fee_paid_msat t = pd_fee_paid_msat d
       \<and> tlv_direction t = Some (pd_direction d) \<and> tlv_status t = Some (pd_status d)
       \<and> pd_latest_update_timestamp d = (case tlv_latest_update_timestamp t of None \<Rightarrow> now | Some ts \<Rightarrow> ts)
       \<and> pd_kind d = (case tlv_kind t of
                        Some k \<Rightarrow> k | None \<Rightarrow> legacy_kind (pd_id d) p s (tlv_lsp_fee_limits t)))"
  by (cases d; cases "tlv_kind t") (auto simp: PaymentDetails_read_def Let_def)

text \<open>What a kind put together from the old fields says about them.\<close>

fun legacy_kind_ok ::
    "payment_id \<Rightarrow> payment_preimage option \<Rightarrow> payment_secret option \<Rightarrow> lsp_fee_limits option \<Rightarrow> payment_kind \<Rightarrow> bool" where
  "legacy_kind_ok i p s l (Bolt11 h p' s' d b) \<longleftrightarrow> h = hash_of_id i \<and> p' = p \<and> s' = s \<and> s \<noteq> None \<and> l = None"
| "legacy_kind_ok i p s l (Bolt11Jit h p' s' c l' d b) \<longleftrightarrow>
     h = hash_of_id i \<and> p' = p \<and> s' = s \<and> s \<noteq> None \<and> l = Some l' \<and> c = None"
| "legacy_kind_ok i p s l (Spontaneous h p') \<longleftrightarrow> h = hash_of_id i \<and> p' = p \<and> s = None"
| "legacy_kind_ok i p s l _ \<longleftrightarrow> False"

lemma legacy_kind_ok: "legacy_kind_ok i p s l (legacy_kind i p s l)"
  by (auto simp: legacy_kind_def Let_def split: option.splits)

lemma PaymentDetails_read_Inl:
  "isl (PaymentDetails_read now t) \<longleftrightarrow> tlv_id t = None \<or> tlv_preimage t = None \<or> tlv_secret t = None
     \<or> tlv_amount_msat t = None \<or> tlv_direction t = None \<or> tlv_status t = None"
  by (cases "tlv_id t"; cases "tlv_preimage t"; cases "tlv_secret t"; cases "tlv_amount_msat t";
      cases "tlv_direction t"; cases "tlv_status t") (simp_all add: PaymentDetails_read_def Let_def)



text \<open>A small store for the instances: one payment, inserted into an empty database.\<close>

definition example_alphabet :: string where
  "example_alphabet = ''abcdefghijklmnopqrstuvwxyz0123456789''"

definition example_payment :: payment_details where
  "example_payment = PaymentDetails_new 7 (PaymentId [1]) (Spontaneous (PaymentHash [1]) None) (Some 5) None
     Outbound Pending"

definition example_update :: payment_details_update where
  "example_update = (PaymentDetailsUpdate_new (PaymentId [1]))\<lparr>pu_status := Some Succeeded\<rparr>"

abbreviation example_storable :: "(payment_id, payment_details, payment_details_update) storable" where
  "example_storable \<equiv> payment_storable 7 (\<lambda>t. [3])"

abbreviation example_ops :: "(u64 \<Rightarrow> bool) \<Rightarrow> sqlite_store kv_ops" where
  "example_ops \<equiv> sqlite_ops example_alphabet 120"

definition empty_payments :: "(payment_id, payment_details) data_store" where
  "empty_payments = DataStore_new example_storable [] PAYMENT_INFO_PERSISTENCE_PRIMARY_NAMESPACE
     PAYMENT_INFO_PERSISTENCE_SECONDARY_NAMESPACE"

definition example_inserted :: "(bool, node_error) result \<times> (payment_id, payment_details) data_store \<times> sqlite_store" where
  "example_inserted = DataStore_insert_or_update example_storable (example_ops (\<lambda>_. True)) empty_payments
     (SqliteStore_new Map.empty) example_payment"

lemma empty_payments_ok:
  "sqlite_fresh (SqliteStore_new Map.empty) \<and> keyed example_storable empty_payments
     \<and> synced example_storable empty_payments (kv_table (SqliteStore_new Map.empty))"
  by (simp add: sqlite_fresh_def SqliteStore_new_def empty_payments_def keyed_def synced_def DataStore_new_def)

lemma example_inserted_ok:
  "sqlite_fresh (snd (snd example_inserted)) \<and> keyed example_storable (fst (snd example_inserted))
     \<and> synced example_storable (fst (snd example_inserted)) (kv_table (snd (snd example_inserted)))"
  using empty_payments_ok
    payments.insert_or_update_ok [of "SqliteStore_new Map.empty" 7 "\<lambda>_. [3]" empty_payments
      example_alphabet 120 "\<lambda>_. True" example_payment
      "fst example_inserted" "fst (snd example_inserted)" "snd (snd example_inserted)"]
  by (simp add: example_inserted_def)

lemma example_inserted_result: "fst example_inserted = Inr True"
  by code_simp

theorem payment_insert_or_update_synced_witness:
  "synced example_storable (fst (snd example_inserted)) (kv_table (snd (snd example_inserted)))
   \<and> DataStore_get (fst (snd example_inserted)) (PaymentId [1]) = Some example_payment"
proof -
  have "payment_merge 7 (DataStore_get empty_payments (pd_id example_payment)) example_payment = example_payment"
    "pd_id example_payment = PaymentId [1]"
    by code_simp+
  with payment_insert_or_update_synced [of "SqliteStore_new Map.empty" 7 "\<lambda>_. [3]" empty_payments
      example_alphabet 120 "\<lambda>_. True" example_payment
      "fst example_inserted" "fst (snd example_inserted)" "snd (snd example_inserted)"]
    empty_payments_ok example_inserted_result
  show ?thesis
    by (simp add: example_inserted_def)
qed

definition example_failed ::
    "(DataStoreUpdateResult, node_error) result \<times> (payment_id, payment_details) data_store \<times> sqlite_store" where
  "example_failed = DataStore_update example_storable (example_ops (\<lambda>_. False)) (fst (snd example_inserted))
     (snd (snd example_inserted)) example_update"

theorem payment_failed_update_never_persisted_witness:
  "fst example_failed = Inl PersistenceFailed
   \<and> map_option pd_status (DataStore_get (fst (snd example_failed)) (PaymentId [1])) = Some Succeeded
   \<and> kv_table (snd (snd example_failed)) = kv_table (snd (snd example_inserted))
   \<and> fst (DataStore_update example_storable (example_ops (\<lambda>_. True)) (fst (snd example_failed))
        (snd (snd example_failed)) example_update) = Inr Unchanged"
proof -
  have e: "fst example_failed = Inl PersistenceFailed" "pu_id example_update = PaymentId [1]"
      "objects (fst (snd example_inserted)) (PaymentId [1]) = Some example_payment"
      "pd_status (snd (PaymentDetails_update 7 example_payment example_update)) = Succeeded"
    by code_simp+
  then have "DataStore_update example_storable (example_ops (\<lambda>_. False)) (fst (snd example_inserted))
     (snd (snd example_inserted)) example_update = (Inl PersistenceFailed, snd example_failed)"
    by (simp add: example_failed_def prod_eq_iff)
  with payment_failed_update_never_persisted [of "snd (snd example_inserted)" 7 "\<lambda>_. [3]"
      "fst (snd example_inserted)" example_update example_payment example_alphabet 120 "\<lambda>_. False"
      PersistenceFailed "fst (snd example_failed)" "snd (snd example_failed)" "\<lambda>_. True" "snd (snd example_failed)"]
    example_inserted_ok e
  show ?thesis
    by simp
qed

theorem payments_survive_restart_witness:
  "\<exists>payments. read_payments_async (\<lambda>_. Some (PaymentDetails_write example_payment)) 7
       (example_ops (\<lambda>_. True)) (snd (snd example_inserted)) (Inr [''01'']) = Inr payments
     \<and> DataStore_new example_storable payments PAYMENT_INFO_PERSISTENCE_PRIMARY_NAMESPACE
         PAYMENT_INFO_PERSISTENCE_SECONDARY_NAMESPACE = fst (snd example_inserted)"
proof -
  have ns: "primary_namespace (fst (snd example_inserted)) = PAYMENT_INFO_PERSISTENCE_PRIMARY_NAMESPACE"
      "secondary_namespace (fst (snd example_inserted)) = PAYMENT_INFO_PERSISTENCE_SECONDARY_NAMESPACE"
    by code_simp+
  have obj: "objects (fst (snd example_inserted)) = [PaymentId [1] \<mapsto> example_payment]"
    using example_inserted_result
    by (auto simp: example_inserted_def DataStore_insert_or_update_def empty_payments_def DataStore_new_def
        payment_storable_def example_payment_def PaymentDetails_new_def split: prod.splits sum.splits)
  have rd: "\<not> isl (kv_read (example_ops (\<lambda>_. True)) (snd (snd example_inserted))
        (PAYMENT_INFO_PERSISTENCE_PRIMARY_NAMESPACE, PAYMENT_INFO_PERSISTENCE_SECONDARY_NAMESPACE, ''01''))"
    "PaymentId_encode_to_hex_str (PaymentId [1]) = ''01''"
    by code_simp+
  show ?thesis
    using example_inserted_ok ns rd obj
    by (intro payments_survive_restart) simp_all
qed

end
