(* ===== verification/Wire.thy ===== *)
theory Wire
  imports LDK_Prelude
begin

text \<open>
  The part of the \<open>Readable\<close> and \<open>Writeable\<close> serialization that the node's own
  implementations spell out: a big-endian \<open>u16\<close> count followed by that many items. Items
  with a codec of the \<open>lightning\<close> crate are written and read by two parameters; what is
  relied on is the contract \<open>codec\<close>: reading consumes exactly what was written.
\<close>

type_synonym 'a reader = "bytes \<Rightarrow> ('a \<times> bytes) option"

definition write_u16 :: "u16 \<Rightarrow> bytes" where
  "write_u16 n = [word_of_nat (unat n div 256), word_of_nat (unat n mod 256)]"

fun read_u16 :: "u16 reader" where
  "read_u16 (a # b # rest) = Some (word_of_nat (256 * unat a + unat b), rest)"
| "read_u16 _ = None"

fun read_items :: "'a reader \<Rightarrow> nat \<Rightarrow> 'a list reader" where
  "read_items dec 0 bs = Some ([], bs)"
| "read_items dec (Suc n) bs =
     (case dec bs of
        None \<Rightarrow> None
      | Some (x, bs') \<Rightarrow>
          (case read_items dec n bs' of None \<Rightarrow> None | Some (xs, bs'') \<Rightarrow> Some (x # xs, bs'')))"

definition write_counted :: "('a \<Rightarrow> bytes) \<Rightarrow> 'a list \<Rightarrow> bytes" where
  "write_counted enc xs = write_u16 (word_of_nat (length xs)) @ concat (map enc xs)"

definition read_counted :: "'a reader \<Rightarrow> 'a list reader" where
  "read_counted dec bs =
     (case read_u16 bs of None \<Rightarrow> None | Some (n, bs') \<Rightarrow> read_items dec (unat n) bs')"

definition write_pair :: "('a \<Rightarrow> bytes) \<Rightarrow> ('b \<Rightarrow> bytes) \<Rightarrow> 'a \<times> 'b \<Rightarrow> bytes" where
  "write_pair enca encb = (\<lambda>(a, b). enca a @ encb b)"

definition read_pair :: "'a reader \<Rightarrow> 'b reader \<Rightarrow> ('a \<times> 'b) reader" where
  "read_pair deca decb bs =
     (case deca bs of
        None \<Rightarrow> None
      | Some (a, bs') \<Rightarrow> (case decb bs' of None \<Rightarrow> None | Some (b, bs'') \<Rightarrow> Some ((a, b), bs'')))"

section \<open>The contract of a codec\<close>

locale codec =
  fixes enc :: "'a \<Rightarrow> bytes" and dec :: "'a reader"
  assumes dec_enc: "dec (enc x @ rest) = Some (x, rest)"
begin

lemma enc_inj: "enc x = enc y \<Longrightarrow> x = y"
  using dec_enc [of x "[]"] dec_enc [of y "[]"] by simp

lemma read_items_written:
  "n \<le> length xs \<Longrightarrow>
     read_items dec n (concat (map enc xs) @ rest) = Some (take n xs, concat (map enc (drop n xs)) @ rest)"
proof (induction n arbitrary: xs)
  case (Suc n)
  then obtain y ys where "xs = y # ys"
    by (cases xs) auto
  with Suc show ?case
    by (simp add: dec_enc)
qed simp

end

lemma codec_write_u16: "read_u16 (write_u16 n @ rest) = Some (n, rest)"
proof -
  have "unat n < 2 ^ LENGTH(16)"
    by (rule unsigned_less)
  then show ?thesis
    by (simp add: write_u16_def unsigned_of_nat take_bit_eq_mod)
qed

interpretation u16_codec: codec write_u16 read_u16
  by unfold_locales (rule codec_write_u16)

context codec
begin

lemma counted_written:
  "read_counted dec (write_counted enc xs @ rest)
     = Some (take (length xs mod 65536) xs, concat (map enc (drop (length xs mod 65536) xs)) @ rest)"
  using read_items_written [of "length xs mod 65536" xs rest]
  by (simp add: read_counted_def write_counted_def u16_codec.dec_enc unsigned_of_nat take_bit_eq_mod)

lemma counted_small:
  "length xs < 65536 \<Longrightarrow> read_counted dec (write_counted enc xs @ rest) = Some (xs, rest)"
  using counted_written by simp

end

lemma codec_pairI:
  "codec enca deca \<Longrightarrow> codec encb decb \<Longrightarrow> codec (write_pair enca encb) (read_pair deca decb)"
  by (auto simp: codec_def write_pair_def read_pair_def)

end
