(* ===== verification/Event_Queue.thy ===== *)
theory Event_Queue
  imports Wire KV_Store Node_Error
begin

text \<open>
  The persisted queue of user events, \<open>EventQueue\<close> of \<open>src/event.rs\<close>. The queue is changed
  and encoded under its lock; the encoded bytes are written after the lock is released, and a
  waiting consumer is woken after the write. The first group of definitions runs one call to its
  end; the step relation interleaves the pieces of concurrent calls. The event type and its codec
  are parameters.
\<close>

section \<open>Operations\<close>

record 'ev event_queue =
  queue :: "'ev list"
  waker :: bool

definition EVENT_QUEUE_PERSISTENCE_PRIMARY_NAMESPACE :: string where
  "EVENT_QUEUE_PERSISTENCE_PRIMARY_NAMESPACE = []"

definition EVENT_QUEUE_PERSISTENCE_SECONDARY_NAMESPACE :: string where
  "EVENT_QUEUE_PERSISTENCE_SECONDARY_NAMESPACE = []"

definition EVENT_QUEUE_PERSISTENCE_KEY :: string where
  "EVENT_QUEUE_PERSISTENCE_KEY = ''events''"

abbreviation event_queue_target :: kv_target where
  "event_queue_target \<equiv> (EVENT_QUEUE_PERSISTENCE_PRIMARY_NAMESPACE,
     EVENT_QUEUE_PERSISTENCE_SECONDARY_NAMESPACE, EVENT_QUEUE_PERSISTENCE_KEY)"

definition EventQueue_new :: "'ev event_queue" where
  "EventQueue_new = \<lparr>queue = [], waker = False\<rparr>"

definition EventQueueSerWrapper_write :: "('ev \<Rightarrow> bytes) \<Rightarrow> 'ev list \<Rightarrow> bytes" where
  "EventQueueSerWrapper_write enc q = write_counted enc q"

definition EventQueueDeserWrapper_read :: "'ev reader \<Rightarrow> 'ev list reader" where
  "EventQueueDeserWrapper_read dec bs = read_counted dec bs"

definition EventQueue_read :: "'ev reader \<Rightarrow> bytes \<Rightarrow> 'ev event_queue option" where
  "EventQueue_read dec bs =
     (case EventQueueDeserWrapper_read dec bs of
        None \<Rightarrow> None
      | Some (q, rest) \<Rightarrow> Some \<lparr>queue = q, waker = False\<rparr>)"

definition persist_queue :: "'kv kv_ops \<Rightarrow> 'kv \<Rightarrow> bytes \<Rightarrow> (unit, node_error) result \<times> 'kv" where
  "persist_queue ops kv encoded_queue =
     (case kv_write ops kv event_queue_target encoded_queue of
        (Inl e, kv') \<Rightarrow> (Inl PersistenceFailed, kv')
      | (Inr _, kv') \<Rightarrow> (Inr (), kv'))"

text \<open>The part of a call that runs under the lock of the queue: the new queue and the bytes to write.\<close>

definition push_and_encode :: "('ev \<Rightarrow> bytes) \<Rightarrow> 'ev event_queue \<Rightarrow> 'ev \<Rightarrow> 'ev event_queue \<times> bytes" where
  "push_and_encode enc eq event =
     (let q = queue eq @ [event] in (eq\<lparr>queue := q\<rparr>, EventQueueSerWrapper_write enc q))"

definition pop_and_encode :: "('ev \<Rightarrow> bytes) \<Rightarrow> 'ev event_queue \<Rightarrow> 'ev event_queue \<times> bytes" where
  "pop_and_encode enc eq = (let q = tl (queue eq) in (eq\<lparr>queue := q\<rparr>, EventQueueSerWrapper_write enc q))"

text \<open>The part after the lock is released; a registered waker is taken and woken on success only.\<close>

definition persist_and_wake ::
    "'kv kv_ops \<Rightarrow> 'ev event_queue \<Rightarrow> 'kv \<Rightarrow> bytes \<Rightarrow> (unit, node_error) result \<times> 'ev event_queue \<times> 'kv" where
  "persist_and_wake ops eq kv data =
     (case persist_queue ops kv data of
        (Inl e, kv') \<Rightarrow> (Inl e, eq, kv')
      | (Inr _, kv') \<Rightarrow> (Inr (), eq\<lparr>waker := False\<rparr>, kv'))"

definition EventQueue_add_event ::
    "('ev \<Rightarrow> bytes) \<Rightarrow> 'kv kv_ops \<Rightarrow> 'ev event_queue \<Rightarrow> 'kv \<Rightarrow> 'ev
       \<Rightarrow> (unit, node_error) result \<times> 'ev event_queue \<times> 'kv" where
  "EventQueue_add_event enc ops eq kv event =
     (let (eq', data) = push_and_encode enc eq event in persist_and_wake ops eq' kv data)"

definition EventQueue_next_event :: "'ev event_queue \<Rightarrow> 'ev option" where
  "EventQueue_next_event eq = (case queue eq of [] \<Rightarrow> None | event # _ \<Rightarrow> Some event)"

definition EventQueue_event_handled ::
    "('ev \<Rightarrow> bytes) \<Rightarrow> 'kv kv_ops \<Rightarrow> 'ev event_queue \<Rightarrow> 'kv
       \<Rightarrow> (unit, node_error) result \<times> 'ev event_queue \<times> 'kv" where
  "EventQueue_event_handled enc ops eq kv =
     (let (eq', data) = pop_and_encode enc eq in persist_and_wake ops eq' kv data)"

text \<open>\<open>Some\<close> is \<open>Poll::Ready\<close>. The queue stays locked until the waker is registered.\<close>

definition EventFuture_poll :: "'ev event_queue \<Rightarrow> 'ev option \<times> 'ev event_queue" where
  "EventFuture_poll eq =
     (case queue eq of event # _ \<Rightarrow> (Some event, eq) | [] \<Rightarrow> (None, eq\<lparr>waker := True\<rparr>))"

section \<open>Calls one after the other\<close>

datatype 'ev eq_call = AddEvent 'ev | EventHandled

fun eq_exec ::
    "('ev \<Rightarrow> bytes) \<Rightarrow> 'kv kv_ops \<Rightarrow> 'ev event_queue \<Rightarrow> 'kv \<Rightarrow> 'ev eq_call
       \<Rightarrow> (unit, node_error) result \<times> 'ev event_queue \<times> 'kv" where
  "eq_exec enc ops eq kv (AddEvent e) = EventQueue_add_event enc ops eq kv e"
| "eq_exec enc ops eq kv EventHandled = EventQueue_event_handled enc ops eq kv"

text \<open>A run also returns the queue as it was at the latest call that reported success.\<close>

fun eq_run ::
    "('ev \<Rightarrow> bytes) \<Rightarrow> 'kv kv_ops \<Rightarrow> 'ev event_queue \<Rightarrow> 'kv \<Rightarrow> 'ev list \<Rightarrow> 'ev eq_call list
       \<Rightarrow> 'ev list \<times> 'ev event_queue \<times> 'kv" where
  "eq_run enc ops eq kv acked [] = (acked, eq, kv)"
| "eq_run enc ops eq kv acked (c # cs) =
     (case eq_exec enc ops eq kv c of
        (r, eq', kv') \<Rightarrow> eq_run enc ops eq' kv' (if isl r then acked else queue eq') cs)"

fun eq_spec :: "'ev list \<Rightarrow> 'ev eq_call \<Rightarrow> 'ev list" where
  "eq_spec q (AddEvent e) = q @ [e]"
| "eq_spec q EventHandled = tl q"

section \<open>Interleaved calls\<close>

text \<open>
  A state is the shared queue, the calls that have left the lock but not yet finished their
  write (each with the bytes it will write), whether some write failed, and the disk.
\<close>

record 'ev eq_state =
  shared :: "'ev event_queue"
  writing :: "bytes list"
  failed :: bool
  disk :: sqlite_store

inductive eq_step :: "('ev \<Rightarrow> bytes) \<Rightarrow> sqlite_store kv_ops \<Rightarrow> 'ev eq_state \<Rightarrow> 'ev eq_state \<Rightarrow> bool"
  for enc ops where
  push: "push_and_encode enc (shared s) e = (eq', data) \<Longrightarrow>
    eq_step enc ops s (s\<lparr>shared := eq', writing := writing s @ [data]\<rparr>)"
| pop: "pop_and_encode enc (shared s) = (eq', data) \<Longrightarrow>
    eq_step enc ops s (s\<lparr>shared := eq', writing := writing s @ [data]\<rparr>)"
| finish: "data \<in> set (writing s) \<Longrightarrow> persist_and_wake ops (shared s) (disk s) data = (r, eq', kv') \<Longrightarrow>
    eq_step enc ops s (s\<lparr>shared := eq', writing := remove1 data (writing s),
      failed := (failed s \<or> isl r), disk := kv'\<rparr>)"
| poll: "EventFuture_poll (shared s) = (r, eq') \<Longrightarrow> eq_step enc ops s (s\<lparr>shared := eq'\<rparr>)"

definition eq_init :: "sqlite_store \<Rightarrow> 'ev eq_state" where
  "eq_init kv = \<lparr>shared = EventQueue_new, writing = [], failed = False, disk = kv\<rparr>"

abbreviation eq_steps where
  "eq_steps enc ops \<equiv> (eq_step enc ops)\<^sup>*\<^sup>*"

section \<open>Lemmas\<close>

lemma persist_and_wake_queue:
  "persist_and_wake ops eq kv data = (r, eq', kv') \<Longrightarrow>
     queue eq' = queue eq \<and> waker eq' = (isl r \<and> waker eq)"
  by (auto simp: persist_and_wake_def split: prod.splits sum.splits)

lemma eq_exec_queue: "eq_exec enc ops eq kv c = (r, eq', kv') \<Longrightarrow> queue eq' = eq_spec (queue eq) c"
  by (cases c) (auto simp: EventQueue_add_event_def EventQueue_event_handled_def push_and_encode_def
      pop_and_encode_def Let_def dest: persist_and_wake_queue)

context kv_store
begin

lemma persist_and_wake_contents:
  assumes "invar kv" "persist_and_wake ops eq kv data = (r, eq', kv')"
  shows "invar kv' \<and> contents kv' = (if isl r then contents kv else (contents kv)(event_queue_target \<mapsto> data))"
proof -
  obtain q k where p: "kv_write ops kv event_queue_target data = (q, k)"
    by fastforce
  with assms(2) show ?thesis
    using contents_write [OF assms(1) p] invar_write [OF assms(1) p]
    by (cases q) (auto simp: persist_and_wake_def persist_queue_def)
qed

lemma eq_exec_contents:
  assumes "invar kv" "eq_exec enc ops eq kv c = (r, eq', kv')"
  shows "invar kv' \<and> contents kv' = (if isl r then contents kv
     else (contents kv)(event_queue_target \<mapsto> EventQueueSerWrapper_write enc (queue eq')))"
proof -
  have "\<exists>eq1. persist_and_wake ops eq1 kv (EventQueueSerWrapper_write enc (queue eq')) = (r, eq', kv')"
    using assms(2) persist_and_wake_queue
    by (cases c) (fastforce simp: EventQueue_add_event_def EventQueue_event_handled_def push_and_encode_def
      pop_and_encode_def Let_def)+
  then show ?thesis
    using persist_and_wake_contents [OF assms(1)] by blast
qed

lemma eq_run_ok:
  assumes "eq_run enc ops eq kv acked cs = (acked', eq', kv')"
    and "invar kv" "contents kv event_queue_target = Some (EventQueueSerWrapper_write enc acked)"
  shows "invar kv' \<and> queue eq' = fold (\<lambda>c q. eq_spec q c) cs (queue eq)
    \<and> contents kv' event_queue_target = Some (EventQueueSerWrapper_write enc acked')"
  using assms
proof (induction cs arbitrary: eq kv acked)
  case (Cons c cs)
  obtain r eq1 kv1 where e: "eq_exec enc ops eq kv c = (r, eq1, kv1)"
    by (metis prod_cases3)
  have "invar kv1 \<and> contents kv1 event_queue_target
      = Some (EventQueueSerWrapper_write enc (if isl r then acked else queue eq1))"
    using eq_exec_contents [OF Cons.prems(2) e] Cons.prems(3) by simp
  with Cons.IH [of eq1 kv1 "if isl r then acked else queue eq1"] Cons.prems(1) e eq_exec_queue [OF e]
  show ?case
    by simp
qed auto

end

lemma eq_step_wakeup:
  assumes "eq_step enc ops s s'"
    and "waker (shared s) \<and> queue (shared s) \<noteq> [] \<longrightarrow> writing s \<noteq> [] \<or> failed s"
  shows "waker (shared s') \<and> queue (shared s') \<noteq> [] \<longrightarrow> writing s' \<noteq> [] \<or> failed s'"
  using assms
proof cases
  case (finish data r eq' kv')
  then show ?thesis
    using persist_and_wake_queue [OF finish(3)] by auto
next
  case (poll r eq')
  with assms(2) show ?thesis
    by (auto simp: EventFuture_poll_def split: list.splits)
qed auto

section \<open>Properties\<close>

text \<open>
  C8: any sequence of \<open>add_event\<close> and \<open>event_handled\<close> calls, with any of their writes failing,
  treats the queue in memory first-in first-out, and a restart reads back exactly the queue as it
  was at the latest call that reported success. An event therefore stays deliverable after a
  crash until an \<open>event_handled\<close> for it has been acknowledged. The codec of events is assumed to
  read back what it wrote, and the queue to be shorter than \<open>2^16\<close>.
\<close>

theorem event_queue_crash_consistent:
  assumes "\<And>e rest. dec (enc e @ rest) = Some (e, rest)" "sqlite_fresh kv"
    and "kv_table kv event_queue_target = Some (EventQueueSerWrapper_write enc acked)"
    and "eq_run enc (sqlite_ops alphabet max_len db) eq kv acked cs = (acked', eq', kv')"
    and "length acked' < 65536"
  shows "queue eq' = fold (\<lambda>c q. eq_spec q c) cs (queue eq)
    \<and> map_option (EventQueue_read dec) (kv_table kv' event_queue_target)
        = Some (Some \<lparr>queue = acked', waker = False\<rparr>)"
proof -
  have "codec enc dec"
    using assms(1) by unfold_locales
  from codec.counted_small [OF this assms(5), of "[]"]
    sqlite.eq_run_ok [OF assms(4,2,3)]
  show ?thesis
    by (simp add: EventQueue_read_def EventQueueDeserWrapper_read_def EventQueueSerWrapper_write_def)
qed

definition example_queue_run :: "u16 list \<times> u16 event_queue \<times> sqlite_store" where
  "example_queue_run = eq_run write_u16 (sqlite_ops ''events'' 120 (\<lambda>v. v \<noteq> 2)) EventQueue_new
     (SqliteStore_new [event_queue_target \<mapsto> EventQueueSerWrapper_write write_u16 []]) []
     [AddEvent 7, AddEvent 8, AddEvent 9, EventHandled]"

theorem event_queue_crash_consistent_witness:
  "queue (fst (snd example_queue_run)) = [8, 9] \<and> fst example_queue_run = [8, 9]
   \<and> map_option (EventQueue_read read_u16) (kv_table (snd (snd example_queue_run)) event_queue_target)
       = Some (Some \<lparr>queue = [8, 9], waker = False\<rparr>)"
proof -
  have acked: "fst example_queue_run = [8, 9]"
    by code_simp
  have run: "eq_run write_u16 (sqlite_ops ''events'' 120 (\<lambda>v. v \<noteq> 2)) EventQueue_new
     (SqliteStore_new [event_queue_target \<mapsto> EventQueueSerWrapper_write write_u16 []]) []
     [AddEvent 7, AddEvent 8, AddEvent 9, EventHandled]
     = (fst example_queue_run, fst (snd example_queue_run), snd (snd example_queue_run))"
    by (simp add: example_queue_run_def)
  show ?thesis
    using event_queue_crash_consistent [OF codec_write_u16 _ _ run] acked
    by (simp add: sqlite_fresh_def SqliteStore_new_def EventQueue_new_def)
qed

text \<open>
  C9: the count in front of the persisted events has 16 bits. A queue of \<open>n\<close> events is read back
  as its first \<open>n mod 2^16\<close> events; the others are dropped without an error.
\<close>

theorem event_queue_length_truncated:
  assumes "\<And>e rest. dec (enc e @ rest) = Some (e, rest)"
  shows "EventQueue_read dec (EventQueueSerWrapper_write enc q)
    = Some \<lparr>queue = take (length q mod 65536) q, waker = False\<rparr>"
proof -
  have "codec enc dec"
    using assms by unfold_locales
  from codec.counted_written [OF this, of q "[]"] show ?thesis
    by (simp add: EventQueue_read_def EventQueueDeserWrapper_read_def EventQueueSerWrapper_write_def)
qed

theorem event_queue_length_truncated_witness:
  "\<exists>q. length q = 65538 \<and> EventQueue_read read_u16 (EventQueueSerWrapper_write write_u16 q)
     = Some \<lparr>queue = take 2 q, waker = False\<rparr>"
proof (intro exI conjI)
  show len: "length (replicate 65538 (3 :: u16)) = 65538"
    by (rule length_replicate)
  show "EventQueue_read read_u16 (EventQueueSerWrapper_write write_u16 (replicate 65538 3))
     = Some \<lparr>queue = take 2 (replicate 65538 3), waker = False\<rparr>"
    by (simp only: event_queue_length_truncated [OF codec_write_u16] len) simp
qed


definition example_kv :: sqlite_store where
  "example_kv = SqliteStore_new Map.empty"

abbreviation example_queue_ops :: "sqlite_store kv_ops" where
  "example_queue_ops \<equiv> sqlite_ops ''events'' 120 (\<lambda>_. True)"


text \<open>
  C11: the bytes are written after the lock is released, so two concurrent \<open>add_event\<close> calls may
  write in the opposite order. There is a run in which both succeed and no call is left, the queue
  holds two events and the disk only the first: the second is lost in a restart although its
  \<open>add_event\<close> was acknowledged.
\<close>

theorem event_queue_stale_write:
  "\<exists>s :: u16 eq_state. eq_steps write_u16 example_queue_ops (eq_init example_kv) s
     \<and> writing s = [] \<and> \<not> failed s \<and> queue (shared s) = [7, 8]
     \<and> map_option (EventQueue_read read_u16) (kv_table (disk s) event_queue_target)
         = Some (Some \<lparr>queue = [7], waker = False\<rparr>)"
proof -
  let ?w = "EventQueueSerWrapper_write write_u16"
  let ?s1 = "\<lparr>shared = \<lparr>queue = [7], waker = False\<rparr>, writing = [?w [7]], failed = False, disk = example_kv\<rparr> :: u16 eq_state"
  let ?s2 = "\<lparr>shared = \<lparr>queue = [7, 8], waker = False\<rparr>, writing = [?w [7], ?w [7, 8]], failed = False, disk = example_kv\<rparr> :: u16 eq_state"
  let ?p3 = "persist_and_wake example_queue_ops (shared ?s2) example_kv (?w [7, 8])"
  let ?s3 = "?s2\<lparr>writing := [?w [7]], disk := snd (snd ?p3)\<rparr>"
  let ?p4 = "persist_and_wake example_queue_ops (shared ?s2) (disk ?s3) (?w [7])"
  let ?s4 = "?s2\<lparr>writing := [], disk := snd (snd ?p4)\<rparr>"
  have r: "\<not> isl (fst ?p3)" "\<not> isl (fst ?p4)" "fst (snd ?p3) = shared ?s2" "fst (snd ?p4) = shared ?s2"
    "?w [7] \<noteq> ?w [7, 8]"
    "map_option (EventQueue_read read_u16) (kv_table (disk ?s4) event_queue_target)
       = Some (Some \<lparr>queue = [7], waker = False\<rparr>)"
    by code_simp+
  have "eq_step write_u16 example_queue_ops (eq_init example_kv) ?s1"
    using eq_step.push [of write_u16 "eq_init example_kv" 7 "\<lparr>queue = [7], waker = False\<rparr>" "?w [7]"]
    by (simp add: push_and_encode_def Let_def eq_init_def EventQueue_new_def)
  moreover have "eq_step write_u16 example_queue_ops ?s1 ?s2"
    using eq_step.push [of write_u16 ?s1 8 "\<lparr>queue = [7, 8], waker = False\<rparr>" "?w [7, 8]"]
    by (simp add: push_and_encode_def Let_def)
  moreover have "eq_step write_u16 example_queue_ops ?s2 ?s3"
    using eq_step.finish [of "?w [7, 8]" ?s2 example_queue_ops "fst ?p3" "fst (snd ?p3)" "snd (snd ?p3)"] r
    by simp
  moreover have "eq_step write_u16 example_queue_ops ?s3 ?s4"
    using eq_step.finish [of "?w [7]" ?s3 example_queue_ops "fst ?p4" "fst (snd ?p4)" "snd (snd ?p4)"] r
    by simp
  ultimately have "eq_steps write_u16 example_queue_ops (eq_init example_kv) ?s4"
    by (meson rtranclp.rtrancl_into_rtrancl rtranclp.rtrancl_refl)
  with r show ?thesis
    by (intro exI [of _ ?s4]) simp
qed

end
