(* ===== verification/Peer_Store.thy ===== *)
theory Peer_Store
  imports Wire KV_Store Node_Error LN_Types "HOL-Library.AList"
begin

text \<open>
  The persisted peer addresses of \<open>src/peer_store.rs\<close>. The hash map is iterated over when it
  is encoded, so it is an association list; its order stands for the unspecified iteration
  order, and the theorems only speak about the map it denotes. \<open>add_peer\<close> and \<open>remove_peer\<close>
  hold \<open>mutation_lock\<close> from start to end and are atomic towards each other. Socket addresses
  are a type of the \<open>lightning\<close> crate and a type parameter here.
\<close>

section \<open>Operations\<close>

record 'addr peer_info =
  node_id :: public_key
  address :: 'addr

record 'addr peer_store =
  peers :: "(public_key \<times> 'addr peer_info) list"

definition PEER_INFO_PERSISTENCE_PRIMARY_NAMESPACE :: string where
  "PEER_INFO_PERSISTENCE_PRIMARY_NAMESPACE = []"

definition PEER_INFO_PERSISTENCE_SECONDARY_NAMESPACE :: string where
  "PEER_INFO_PERSISTENCE_SECONDARY_NAMESPACE = []"

definition PEER_INFO_PERSISTENCE_KEY :: string where
  "PEER_INFO_PERSISTENCE_KEY = ''peers''"

abbreviation peer_store_target :: kv_target where
  "peer_store_target \<equiv> (PEER_INFO_PERSISTENCE_PRIMARY_NAMESPACE,
     PEER_INFO_PERSISTENCE_SECONDARY_NAMESPACE, PEER_INFO_PERSISTENCE_KEY)"

definition PeerStore_new :: "'addr peer_store" where
  "PeerStore_new = \<lparr>peers = []\<rparr>"

text \<open>\<open>enck\<close>, \<open>encv\<close> write a key and an entry, \<open>deck\<close>, \<open>decv\<close> read them.\<close>

definition PeerStoreSerWrapper_write ::
    "(public_key \<Rightarrow> bytes) \<Rightarrow> ('addr peer_info \<Rightarrow> bytes) \<Rightarrow> (public_key \<times> 'addr peer_info) list \<Rightarrow> bytes" where
  "PeerStoreSerWrapper_write enck encv ps = write_counted (write_pair enck encv) ps"

definition PeerStoreDeserWrapper_read ::
    "public_key reader \<Rightarrow> 'addr peer_info reader \<Rightarrow> (public_key \<times> 'addr peer_info) list reader" where
  "PeerStoreDeserWrapper_read deck decv bs =
     (case read_counted (read_pair deck decv) bs of
        None \<Rightarrow> None
      | Some (kvs, rest) \<Rightarrow> Some (fold (\<lambda>(k, v) ps. AList.update k v ps) kvs [], rest))"

definition PeerStore_read :: "public_key reader \<Rightarrow> 'addr peer_info reader \<Rightarrow> bytes \<Rightarrow> 'addr peer_store option" where
  "PeerStore_read deck decv bs =
     (case PeerStoreDeserWrapper_read deck decv bs of None \<Rightarrow> None | Some (ps, rest) \<Rightarrow> Some \<lparr>peers = ps\<rparr>)"

definition persist_peers :: "'kv kv_ops \<Rightarrow> 'kv \<Rightarrow> bytes \<Rightarrow> (unit, node_error) result \<times> 'kv" where
  "persist_peers ops kv data =
     (case kv_write ops kv peer_store_target data of
        (Inl e, kv') \<Rightarrow> (Inl PersistenceFailed, kv')
      | (Inr _, kv') \<Rightarrow> (Inr (), kv'))"

definition PeerStore_get_peer :: "'addr peer_store \<Rightarrow> public_key \<Rightarrow> 'addr peer_info option" where
  "PeerStore_get_peer ps k = map_of (peers ps) k"

definition PeerStore_list_peers :: "'addr peer_store \<Rightarrow> 'addr peer_info list" where
  "PeerStore_list_peers ps = map snd (peers ps)"

definition PeerStore_add_peer ::
    "('addr peer_store \<Rightarrow> bytes) \<Rightarrow> 'kv kv_ops \<Rightarrow> 'addr peer_store \<Rightarrow> 'kv \<Rightarrow> 'addr peer_info
       \<Rightarrow> (unit, node_error) result \<times> 'addr peer_store \<times> 'kv" where
  "PeerStore_add_peer enc ops ps kv info =
     (let k = node_id info;
          previous_peer = map_of (peers ps) k in
      if (case previous_peer of Some existing \<Rightarrow> address existing = address info | None \<Rightarrow> False)
      then (Inr (), ps, kv)
      else
        (let ps1 = ps\<lparr>peers := AList.update k info (peers ps)\<rparr> in
         case persist_peers ops kv (enc ps1) of
           (Inl e, kv') \<Rightarrow>
             (case previous_peer of
                Some previous \<Rightarrow> (Inl e, ps1\<lparr>peers := AList.update k previous (peers ps1)\<rparr>, kv')
              | None \<Rightarrow> (Inl e, ps1\<lparr>peers := AList.delete k (peers ps1)\<rparr>, kv'))
         | (Inr _, kv') \<Rightarrow> (Inr (), ps1, kv')))"

definition PeerStore_remove_peer ::
    "('addr peer_store \<Rightarrow> bytes) \<Rightarrow> 'kv kv_ops \<Rightarrow> 'addr peer_store \<Rightarrow> 'kv \<Rightarrow> public_key
       \<Rightarrow> (unit, node_error) result \<times> 'addr peer_store \<times> 'kv" where
  "PeerStore_remove_peer enc ops ps kv k =
     (let removed_peer = map_of (peers ps) k;
          ps1 = ps\<lparr>peers := AList.delete k (peers ps)\<rparr> in
      case persist_peers ops kv (enc ps1) of
        (Inl e, kv') \<Rightarrow>
          (case removed_peer of
             Some info \<Rightarrow> (Inl e, ps1\<lparr>peers := AList.update k info (peers ps1)\<rparr>, kv')
           | None \<Rightarrow> (Inl e, ps1, kv'))
      | (Inr _, kv') \<Rightarrow> (Inr (), ps1, kv'))"

text \<open>
  \<open>first_address\<close> is the first announced address of a node in the network graph. The set of
  identifiers seen so far is threaded through the filter.
\<close>

fun missing_channel_peers ::
    "(public_key \<Rightarrow> 'addr option) \<Rightarrow> 'addr peer_store \<Rightarrow> public_key set \<Rightarrow> public_key set \<Rightarrow> public_key list
       \<Rightarrow> 'addr peer_info list" where
  "missing_channel_peers first_address ps excluded seen [] = []"
| "missing_channel_peers first_address ps excluded seen (k # ks) =
     (if k \<in> seen \<or> k \<in> excluded \<or> PeerStore_get_peer ps k \<noteq> None
      then missing_channel_peers first_address ps excluded (insert k seen) ks
      else
        (case first_address k of
           Some addr \<Rightarrow>
             \<lparr>node_id = k, address = addr\<rparr> # missing_channel_peers first_address ps excluded (insert k seen) ks
         | None \<Rightarrow> missing_channel_peers first_address ps excluded (insert k seen) ks))"

fun add_missing_peers ::
    "('addr peer_store \<Rightarrow> bytes) \<Rightarrow> 'kv kv_ops \<Rightarrow> 'addr peer_store \<Rightarrow> 'kv \<Rightarrow> 'addr peer_info list
       \<Rightarrow> 'addr peer_store \<times> 'kv" where
  "add_missing_peers enc ops ps kv [] = (ps, kv)"
| "add_missing_peers enc ops ps kv (info # infos) =
     (if PeerStore_get_peer ps (node_id info) \<noteq> None then add_missing_peers enc ops ps kv infos
      else
        (case PeerStore_add_peer enc ops ps kv info of
           (r, ps', kv') \<Rightarrow> add_missing_peers enc ops ps' kv' infos))"

definition persist_missing_channel_peers_excluding ::
    "('addr peer_store \<Rightarrow> bytes) \<Rightarrow> 'kv kv_ops \<Rightarrow> (public_key \<Rightarrow> 'addr option) \<Rightarrow> 'addr peer_store \<Rightarrow> 'kv
       \<Rightarrow> public_key set \<Rightarrow> public_key list \<Rightarrow> 'addr peer_store \<times> 'kv" where
  "persist_missing_channel_peers_excluding enc ops first_address ps kv excluded ks =
     add_missing_peers enc ops ps kv (missing_channel_peers first_address ps excluded {} ks)"

definition persist_missing_channel_peers ::
    "('addr peer_store \<Rightarrow> bytes) \<Rightarrow> 'kv kv_ops \<Rightarrow> (public_key \<Rightarrow> 'addr option) \<Rightarrow> 'addr peer_store \<Rightarrow> 'kv
       \<Rightarrow> public_key list \<Rightarrow> 'addr peer_store \<times> 'kv" where
  "persist_missing_channel_peers enc ops first_address ps kv ks =
     persist_missing_channel_peers_excluding enc ops first_address ps kv {} ks"

text \<open>Calls one after the other, with the effect each has on the map when it reports success.\<close>

datatype 'addr peer_call = AddPeer "'addr peer_info" | RemovePeer public_key

fun peer_exec ::
    "('addr peer_store \<Rightarrow> bytes) \<Rightarrow> 'kv kv_ops \<Rightarrow> 'addr peer_store \<Rightarrow> 'kv \<Rightarrow> 'addr peer_call
       \<Rightarrow> (unit, node_error) result \<times> 'addr peer_store \<times> 'kv" where
  "peer_exec enc ops ps kv (AddPeer info) = PeerStore_add_peer enc ops ps kv info"
| "peer_exec enc ops ps kv (RemovePeer k) = PeerStore_remove_peer enc ops ps kv k"

fun peer_spec :: "'addr peer_call \<Rightarrow> (public_key \<rightharpoonup> 'addr peer_info) \<Rightarrow> (public_key \<rightharpoonup> 'addr peer_info)" where
  "peer_spec (AddPeer info) m = m(node_id info \<mapsto> info)"
| "peer_spec (RemovePeer k) m = m(k := None)"

fun peer_run ::
    "('addr peer_store \<Rightarrow> bytes) \<Rightarrow> 'kv kv_ops \<Rightarrow> 'addr peer_store \<Rightarrow> 'kv \<Rightarrow> 'addr peer_call list
       \<Rightarrow> (unit, node_error) result list \<times> 'addr peer_store \<times> 'kv" where
  "peer_run enc ops ps kv [] = ([], ps, kv)"
| "peer_run enc ops ps kv (c # cs) =
     (case peer_exec enc ops ps kv c of
        (r, ps', kv') \<Rightarrow> (case peer_run enc ops ps' kv' cs of (rs, ps'', kv'') \<Rightarrow> (r # rs, ps'', kv'')))"

section \<open>The store as a map\<close>

text \<open>
  Every entry is stored under its own identifier, and the disk holds an encoding of the same map,
  possibly in another order of iteration, or nothing as long as there are no peers.
\<close>

definition peers_wf :: "'addr peer_store \<Rightarrow> bool" where
  "peers_wf ps \<longleftrightarrow> distinct (map fst (peers ps)) \<and> (\<forall>k info. map_of (peers ps) k = Some info \<longrightarrow> node_id info = k)"

definition peers_on_disk ::
    "('addr peer_store \<Rightarrow> bytes) \<Rightarrow> 'addr peer_store \<Rightarrow> (kv_target \<rightharpoonup> bytes) \<Rightarrow> bool" where
  "peers_on_disk enc ps m \<longleftrightarrow>
     (case m peer_store_target of
        None \<Rightarrow> map_of (peers ps) = Map.empty
      | Some data \<Rightarrow> (\<exists>ps0. peers_wf ps0 \<and> map_of (peers ps0) = map_of (peers ps) \<and> data = enc ps0))"

lemma peers_wf_node_id: "peers_wf ps \<Longrightarrow> map_of (peers ps) k = Some info \<Longrightarrow> node_id info = k"
  by (simp add: peers_wf_def)

lemma peers_wf_update:
  "peers_wf ps \<Longrightarrow> node_id info = k \<Longrightarrow> peers_wf (ps\<lparr>peers := AList.update k info (peers ps)\<rparr>)"
  unfolding peers_wf_def by (auto simp: distinct_update update_conv')

lemma peers_wf_delete: "peers_wf ps \<Longrightarrow> peers_wf (ps\<lparr>peers := AList.delete k (peers ps)\<rparr>)"
  unfolding peers_wf_def by (auto simp: distinct_delete delete_conv')

lemma peers_on_disk_cong: "map_of (peers ps') = map_of (peers ps) \<Longrightarrow> peers_on_disk enc ps' m = peers_on_disk enc ps m"
  unfolding peers_on_disk_def by presburger

lemma peers_on_disk_written: "peers_wf ps \<Longrightarrow> peers_on_disk enc ps (m(peer_store_target \<mapsto> enc ps))"
  by (auto simp: peers_on_disk_def)

lemma map_of_same_address:
  "peers_wf ps \<Longrightarrow> map_of (peers ps) (node_id info) = Some existing \<Longrightarrow> address existing = address info \<Longrightarrow>
     existing = info"
  using peers_wf_node_id [of ps "node_id info" existing] by (cases existing; cases info) simp

context kv_store
begin

lemma persist_peers_contents:
  assumes "invar kv" "persist_peers ops kv data = (r, kv')"
  shows "invar kv' \<and> contents kv' = (if isl r then contents kv else (contents kv)(peer_store_target \<mapsto> data))"
proof -
  obtain q k where p: "kv_write ops kv peer_store_target data = (q, k)"
    by fastforce
  with assms(2) show ?thesis
    using contents_write [OF assms(1) p] invar_write [OF assms(1) p]
    by (cases q) (auto simp: persist_peers_def)
qed

text \<open>Both mutations persist the changed store \<open>ps1\<close> and fall back to \<open>ps2\<close> when that fails.\<close>

lemma persist_or_roll_back:
  assumes "invar kv" "peers_on_disk enc ps (contents kv)" "peers_wf ps1" "peers_wf ps2"
    and "map_of (peers ps2) = map_of (peers ps)" "persist_peers ops kv (enc ps1) = (q, kv')"
    and "ps' = (if isl q then ps2 else ps1)"
  shows "invar kv' \<and> peers_wf ps' \<and> peers_on_disk enc ps' (contents kv')
    \<and> map_of (peers ps') = (if isl q then map_of (peers ps) else map_of (peers ps1))"
  using persist_peers_contents [OF assms(1,6)] peers_on_disk_written [OF assms(3)] assms
    peers_on_disk_cong [OF assms(5)]
  by (cases "isl q") auto

lemma add_peer_ok:
  assumes inv: "invar kv" and wf: "peers_wf ps" and d: "peers_on_disk enc ps (contents kv)"
    and a: "PeerStore_add_peer enc ops ps kv info = (r, ps', kv')"
  shows "invar kv' \<and> peers_wf ps' \<and> peers_on_disk enc ps' (contents kv')
    \<and> map_of (peers ps') = (if isl r then map_of (peers ps) else (map_of (peers ps))(node_id info \<mapsto> info))"
proof (cases "\<exists>existing. map_of (peers ps) (node_id info) = Some existing \<and> address existing = address info")
  case True
  then have "map_of (peers ps) (node_id info) = Some info"
    using map_of_same_address [OF wf] by blast
  with a inv wf d show ?thesis
    by (auto simp: PeerStore_add_peer_def Let_def map_upd_triv)
next
  case False
  let ?k = "node_id info" and ?ps1 = "ps\<lparr>peers := AList.update (node_id info) info (peers ps)\<rparr>"
  obtain q k where p: "persist_peers ops kv (enc ?ps1) = (q, k)"
    by fastforce
  define ps2 where "ps2 = (case map_of (peers ps) ?k of
     Some previous \<Rightarrow> ?ps1\<lparr>peers := AList.update ?k previous (peers ?ps1)\<rparr>
   | None \<Rightarrow> ?ps1\<lparr>peers := AList.delete ?k (peers ?ps1)\<rparr>)"
  have wf1: "peers_wf ?ps1"
    using wf by (rule peers_wf_update) simp
  have "peers_wf ps2"
  proof (cases "map_of (peers ps) ?k")
    case (Some previous)
    with peers_wf_update [OF wf1 peers_wf_node_id [OF wf Some]] show ?thesis
      by (simp add: ps2_def)
  qed (use peers_wf_delete [OF wf1, of ?k] in \<open>simp add: ps2_def\<close>)
  moreover have "map_of (peers ps2) = map_of (peers ps)"
    by (auto simp: ps2_def delete_conv' update_conv' fun_upd_idem split: option.splits)
  moreover have "kv' = k" "ps' = (if isl q then ps2 else ?ps1)" "isl r = isl q"
    using a p False by (cases q; auto simp: PeerStore_add_peer_def Let_def ps2_def split: option.splits)+
  ultimately show ?thesis
    using persist_or_roll_back [OF inv d wf1 _ _ p, of ps2 ps'] by (simp add: update_conv')
qed

lemma remove_peer_ok:
  assumes inv: "invar kv" and wf: "peers_wf ps" and d: "peers_on_disk enc ps (contents kv)"
    and a: "PeerStore_remove_peer enc ops ps kv k = (r, ps', kv')"
  shows "invar kv' \<and> peers_wf ps' \<and> peers_on_disk enc ps' (contents kv')
    \<and> map_of (peers ps') = (if isl r then map_of (peers ps) else (map_of (peers ps))(k := None))"
proof -
  let ?ps1 = "ps\<lparr>peers := AList.delete k (peers ps)\<rparr>"
  obtain q kv1 where p: "persist_peers ops kv (enc ?ps1) = (q, kv1)"
    by fastforce
  define ps2 where "ps2 = (case map_of (peers ps) k of
     Some info \<Rightarrow> ?ps1\<lparr>peers := AList.update k info (peers ?ps1)\<rparr> | None \<Rightarrow> ?ps1)"
  have wf1: "peers_wf ?ps1"
    using wf by (rule peers_wf_delete)
  have "peers_wf ps2"
  proof (cases "map_of (peers ps) k")
    case (Some info)
    with peers_wf_update [OF wf1 peers_wf_node_id [OF wf Some]] show ?thesis
      by (simp add: ps2_def)
  qed (use wf1 in \<open>simp add: ps2_def\<close>)
  moreover have "map_of (peers ps2) = map_of (peers ps)"
    by (auto simp: ps2_def delete_conv' update_conv' fun_upd_idem split: option.splits)
  moreover have "kv' = kv1" "ps' = (if isl q then ps2 else ?ps1)" "isl r = isl q"
    using a p by (cases q; auto simp: PeerStore_remove_peer_def Let_def ps2_def split: option.splits)+
  ultimately show ?thesis
    using persist_or_roll_back [OF inv d wf1 _ _ p, of ps2 ps'] by (simp add: delete_conv')
qed

lemma peer_exec_ok:
  assumes "invar kv" "peers_wf ps" "peers_on_disk enc ps (contents kv)"
    and "peer_exec enc ops ps kv c = (r, ps', kv')"
  shows "invar kv' \<and> peers_wf ps' \<and> peers_on_disk enc ps' (contents kv')
    \<and> map_of (peers ps') = (if isl r then map_of (peers ps) else peer_spec c (map_of (peers ps)))"
proof (cases c)
  case (AddPeer info)
  with add_peer_ok [OF assms(1-3), of info r ps' kv'] assms(4) show ?thesis
    by simp
next
  case (RemovePeer k)
  with remove_peer_ok [OF assms(1-3), of k r ps' kv'] assms(4) show ?thesis
    by simp
qed

lemma peer_run_ok:
  assumes "invar kv" "peers_wf ps" "peers_on_disk enc ps (contents kv)"
    and "peer_run enc ops ps kv cs = (rs, ps', kv')"
  shows "invar kv' \<and> peers_wf ps' \<and> peers_on_disk enc ps' (contents kv')
    \<and> map_of (peers ps') = fold (\<lambda>(c, r) m. if isl r then m else peer_spec c m) (zip cs rs) (map_of (peers ps))"
  using assms
proof (induction cs arbitrary: ps kv rs)
  case (Cons c cs)
  obtain r ps1 kv1 where e: "peer_exec enc ops ps kv c = (r, ps1, kv1)"
    by (metis prod_cases3)
  obtain rs1 where run: "peer_run enc ops ps1 kv1 cs = (rs1, ps', kv')" "rs = r # rs1"
    using Cons.prems(4) e by (auto split: prod.splits)
  note ok = peer_exec_ok [OF Cons.prems(1-3) e]
  then have "map_of (peers ps') = fold (\<lambda>(c, r) m. if isl r then m else peer_spec c m) (zip cs rs1) (map_of (peers ps1))"
      "invar kv' \<and> peers_wf ps' \<and> peers_on_disk enc ps' (contents kv')"
    using Cons.IH [OF _ _ _ run(1)] by blast+
  with ok run(2) show ?case
    by simp
qed auto

end

section \<open>Reading back\<close>

lemma alist_update_new: "k \<notin> fst ` set xs \<Longrightarrow> AList.update k v xs = xs @ [(k, v)]"
  by (induction xs) auto

lemma fold_alist_update:
  "distinct (map fst (acc @ kvs)) \<Longrightarrow> fold (\<lambda>(k, v) ps. AList.update k v ps) kvs acc = acc @ kvs"
proof (induction kvs arbitrary: acc)
  case (Cons kv kvs)
  then show ?case
    by (cases kv) (simp add: alist_update_new)
qed simp

lemma PeerStore_read_written:
  assumes "\<And>k rest. deck (enck k @ rest) = Some (k, rest)" "\<And>v rest. decv (encv v @ rest) = Some (v, rest)"
    and "peers_wf ps" "length (peers ps) < 65536"
  shows "PeerStore_read deck decv (PeerStoreSerWrapper_write enck encv (peers ps)) = Some ps"
proof -
  have "codec (write_pair enck encv) (read_pair deck decv)"
    using assms(1,2) by (intro codec_pairI codec.intro)
  from codec.counted_small [OF this assms(4), of "[]"] fold_alist_update [of "[]" "peers ps"] assms(3)
  show ?thesis
    by (cases ps) (simp add: PeerStore_read_def PeerStoreDeserWrapper_read_def PeerStoreSerWrapper_write_def
        peers_wf_def)
qed

section \<open>Peers of channels\<close>

lemma missing_channel_peers_set:
  "info \<in> set (missing_channel_peers first_address ps excluded seen ks) \<longleftrightarrow>
     node_id info \<in> set ks \<and> node_id info \<notin> seen \<and> node_id info \<notin> excluded
     \<and> PeerStore_get_peer ps (node_id info) = None \<and> first_address (node_id info) = Some (address info)"
proof (induction ks arbitrary: seen)
  case (Cons k ks)
  have eq: "info = \<lparr>node_id = k, address = a\<rparr> \<longleftrightarrow> node_id info = k \<and> address info = a" for a
    by (cases info) simp
  show ?case
    by (cases "first_address k") (auto simp: Cons.IH eq)
qed simp

context kv_store
begin

lemma add_missing_peers_run:
  assumes "invar kv" "peers_wf ps" "peers_on_disk enc ps (contents kv)"
    and "distinct (map node_id infos)" "\<forall>info \<in> set infos. map_of (peers ps) (node_id info) = None"
  shows "add_missing_peers enc ops ps kv infos = snd (peer_run enc ops ps kv (map AddPeer infos))"
  using assms
proof (induction infos arbitrary: ps kv)
  case (Cons info infos)
  obtain r ps1 kv1 where a: "PeerStore_add_peer enc ops ps kv info = (r, ps1, kv1)"
    by (metis prod_cases3)
  have "\<forall>i \<in> set infos. map_of (peers ps1) (node_id i) = None"
    using add_peer_ok [OF Cons.prems(1-3) a] Cons.prems(4,5) by (auto simp: rev_image_eqI)
  with Cons.IH [of kv1 ps1] add_peer_ok [OF Cons.prems(1-3) a] Cons.prems(4,5) a show ?case
    by (auto simp: PeerStore_get_peer_def split: prod.splits)
qed simp

end

text \<open>The peers whose \<open>add_peer\<close> reported success.\<close>

fun added_peers :: "'addr peer_info list \<Rightarrow> ('t, 'e) result list \<Rightarrow> (public_key \<times> 'addr peer_info) list" where
  "added_peers (info # infos) (r # rs) =
     (if isl r then added_peers infos rs else (node_id info, info) # added_peers infos rs)"
| "added_peers _ _ = []"

lemma added_peers_fst: "fst ` set (added_peers infos rs) \<subseteq> node_id ` set infos"
  by (induction infos rs rule: added_peers.induct) auto

lemma fold_add_peers:
  assumes "distinct (map node_id infos)"
  shows "fold (\<lambda>(c, r) m. if isl r then m else peer_spec c m) (zip (map AddPeer infos) rs) m
    = m ++ map_of (added_peers infos rs)"
  using assms
proof (induction infos rs arbitrary: m rule: added_peers.induct)
  case (1 info infos r rs)
  have "node_id info \<notin> dom (map_of (added_peers infos rs))"
    using "1.prems" added_peers_fst [of infos rs] by (auto simp: dom_map_of_conv_image_fst)
  then have "m(node_id info \<mapsto> info) ++ map_of (added_peers infos rs)
      = m ++ (map_of (added_peers infos rs))(node_id info \<mapsto> info)"
    by (auto simp: fun_eq_iff map_add_def dom_def split: option.splits)
  with 1 show ?case
    by (cases r) (simp_all add: fun_eq_iff map_add_def)
qed auto

lemma peer_run_length: "peer_run enc ops ps kv cs = (rs, ps', kv') \<Longrightarrow> length rs = length cs"
  by (induction cs arbitrary: ps kv rs) (auto split: prod.splits)

lemma missing_channel_peers_distinct:
  "distinct (map node_id (missing_channel_peers first_address ps excluded seen ks))"
  by (induction ks arbitrary: seen)
     (auto simp: missing_channel_peers_set split: option.splits)

lemma peers_wf_length: "peers_wf ps \<Longrightarrow> length (peers ps) = card (dom (map_of (peers ps)))"
  unfolding peers_wf_def dom_map_of_conv_image_fst
  by (metis distinct_card length_map list.set_map)

section \<open>Properties\<close>

text \<open>
  C12: after any sequence of \<open>add_peer\<close> and \<open>remove_peer\<close> calls, whichever of their writes fail,
  memory holds the effect of exactly the calls that reported success, and a restart reads the same
  map back. The codecs of keys and entries are assumed to read back what they wrote, and there are
  fewer than \<open>2^16\<close> peers.
\<close>

theorem peer_store_survives_failures:
  assumes "\<And>k rest. deck (enck k @ rest) = Some (k, rest)" "\<And>v rest. decv (encv v @ rest) = Some (v, rest)"
    and "sqlite_fresh kv" "kv_table kv peer_store_target = None"
    and "peer_run (\<lambda>ps. PeerStoreSerWrapper_write enck encv (peers ps)) (sqlite_ops alphabet max_len db)
           PeerStore_new kv cs = (rs, ps', kv')"
    and "length (peers ps') < 65536"
  shows "PeerStore_get_peer ps' = fold (\<lambda>(c, r) m. if isl r then m else peer_spec c m) (zip cs rs) Map.empty
    \<and> (case kv_table kv' peer_store_target of
         None \<Rightarrow> PeerStore_get_peer ps' = Map.empty
       | Some data \<Rightarrow> (\<exists>ps0. PeerStore_read deck decv data = Some ps0
                             \<and> PeerStore_get_peer ps0 = PeerStore_get_peer ps'))"
proof -
  let ?enc = "\<lambda>ps. PeerStoreSerWrapper_write enck encv (peers ps)"
  have new: "peers_wf PeerStore_new" "peers_on_disk ?enc PeerStore_new (kv_table kv)"
    using assms(4) by (simp_all add: PeerStore_new_def peers_wf_def peers_on_disk_def)
  note ok = sqlite.peer_run_ok [OF assms(3) new assms(5)]
  have "\<exists>ps1. PeerStore_read deck decv data = Some ps1 \<and> map_of (peers ps1) = map_of (peers ps')"
    if "kv_table kv' peer_store_target = Some data" for data
  proof -
    from that ok obtain ps0 where ps0: "peers_wf ps0" "map_of (peers ps0) = map_of (peers ps')" "data = ?enc ps0"
      by (auto simp: peers_on_disk_def)
    have "length (peers ps0) < 65536"
      using assms(6) ok ps0(1,2) by (simp add: peers_wf_length)
    with PeerStore_read_written [OF assms(1,2) ps0(1)] ps0 show ?thesis
      by auto
  qed
  with ok show ?thesis
    by (auto simp: PeerStore_get_peer_def [abs_def] peers_on_disk_def PeerStore_new_def split: option.splits)
qed

text \<open>
  C13: recording the counterparties of channels never touches a peer that is already known, tries
  each missing counterparty once with its first announced address, leaves excluded ones out, and
  ends with exactly those whose write succeeded in addition.
\<close>

theorem missing_channel_peers_added:
  assumes "sqlite_fresh kv" "peers_wf ps" "peers_on_disk enc ps (kv_table kv)"
    and "infos = missing_channel_peers first_address ps excluded {} ks"
    and "peer_run enc (sqlite_ops alphabet max_len db) ps kv (map AddPeer infos) = (rs, ps', kv')"
  shows "persist_missing_channel_peers_excluding enc (sqlite_ops alphabet max_len db) first_address ps kv excluded ks
      = (ps', kv')
    \<and> PeerStore_get_peer ps' = PeerStore_get_peer ps ++ map_of (added_peers infos rs)
    \<and> set infos = {info. node_id info \<in> set ks - excluded \<and> PeerStore_get_peer ps (node_id info) = None
         \<and> first_address (node_id info) = Some (address info)}
    \<and> distinct (map node_id infos) \<and> peers_on_disk enc ps' (kv_table kv')"
proof -
  have dist: "distinct (map node_id infos)"
    unfolding assms(4) by (rule missing_channel_peers_distinct)
  have "\<forall>info \<in> set infos. map_of (peers ps) (node_id info) = None"
    unfolding assms(4) by (simp add: missing_channel_peers_set PeerStore_get_peer_def)
  then have run: "add_missing_peers enc (sqlite_ops alphabet max_len db) ps kv infos = (ps', kv')"
    using sqlite.add_missing_peers_run [OF assms(1-3) dist] assms(5) by simp
  have "map_of (peers ps') = map_of (peers ps) ++ map_of (added_peers infos rs)"
    "peers_on_disk enc ps' (kv_table kv')"
    using sqlite.peer_run_ok [OF assms(1-3,5)] fold_add_peers [OF dist, of rs] by simp_all
  moreover have "set infos = {info. node_id info \<in> set ks - excluded \<and> PeerStore_get_peer ps (node_id info) = None
         \<and> first_address (node_id info) = Some (address info)}"
    unfolding assms(4) by (auto simp: missing_channel_peers_set)
  ultimately show ?thesis
    using dist run
    by (simp add: persist_missing_channel_peers_excluding_def PeerStore_get_peer_def [abs_def] assms(4))
qed

text \<open>A small peer store: two additions, the second of which is refused by the database.\<close>

fun example_bytes :: "bytes \<Rightarrow> bytes" where
  "example_bytes [] = [0]"
| "example_bytes (b # bs) = 1 # b # example_bytes bs"

fun example_unbytes :: "bytes reader" where
  "example_unbytes (t # rest) =
     (if t = 0 then Some ([], rest)
      else (case rest of
              [] \<Rightarrow> None
            | b # rest' \<Rightarrow> map_option (\<lambda>(bs, r). (b # bs, r)) (example_unbytes rest')))"
| "example_unbytes [] = None"

definition example_enck :: "public_key \<Rightarrow> bytes" where
  "example_enck k = (case k of PublicKey b \<Rightarrow> example_bytes b)"

definition example_deck :: "public_key reader" where
  "example_deck bs = map_option (\<lambda>(b, r). (PublicKey b, r)) (example_unbytes bs)"

definition example_encv :: "u16 peer_info \<Rightarrow> bytes" where
  "example_encv info = example_enck (node_id info) @ write_u16 (address info)"

definition example_decv :: "u16 peer_info reader" where
  "example_decv bs = map_option (\<lambda>((k, a), r). (\<lparr>node_id = k, address = a\<rparr>, r)) (read_pair example_deck read_u16 bs)"

lemma example_codecs:
  "example_deck (example_enck k @ rest) = Some (k, rest)" "example_decv (example_encv v @ rest) = Some (v, rest)"
proof -
  have "example_unbytes (example_bytes b @ r) = Some (b, r)" for b r
    by (induction b) simp_all
  then show k: "example_deck (example_enck k @ rest) = Some (k, rest)" for k rest
    by (cases k) (simp add: example_deck_def example_enck_def)
  show "example_decv (example_encv v @ rest) = Some (v, rest)"
    by (cases v) (simp add: example_decv_def example_encv_def read_pair_def k codec_write_u16)
qed

abbreviation example_peer_ops :: "sqlite_store kv_ops" where
  "example_peer_ops \<equiv> sqlite_ops ''peers'' 120 (\<lambda>v. v \<noteq> 2)"

abbreviation example_peer_enc :: "u16 peer_store \<Rightarrow> bytes" where
  "example_peer_enc \<equiv> \<lambda>ps. PeerStoreSerWrapper_write example_enck example_encv (peers ps)"

definition example_peer :: "u8 \<Rightarrow> u16 \<Rightarrow> u16 peer_info" where
  "example_peer k a = \<lparr>node_id = PublicKey [k], address = a\<rparr>"

definition example_peer_kv :: sqlite_store where
  "example_peer_kv = SqliteStore_new Map.empty"

definition example_peer_run :: "(unit, node_error) result list \<times> u16 peer_store \<times> sqlite_store" where
  "example_peer_run = peer_run example_peer_enc example_peer_ops PeerStore_new example_peer_kv
     (map AddPeer [example_peer 1 10, example_peer 2 20])"

lemma example_peer_start:
  "sqlite_fresh example_peer_kv" "kv_table example_peer_kv t = None" "peers_wf PeerStore_new"
  "peers_on_disk example_peer_enc PeerStore_new (kv_table example_peer_kv)"
  by (simp_all add: example_peer_kv_def sqlite_fresh_def SqliteStore_new_def PeerStore_new_def peers_wf_def
      peers_on_disk_def)

lemma example_peer_run_eq:
  "peer_run example_peer_enc example_peer_ops PeerStore_new example_peer_kv
     (map AddPeer [example_peer 1 10, example_peer 2 20])
   = (fst example_peer_run, fst (snd example_peer_run), snd (snd example_peer_run))"
  by (simp only: example_peer_run_def prod.collapse)

theorem peer_store_survives_failures_witness:
  "fst example_peer_run = [Inr (), Inl PersistenceFailed]
   \<and> PeerStore_get_peer (fst (snd example_peer_run)) = [PublicKey [1] \<mapsto> example_peer 1 10]"
proof -
  have r: "fst example_peer_run = [Inr (), Inl PersistenceFailed]"
    "length (peers (fst (snd example_peer_run))) = 1"
    by code_simp+
  then have len: "length (peers (fst (snd example_peer_run))) < 65536"
    by simp
  have k: "node_id (example_peer 1 10) = PublicKey [1]"
    by (simp add: example_peer_def)
  show ?thesis
    using peer_store_survives_failures [OF example_codecs example_peer_start(1,2) example_peer_run_eq len]
    by (simp add: r k)
qed

theorem missing_channel_peers_added_witness:
  "PeerStore_get_peer (fst (persist_missing_channel_peers_excluding example_peer_enc example_peer_ops
       (\<lambda>k. if k = PublicKey [1] then Some 10 else Some 20) PeerStore_new example_peer_kv {PublicKey [3]}
       [PublicKey [1], PublicKey [3], PublicKey [1], PublicKey [2]]))
     = [PublicKey [1] \<mapsto> example_peer 1 10]"
proof -
  have infos: "[example_peer 1 10, example_peer 2 20]
      = missing_channel_peers (\<lambda>k. if k = PublicKey [1] then Some 10 else Some 20) PeerStore_new
          {PublicKey [3]} {} [PublicKey [1], PublicKey [3], PublicKey [1], PublicKey [2]]"
    by (simp add: example_peer_def PeerStore_get_peer_def PeerStore_new_def)
  have added: "added_peers [example_peer 1 10, example_peer 2 20] (fst example_peer_run)
      = [(PublicKey [1], example_peer 1 10)]"
    by code_simp
  have "PeerStore_get_peer (PeerStore_new :: u16 peer_store) = Map.empty"
    by (simp add: PeerStore_get_peer_def [abs_def] PeerStore_new_def)
  with missing_channel_peers_added [OF example_peer_start(1,3,4) infos example_peer_run_eq] added
  show ?thesis
    by simp
qed

end
