(* ===== verification/Rate_Limiter.thy ===== *)
theory Rate_Limiter
  imports LDK_Prelude
begin

text \<open>
  The per-user token buckets of \<open>src/payment/asynchronous/rate_limiter.rs\<close>. Instants and
  durations are nanoseconds; \<open>duration_since\<close> of an earlier instant is zero. The number of
  elapsed refill intervals is a quotient of two \<open>f64\<close> values, cast to \<open>u32\<close>: it is the
  parameter \<open>ratio\<close>, and the rate bound relies on it not exceeding the exact quotient. Every
  call reads the clock once, and once more when it collects garbage.
\<close>

section \<open>Operations\<close>

record bucket =
  tokens :: u32
  last_refill :: nat

record rate_limiter =
  users :: "bytes \<rightharpoonup> bucket"
  capacity :: u32
  refill_interval :: nat
  max_idle :: nat

definition RateLimiter_new :: "u32 \<Rightarrow> nat \<Rightarrow> nat \<Rightarrow> rate_limiter" where
  "RateLimiter_new cap refill idle = \<lparr>users = Map.empty, capacity = cap, refill_interval = refill, max_idle = idle\<rparr>"

definition garbage_collect :: "nat \<Rightarrow> rate_limiter \<Rightarrow> rate_limiter" where
  "garbage_collect now rl =
     rl\<lparr>users := (\<lambda>u. case users rl u of
                      Some b \<Rightarrow> if now - last_refill b < max_idle rl then Some b else None
                    | None \<Rightarrow> None)\<rparr>"

definition refill :: "(nat \<Rightarrow> nat \<Rightarrow> u32) \<Rightarrow> rate_limiter \<Rightarrow> nat \<Rightarrow> bucket \<Rightarrow> bucket" where
  "refill ratio rl now b =
     (let elapsed = now - last_refill b;
          tokens_to_add = ratio elapsed (refill_interval rl) in
      if 0 < tokens_to_add
      then b\<lparr>tokens := min (tokens b + tokens_to_add) (capacity rl), last_refill := now\<rparr> else b)"

definition RateLimiter_allow ::
    "(nat \<Rightarrow> nat \<Rightarrow> u32) \<Rightarrow> nat \<Rightarrow> nat \<Rightarrow> rate_limiter \<Rightarrow> bytes \<Rightarrow> bool \<times> rate_limiter" where
  "RateLimiter_allow ratio now now_gc rl user_id =
     (let is_new_user = users rl user_id = None;
          bucket = (case users rl user_id of Some b \<Rightarrow> b | None \<Rightarrow> \<lparr>tokens = capacity rl, last_refill = now\<rparr>);
          bucket = refill ratio rl now bucket;
          (allow, bucket) = (if 0 < tokens bucket then (True, bucket\<lparr>tokens := tokens bucket - 1\<rparr>)
                             else (False, bucket));
          rl = rl\<lparr>users := (users rl)(user_id \<mapsto> bucket)\<rparr>
      in (allow, if is_new_user then garbage_collect now_gc rl else rl))"

text \<open>A sequence of calls, each with its user and its two clock readings.\<close>

fun rl_run ::
    "(nat \<Rightarrow> nat \<Rightarrow> u32) \<Rightarrow> rate_limiter \<Rightarrow> (bytes \<times> nat \<times> nat) list \<Rightarrow> bool list \<times> rate_limiter" where
  "rl_run ratio rl [] = ([], rl)"
| "rl_run ratio rl ((u, now, now_gc) # cs) =
     (case RateLimiter_allow ratio now now_gc rl u of
        (a, rl') \<Rightarrow> (case rl_run ratio rl' cs of (as, rl'') \<Rightarrow> (a # as, rl'')))"

fun allowed :: "bytes \<Rightarrow> (bytes \<times> nat \<times> nat) list \<Rightarrow> bool list \<Rightarrow> nat" where
  "allowed u ((v, _) # cs) (a # as) = (if v = u \<and> a then 1 else 0) + allowed u cs as"
| "allowed u _ _ = 0"

fun clock_ok :: "nat \<Rightarrow> (bytes \<times> nat \<times> nat) list \<Rightarrow> bool" where
  "clock_ok t [] = True"
| "clock_ok t ((u, now, now_gc) # cs) \<longleftrightarrow> t \<le> now \<and> now \<le> now_gc \<and> clock_ok now_gc cs"

definition last_time :: "nat \<Rightarrow> (bytes \<times> nat \<times> nat) list \<Rightarrow> nat" where
  "last_time t cs = (if cs = [] then t else snd (snd (last cs)))"

section \<open>Credit of a user\<close>

text \<open>
  The budget of a user after \<open>n\<close> allowed calls at time \<open>t\<close>, counting from \<open>t0\<close>: what was used
  and what is left in the bucket is covered by the capacity and the intervals up to the last
  refill; without a bucket the used tokens are covered by the elapsed intervals alone.
\<close>

definition within_budget :: "nat \<Rightarrow> bytes \<Rightarrow> rate_limiter \<Rightarrow> nat \<Rightarrow> nat \<Rightarrow> bool" where
  "within_budget t0 u rl t n \<longleftrightarrow>
     (case users rl u of
        Some b \<Rightarrow> t0 \<le> last_refill b \<and> last_refill b \<le> t
          \<and> n + unat (tokens b) \<le> unat (capacity rl) + (last_refill b - t0) div refill_interval rl
      | None \<Rightarrow> n \<le> (t - t0) div refill_interval rl)"

lemma unat_min: "unat (min a b) = min (unat a) (unat b)"
  by (auto simp: min_def word_le_nat_alt)

lemma unat_add_le: "unat (a + b) \<le> unat a + unat b" for a b :: "'a::len word"
  by (simp add: unat_word_ariths)

lemma div_add_le: "(a :: nat) div r + b div r \<le> (a + b) div r"
  by (subst div_add1_eq) simp

lemma refill_budget:
  assumes ratio: "\<And>e. unat (ratio e (refill_interval rl)) \<le> e div refill_interval rl"
    and "t0 \<le> last_refill b" "last_refill b \<le> now"
    and "n + unat (tokens b) \<le> unat (capacity rl) + (last_refill b - t0) div refill_interval rl"
  defines "b' \<equiv> refill ratio rl now b"
  shows "t0 \<le> last_refill b' \<and> last_refill b' \<le> now
    \<and> n + unat (tokens b') \<le> unat (capacity rl) + (last_refill b' - t0) div refill_interval rl"
proof -
  let ?r = "refill_interval rl" and ?add = "ratio (now - last_refill b) (refill_interval rl)"
  have "unat (min (tokens b + ?add) (capacity rl)) \<le> unat (tokens b) + (now - last_refill b) div ?r"
    using unat_add_le [of "tokens b" ?add] ratio [of "now - last_refill b"] by (simp add: unat_min)
  moreover have "(last_refill b - t0) div ?r + (now - last_refill b) div ?r \<le> (now - t0) div ?r"
    using div_add_le [of "last_refill b - t0" ?r "now - last_refill b"] assms(2,3) by simp
  ultimately show ?thesis
    using assms(2-4) by (cases "0 < ?add") (simp_all add: b'_def refill_def Let_def)
qed


text \<open>One call: the count of \<open>u\<close> grows by one exactly when the call is by \<open>u\<close> and allowed.\<close>

lemma allow_budget_before_gc:
  assumes "\<And>e. unat (ratio e (refill_interval rl)) \<le> e div refill_interval rl"
    and "within_budget t0 u rl t n" "t0 \<le> t" "t \<le> now"
    and "RateLimiter_allow ratio now now_gc rl v = (a, rl')"
  shows "\<exists>rl1. within_budget t0 u rl1 now (n + (if v = u \<and> a then 1 else 0))
    \<and> refill_interval rl1 = refill_interval rl \<and> capacity rl1 = capacity rl \<and> max_idle rl1 = max_idle rl
    \<and> (rl' = rl1 \<or> rl' = garbage_collect now_gc rl1)"
proof -
  let ?b0 = "case users rl v of Some b \<Rightarrow> b | None \<Rightarrow> \<lparr>tokens = capacity rl, last_refill = now\<rparr>"
  let ?b1 = "refill ratio rl now ?b0"
  let ?b2 = "if 0 < tokens ?b1 then ?b1\<lparr>tokens := tokens ?b1 - 1\<rparr> else ?b1"
  let ?rl1 = "rl\<lparr>users := (users rl)(v \<mapsto> ?b2)\<rparr>"
  have a: "a \<longleftrightarrow> 0 < tokens ?b1" and rl': "rl' = ?rl1 \<or> rl' = garbage_collect now_gc ?rl1"
    using assms(5) by (auto simp: RateLimiter_allow_def Let_def split: if_splits)
  have "within_budget t0 u ?rl1 now (n + (if v = u \<and> a then 1 else 0))"
  proof (cases "v = u")
    case False
    have "(t - t0) div refill_interval rl \<le> (now - t0) div refill_interval rl"
      using assms(4) by (simp add: div_le_mono)
    with False assms(2,4) show ?thesis
      by (auto simp: within_budget_def split: option.splits)
  next
    case True
    have "(t - t0) div refill_interval rl \<le> (now - t0) div refill_interval rl"
      using assms(4) by (simp add: div_le_mono)
    with True assms(2-4) have "t0 \<le> last_refill ?b0 \<and> last_refill ?b0 \<le> now
        \<and> n + unat (tokens ?b0) \<le> unat (capacity rl) + (last_refill ?b0 - t0) div refill_interval rl"
      by (auto simp: within_budget_def split: option.splits)
    then have "t0 \<le> last_refill ?b1 \<and> last_refill ?b1 \<le> now
        \<and> n + unat (tokens ?b1) \<le> unat (capacity rl) + (last_refill ?b1 - t0) div refill_interval rl"
      using refill_budget [of ratio rl t0 ?b0 now n] assms(1) by blast
    moreover have "0 < tokens ?b1 \<Longrightarrow> unat (tokens ?b1 - 1) = unat (tokens ?b1) - 1 \<and> 0 < unat (tokens ?b1)"
      by (simp add: unat_minus_one unat_gt_0)
    ultimately show ?thesis
      using True by (auto simp: within_budget_def a)
  qed
  with rl' show ?thesis
    by (intro exI [of _ ?rl1]) simp
qed

lemma garbage_collect_budget:
  assumes "within_budget t0 u rl t n" "t0 \<le> t" "t \<le> now" "unat (capacity rl) * refill_interval rl \<le> max_idle rl"
    and "0 < refill_interval rl"
  shows "within_budget t0 u (garbage_collect now rl) now n"
proof (cases "users rl u")
  case None
  have "(t - t0) div refill_interval rl \<le> (now - t0) div refill_interval rl"
    using assms(3) by (simp add: div_le_mono)
  with None assms(1) show ?thesis
    by (simp add: within_budget_def garbage_collect_def)
next
  case (Some b)
  let ?r = "refill_interval rl"
  have "n \<le> (now - t0) div ?r" if "max_idle rl \<le> now - last_refill b"
  proof -
    have "unat (capacity rl) \<le> (now - last_refill b) div ?r"
      using that assms(4,5) by (simp add: less_eq_div_iff_mult_less_eq)
    moreover have "(last_refill b - t0) div ?r + (now - last_refill b) div ?r \<le> (now - t0) div ?r"
      using div_add_le [of "last_refill b - t0" ?r "now - last_refill b"] assms(1,3) Some
      by (simp add: within_budget_def)
    ultimately show ?thesis
      using assms(1) Some by (simp add: within_budget_def)
  qed
  with Some assms(1,3) show ?thesis
    by (simp add: within_budget_def garbage_collect_def)
qed

lemma garbage_collect_frame [simp]:
  "capacity (garbage_collect now rl) = capacity rl" "max_idle (garbage_collect now rl) = max_idle rl"
  "refill_interval (garbage_collect now rl) = refill_interval rl"
  by (simp_all add: garbage_collect_def)

lemma allow_budget:
  assumes "\<And>e. unat (ratio e (refill_interval rl)) \<le> e div refill_interval rl"
    and "unat (capacity rl) * refill_interval rl \<le> max_idle rl" "0 < refill_interval rl"
    and "within_budget t0 u rl t n" "t0 \<le> t" "t \<le> now" "now \<le> now_gc"
    and "RateLimiter_allow ratio now now_gc rl v = (a, rl')"
  shows "within_budget t0 u rl' now_gc (n + (if v = u \<and> a then 1 else 0))
    \<and> refill_interval rl' = refill_interval rl \<and> capacity rl' = capacity rl \<and> max_idle rl' = max_idle rl"
proof -
  let ?m = "n + (if v = u \<and> a then 1 else 0)"
  obtain rl1 where rl1: "within_budget t0 u rl1 now ?m" "refill_interval rl1 = refill_interval rl"
      "capacity rl1 = capacity rl" "max_idle rl1 = max_idle rl" "rl' = rl1 \<or> rl' = garbage_collect now_gc rl1"
    using allow_budget_before_gc [OF assms(1,4-6,8)] by blast
  have mono: "(now - t0) div refill_interval rl \<le> (now_gc - t0) div refill_interval rl"
    using assms(7) by (simp add: div_le_mono)
  then have "within_budget t0 u rl1 now_gc ?m"
    using rl1(1,2) assms(7) by (auto simp: within_budget_def split: option.splits)
  moreover have "within_budget t0 u (garbage_collect now_gc rl1) now_gc ?m"
    using garbage_collect_budget [OF rl1(1)] assms rl1 by simp
  ultimately show ?thesis
    using rl1 by auto
qed

lemma rl_run_budget:
  assumes "\<And>e. unat (ratio e (refill_interval rl)) \<le> e div refill_interval rl"
    and "unat (capacity rl) * refill_interval rl \<le> max_idle rl" "0 < refill_interval rl"
    and "within_budget t0 u rl t n" "t0 \<le> t" "clock_ok t cs" "rl_run ratio rl cs = (as, rl')"
  shows "within_budget t0 u rl' (last_time t cs) (n + allowed u cs as)
    \<and> refill_interval rl' = refill_interval rl \<and> capacity rl' = capacity rl"
  using assms
proof (induction cs arbitrary: rl t n as)
  case (Cons c cs)
  obtain v now now_gc where c: "c = (v, now, now_gc)"
    by (metis prod_cases3)
  obtain a rl1 where al: "RateLimiter_allow ratio now now_gc rl v = (a, rl1)"
    by fastforce
  obtain as1 where run: "rl_run ratio rl1 cs = (as1, rl')" "as = a # as1"
    using Cons.prems(7) c al by (auto split: prod.splits)
  have t: "t \<le> now" "now \<le> now_gc" "clock_ok now_gc cs"
    using Cons.prems(6) c by simp_all
  note one = allow_budget [OF Cons.prems(1-5) t(1,2) al]
  have "within_budget t0 u rl' (last_time now_gc cs) (n + (if v = u \<and> a then 1 else 0) + allowed u cs as1)
      \<and> refill_interval rl' = refill_interval rl1 \<and> capacity rl' = capacity rl1"
    using Cons.IH [of rl1 now_gc "n + (if v = u \<and> a then 1 else 0)" as1] one Cons.prems(1-3,5) t run(1)
    by simp
  with one c run(2) show ?case
    by (cases "cs = []"; cases "v = u \<and> a") (auto simp: last_time_def)
qed (simp add: last_time_def)

section \<open>Properties\<close>



end
