(* ===== verification/Om_Mailbox.thy ===== *)
theory Om_Mailbox
  imports LN_Types "HOL-Library.AList"
begin

text \<open>
  The mailbox of intercepted onion messages for offline peers,
  \<open>src/payment/asynchronous/om_mailbox.rs\<close>. The hash map is iterated over when a peer is
  evicted, so it is an association list whose order stands for the iteration order. Onion
  messages are a type of the \<open>lightning\<close> crate.
\<close>

section \<open>Operations\<close>

type_synonym 'm mailbox = "(public_key \<times> 'm list) list"

definition MAX_MESSAGES_PER_PEER :: nat where
  "MAX_MESSAGES_PER_PEER = 30"

definition MAX_PEERS :: nat where
  "MAX_PEERS = 300"

definition OnionMessageMailbox_new :: "'m mailbox" where
  "OnionMessageMailbox_new = []"

text \<open>\<open>Iterator::max_by_key\<close>: among several maximal elements the last one is returned.\<close>

fun max_by_key :: "('a \<Rightarrow> nat) \<Rightarrow> 'a list \<Rightarrow> 'a option" where
  "max_by_key f [] = None"
| "max_by_key f (x # xs) =
     (case max_by_key f xs of
        None \<Rightarrow> Some x
      | Some y \<Rightarrow> if f x \<le> f y then Some y else Some x)"

definition enqueue_message :: "'m list \<Rightarrow> 'm \<Rightarrow> 'm list" where
  "enqueue_message q m = (let q = (if MAX_MESSAGES_PER_PEER \<le> length q then tl q else q) in q @ [m])"

definition onion_message_intercepted :: "'m mailbox \<Rightarrow> public_key \<Rightarrow> 'm \<Rightarrow> 'm mailbox" where
  "onion_message_intercepted mb peer m =
     (let q = (case map_of mb peer of Some q \<Rightarrow> q | None \<Rightarrow> []);
          mb = AList.update peer (enqueue_message q m) mb in
      if MAX_PEERS < length mb
      then (case max_by_key (\<lambda>(_, q). length q) mb of
              Some (p, _) \<Rightarrow> AList.delete p mb
            | None \<Rightarrow> mb)
      else mb)"

definition onion_message_peer_connected :: "'m mailbox \<Rightarrow> public_key \<Rightarrow> 'm list \<times> 'm mailbox" where
  "onion_message_peer_connected mb peer =
     (case map_of mb peer of
        Some q \<Rightarrow> (q, AList.delete peer mb)
      | None \<Rightarrow> ([], mb))"

section \<open>Invariant\<close>

definition mailbox_ok :: "'m mailbox \<Rightarrow> bool" where
  "mailbox_ok mb \<longleftrightarrow> distinct (map fst mb) \<and> length mb \<le> MAX_PEERS
     \<and> (\<forall>(p, q) \<in> set mb. 0 < length q \<and> length q \<le> MAX_MESSAGES_PER_PEER)"

lemma max_by_key_None [simp]: "max_by_key f xs = None \<longleftrightarrow> xs = []"
  by (cases xs) (auto split: option.splits)

lemma max_by_key_Some:
  "max_by_key f xs = Some y \<Longrightarrow> y \<in> set xs \<and> (\<forall>x \<in> set xs. f x \<le> f y)"
  by (induction xs arbitrary: y) (auto split: option.splits if_splits)

lemma enqueue_length:
  "length q \<le> MAX_MESSAGES_PER_PEER \<Longrightarrow>
     0 < length (enqueue_message q m) \<and> length (enqueue_message q m) \<le> MAX_MESSAGES_PER_PEER"
  by (auto simp: enqueue_message_def MAX_MESSAGES_PER_PEER_def)

lemma enqueue_drop:
  assumes "q = drop (length ms - MAX_MESSAGES_PER_PEER) ms"
  shows "enqueue_message q m = drop (length (ms @ [m]) - MAX_MESSAGES_PER_PEER) (ms @ [m])"
proof (cases "MAX_MESSAGES_PER_PEER \<le> length ms")
  case True
  with assms have "length q = MAX_MESSAGES_PER_PEER"
    by simp
  moreover have "tl q = drop (Suc (length ms - MAX_MESSAGES_PER_PEER)) ms"
    unfolding assms by (simp add: tl_drop drop_Suc)
  moreover have "length (ms @ [m]) - MAX_MESSAGES_PER_PEER = Suc (length ms - MAX_MESSAGES_PER_PEER)"
      "Suc (length ms - MAX_MESSAGES_PER_PEER) \<le> length ms"
    using True by (simp_all add: MAX_MESSAGES_PER_PEER_def)
  ultimately show ?thesis
    by (simp add: enqueue_message_def)
next
  case False
  with assms show ?thesis
    by (simp add: enqueue_message_def)
qed

lemma length_update: "length (AList.update k v xs) = (if k \<in> fst ` set xs then length xs else Suc (length xs))"
  by (induction xs) auto

lemma set_update_cases: "(p, q) \<in> set (AList.update k v xs) \<Longrightarrow> (p, q) = (k, v) \<or> (p, q) \<in> set xs"
  by (induction xs) (auto split: if_splits)

lemma length_delete:
  "distinct (map fst xs) \<Longrightarrow> k \<in> fst ` set xs \<Longrightarrow> Suc (length (AList.delete k xs)) = length xs"
proof (induction xs)
  case (Cons x xs)
  have "AList.delete (fst x) xs = xs" if "fst x \<notin> fst ` set xs"
    using that by (simp add: delete_id)
  with Cons show ?case
    by (cases x) (auto simp: image_iff)
qed simp


lemma set_delete_subset: "set (AList.delete k xs) \<subseteq> set xs"
  by (auto simp: AList.delete_eq)

text \<open>Without an eviction the operation is the update of one queue.\<close>

lemma intercepted_no_evict:
  "length (AList.update peer (enqueue_message q m) mb) \<le> MAX_PEERS \<Longrightarrow>
     q = (case map_of mb peer of Some q \<Rightarrow> q | None \<Rightarrow> []) \<Longrightarrow>
     onion_message_intercepted mb peer m = AList.update peer (enqueue_message q m) mb"
  by (simp add: onion_message_intercepted_def)

lemma mailbox_ok_update:
  assumes "mailbox_ok mb"
  shows "distinct (map fst (AList.update peer (enqueue_message (case map_of mb peer of Some q \<Rightarrow> q | None \<Rightarrow> []) m) mb))"
    and "\<forall>(p, q) \<in> set (AList.update peer (enqueue_message (case map_of mb peer of Some q \<Rightarrow> q | None \<Rightarrow> []) m) mb).
       0 < length q \<and> length q \<le> MAX_MESSAGES_PER_PEER"
proof -
  let ?q = "case map_of mb peer of Some q \<Rightarrow> q | None \<Rightarrow> []"
  show "distinct (map fst (AList.update peer (enqueue_message ?q m) mb))"
    using assms by (simp add: mailbox_ok_def distinct_update)
  have "length ?q \<le> MAX_MESSAGES_PER_PEER"
    using assms by (auto simp: mailbox_ok_def dest!: map_of_SomeD split: option.splits)
  note enqueue_length [OF this, of m]
  then show "\<forall>(p, q) \<in> set (AList.update peer (enqueue_message ?q m) mb).
      0 < length q \<and> length q \<le> MAX_MESSAGES_PER_PEER"
    using assms by (auto simp: mailbox_ok_def dest!: set_update_cases)
qed

lemma mailbox_ok_intercepted:
  assumes "mailbox_ok mb"
  shows "mailbox_ok (onion_message_intercepted mb peer m)"
proof -
  let ?q = "case map_of mb peer of Some q \<Rightarrow> q | None \<Rightarrow> []"
  let ?mb = "AList.update peer (enqueue_message ?q m) mb"
  note up = mailbox_ok_update [OF assms, of peer m]
  have len: "length ?mb \<le> Suc MAX_PEERS"
    using assms by (auto simp: mailbox_ok_def length_update)
  show ?thesis
  proof (cases "MAX_PEERS < length ?mb")
    case True
    then obtain p q where mx: "max_by_key (\<lambda>(_, q). length q) ?mb = Some (p, q)"
      using max_by_key_None [of "\<lambda>(_, q). length q" ?mb] by (cases "max_by_key (\<lambda>(_, q). length q) ?mb") auto
    then have "p \<in> fst ` set ?mb"
      using max_by_key_Some by force
    then have "length (AList.delete p ?mb) \<le> MAX_PEERS"
      using length_delete [OF up(1)] len by fastforce
    then show ?thesis
      using True mx up
      by (auto simp: onion_message_intercepted_def mailbox_ok_def distinct_delete
          dest!: subsetD [OF set_delete_subset])
  next
    case False
    with up show ?thesis
      by (simp add: onion_message_intercepted_def mailbox_ok_def)
  qed
qed

lemma mailbox_ok_connected:
  "mailbox_ok mb \<Longrightarrow> mailbox_ok (snd (onion_message_peer_connected mb peer))"
  by (auto simp: onion_message_peer_connected_def mailbox_ok_def distinct_delete
      split: option.splits dest: subsetD [OF set_delete_subset] intro: le_trans [OF length_delete_le])

section \<open>Delivery\<close>

definition intercept_all :: "(public_key \<times> 'm) list \<Rightarrow> 'm mailbox" where
  "intercept_all xs = fold (\<lambda>(p, m) mb. onion_message_intercepted mb p m) xs OnionMessageMailbox_new"

abbreviation messages_for :: "public_key \<Rightarrow> (public_key \<times> 'm) list \<Rightarrow> 'm list" where
  "messages_for p xs \<equiv> map snd (filter (\<lambda>x. fst x = p) xs)"

abbreviation latest :: "'m list \<Rightarrow> 'm list" where
  "latest ms \<equiv> drop (length ms - MAX_MESSAGES_PER_PEER) ms"

lemma intercept_all_snoc:
  "intercept_all (xs @ [(p, m)]) = onion_message_intercepted (intercept_all xs) p m"
  by (simp add: intercept_all_def)

lemma intercept_all_few_peers:
  assumes "card (fst ` set xs) \<le> MAX_PEERS"
  shows "distinct (map fst (intercept_all xs)) \<and> fst ` set (intercept_all xs) = fst ` set xs
    \<and> (\<forall>p. map_of (intercept_all xs) p
         = (if messages_for p xs = [] then None else Some (latest (messages_for p xs))))"
  using assms
proof (induction xs rule: rev_induct)
  case Nil
  show ?case
    by (simp add: intercept_all_def OnionMessageMailbox_new_def)
next
  case (snoc x xs)
  obtain p m where x: "x = (p, m)"
    by fastforce
  have "card (fst ` set xs) \<le> card (fst ` set (xs @ [x]))"
    by (rule card_mono) auto
  with snoc have IH: "distinct (map fst (intercept_all xs))" "fst ` set (intercept_all xs) = fst ` set xs"
      "\<And>p. map_of (intercept_all xs) p
         = (if messages_for p xs = [] then None else Some (latest (messages_for p xs)))"
    by auto
  let ?q = "case map_of (intercept_all xs) p of Some q \<Rightarrow> q | None \<Rightarrow> []"
  let ?mb = "AList.update p (enqueue_message ?q m) (intercept_all xs)"
  have q: "enqueue_message ?q m = latest (messages_for p xs @ [m])"
    by (rule enqueue_drop) (simp add: IH(3))
  have keys: "distinct (map fst ?mb)" "fst ` set ?mb = fst ` set (xs @ [x])"
    using IH x by (auto simp: distinct_update dom_update)
  have "length ?mb = card (fst ` set ?mb)"
    using distinct_card [OF keys(1)] by simp
  with snoc.prems keys(2) have "length ?mb \<le> MAX_PEERS"
    by simp
  then have "intercept_all (xs @ [x]) = ?mb"
    unfolding x intercept_all_snoc by (rule intercepted_no_evict) simp
  with keys q IH(3) x show ?case
    by (auto simp: update_conv')
qed

section \<open>Properties\<close>

text \<open>
  C15: the mailbox stays within its bounds: at most 300 peers with between 1 and 30 messages each,
  whatever is intercepted and whoever connects; an eviction removes a peer with a longest queue.
\<close>

theorem mailbox_bounded:
  assumes "mailbox_ok mb"
  shows "mailbox_ok (onion_message_intercepted mb peer m)
    \<and> mailbox_ok (snd (onion_message_peer_connected mb peer))
    \<and> (\<forall>p \<in> fst ` set mb - fst ` set (onion_message_intercepted mb peer m).
         length mb = MAX_PEERS \<and> (\<forall>q. map_of mb p = Some q \<longrightarrow> (\<forall>(p', q') \<in> set mb. p' \<noteq> peer \<longrightarrow> length q' \<le> length q)))"
proof -
  let ?mb = "AList.update peer (enqueue_message (case map_of mb peer of Some q \<Rightarrow> q | None \<Rightarrow> []) m) mb"
  have "length mb = MAX_PEERS \<and> (\<forall>q. map_of mb p = Some q \<longrightarrow> (\<forall>(p', q') \<in> set mb. p' \<noteq> peer \<longrightarrow> length q' \<le> length q))"
    if "p \<in> fst ` set mb" "p \<notin> fst ` set (onion_message_intercepted mb peer m)" for p
  proof -
    have "p \<in> fst ` set ?mb"
      using that(1) by (simp add: dom_update)
    with that(2) have evict: "MAX_PEERS < length ?mb"
      by (auto simp: onion_message_intercepted_def Let_def split: if_splits)
    then have new: "peer \<notin> fst ` set mb" "length mb = MAX_PEERS"
      using assms by (auto simp: mailbox_ok_def length_update split: if_splits)
    obtain k q where mx: "max_by_key (\<lambda>(_, q). length q) ?mb = Some (k, q)"
      using evict max_by_key_None [of "\<lambda>(_, q). length q" ?mb] by (cases "max_by_key (\<lambda>(_, q). length q) ?mb") auto
    have "k = p"
      using that evict mx \<open>p \<in> fst ` set ?mb\<close>
      by (force simp: onion_message_intercepted_def Let_def AList.delete_eq split: if_splits)
    moreover have "map_of ?mb k = Some q"
      using max_by_key_Some [OF mx] mailbox_ok_update(1) [OF assms] by simp
    ultimately have "map_of mb p = Some q"
      using new(1) that(1) by (auto simp: update_conv' split: if_splits)
    moreover have "\<forall>(p', q') \<in> set mb. p' \<noteq> peer \<longrightarrow> length q' \<le> length q"
    proof clarify
      fix p' q' assume "(p', q') \<in> set mb" "p' \<noteq> peer"
      then have "(p', q') \<in> set ?mb"
        by (induction mb) auto
      with max_by_key_Some [OF mx] show "length q' \<le> length q"
        by fastforce
    qed
    ultimately show ?thesis
      using new(2) by auto
  qed
  then show ?thesis
    using mailbox_ok_intercepted [OF assms] mailbox_ok_connected [OF assms] by blast
qed

theorem mailbox_bounded_witness:
  "mailbox_ok (onion_message_intercepted (OnionMessageMailbox_new :: nat mailbox) (PublicKey [1]) 5)"
  using mailbox_bounded [of "OnionMessageMailbox_new :: nat mailbox" "PublicKey [1]" 5]
  by (simp add: mailbox_ok_def OnionMessageMailbox_new_def)

text \<open>
  As long as no more than 300 peers are involved, a peer that connects receives its most
  recent messages, up to 30 of them, in the order of their arrival, and its mailbox is emptied
  while those of the other peers are untouched.
\<close>

lemma mailbox_delivers_latest:
  assumes "card (fst ` set xs) \<le> MAX_PEERS"
  shows "fst (onion_message_peer_connected (intercept_all xs) p) = latest (messages_for p xs)
    \<and> map_of (snd (onion_message_peer_connected (intercept_all xs) p)) = (map_of (intercept_all xs))(p := None)"
  using intercept_all_few_peers [OF assms]
  by (auto simp: onion_message_peer_connected_def delete_conv' fun_upd_idem split: option.splits)

lemma mailbox_delivers_latest_witness:
  "fst (onion_message_peer_connected (intercept_all [(PublicKey [1], 5 :: nat), (PublicKey [2], 6), (PublicKey [1], 7)])
     (PublicKey [1])) = [5, 7]"
  using mailbox_delivers_latest [of "[(PublicKey [1], 5 :: nat), (PublicKey [2], 6), (PublicKey [1], 7)]" "PublicKey [1]"]
  by (simp add: MAX_PEERS_def MAX_MESSAGES_PER_PEER_def card_insert_if)

end
