(* ===== verification/Static_Invoice_Store.thy ===== *)
theory Static_Invoice_Store
  imports Rate_Limiter Hex_Utils KV_Store
begin

text \<open>
  The store of static invoices kept for often-offline recipients,
  \<open>src/payment/asynchronous/static_invoice_store.rs\<close>: rate-limited reads and writes at a
  location made of the hash of the recipient and the slot number. SHA-256, the codec of the
  persisted pair and the invoice types are parameters.
\<close>

section \<open>Operations\<close>

record static_invoice_store =
  request_rate_limiter :: rate_limiter
  persist_rate_limiter :: rate_limiter

definition RATE_LIMITER_BUCKET_CAPACITY :: u32 where
  "RATE_LIMITER_BUCKET_CAPACITY = 5"

definition RATE_LIMITER_REFILL_INTERVAL :: nat where
  "RATE_LIMITER_REFILL_INTERVAL = 100000000"

definition RATE_LIMITER_MAX_IDLE :: nat where
  "RATE_LIMITER_MAX_IDLE = 600000000000"

definition STATIC_INVOICE_STORE_PRIMARY_NAMESPACE :: string where
  "STATIC_INVOICE_STORE_PRIMARY_NAMESPACE = ''static_invoices''"

definition StaticInvoiceStore_new :: static_invoice_store where
  "StaticInvoiceStore_new =
     \<lparr>request_rate_limiter = RateLimiter_new RATE_LIMITER_BUCKET_CAPACITY RATE_LIMITER_REFILL_INTERVAL RATE_LIMITER_MAX_IDLE,
      persist_rate_limiter = RateLimiter_new RATE_LIMITER_BUCKET_CAPACITY RATE_LIMITER_REFILL_INTERVAL RATE_LIMITER_MAX_IDLE\<rparr>"

text \<open>The clock readings and the \<open>f64\<close> quotient of a call to the rate limiter.\<close>

record clock =
  clock_ratio :: "nat \<Rightarrow> nat \<Rightarrow> u32"
  clock_now :: nat
  clock_gc :: nat

definition check_rate_limit :: "clock \<Rightarrow> rate_limiter \<Rightarrow> bytes \<Rightarrow> (unit, io_error) result \<times> rate_limiter" where
  "check_rate_limit c limiter recipient_id =
     (case RateLimiter_allow (clock_ratio c) (clock_now c) (clock_gc c) limiter recipient_id of
        (allow, limiter') \<Rightarrow> (if \<not> allow then Inl OtherError else Inr (), limiter'))"

text \<open>The format \<open>{:05}\<close> of a \<open>u16\<close>: five decimal digits.\<close>

fun decimal_digits :: "nat \<Rightarrow> nat \<Rightarrow> string" where
  "decimal_digits 0 n = []"
| "decimal_digits (Suc k) n = decimal_digits k (n div 10) @ [char_of (48 + n mod 10)]"

definition format_05 :: "u16 \<Rightarrow> string" where
  "format_05 slot = decimal_digits 5 (unat slot)"

definition get_storage_location :: "(bytes \<Rightarrow> bytes) \<Rightarrow> u16 \<Rightarrow> bytes \<Rightarrow> string \<times> string" where
  "get_storage_location sha256 invoice_slot recipient_id =
     (to_string (sha256 recipient_id), format_05 invoice_slot)"

abbreviation invoice_target :: "(bytes \<Rightarrow> bytes) \<Rightarrow> u16 \<Rightarrow> bytes \<Rightarrow> kv_target" where
  "invoice_target sha256 slot recipient_id \<equiv>
     (STATIC_INVOICE_STORE_PRIMARY_NAMESPACE, get_storage_location sha256 slot recipient_id)"

definition handle_static_invoice_requested ::
    "(bytes \<Rightarrow> bytes) \<Rightarrow> (bytes \<Rightarrow> ('inv \<times> 'path) option) \<Rightarrow> 'kv kv_ops \<Rightarrow> clock \<Rightarrow> static_invoice_store \<Rightarrow> 'kv
       \<Rightarrow> bytes \<Rightarrow> u16 \<Rightarrow> (('inv \<times> 'path) option, io_error) result \<times> static_invoice_store" where
  "handle_static_invoice_requested sha256 dec ops c st kv recipient_id invoice_slot =
     (case check_rate_limit c (request_rate_limiter st) recipient_id of
        (Inl e, limiter) \<Rightarrow> (Inl e, st\<lparr>request_rate_limiter := limiter\<rparr>)
      | (Inr _, limiter) \<Rightarrow>
          (let st = st\<lparr>request_rate_limiter := limiter\<rparr>;
               res = and_then (kv_read ops kv (invoice_target sha256 invoice_slot recipient_id))
                       (\<lambda>data. case dec data of Some p \<Rightarrow> Inr (Some p) | None \<Rightarrow> Inl InvalidData)
           in (case res of
                 Inl e \<Rightarrow> (if e = NotFound then Inr None else Inl e, st)
               | Inr p \<Rightarrow> (Inr p, st))))"

definition handle_persist_static_invoice ::
    "(bytes \<Rightarrow> bytes) \<Rightarrow> ('inv \<times> 'path \<Rightarrow> bytes) \<Rightarrow> 'kv kv_ops \<Rightarrow> clock \<Rightarrow> static_invoice_store \<Rightarrow> 'kv
       \<Rightarrow> 'inv \<Rightarrow> 'path \<Rightarrow> u16 \<Rightarrow> bytes \<Rightarrow> (unit, io_error) result \<times> static_invoice_store \<times> 'kv" where
  "handle_persist_static_invoice sha256 enc ops c st kv invoice path invoice_slot recipient_id =
     (case check_rate_limit c (persist_rate_limiter st) recipient_id of
        (Inl e, limiter) \<Rightarrow> (Inl e, st\<lparr>persist_rate_limiter := limiter\<rparr>, kv)
      | (Inr _, limiter) \<Rightarrow>
          (case kv_write ops kv (invoice_target sha256 invoice_slot recipient_id) (enc (invoice, path)) of
             (r, kv') \<Rightarrow> (r, st\<lparr>persist_rate_limiter := limiter\<rparr>, kv')))"

section \<open>Locations\<close>

lemma length_decimal_digits [simp]: "length (decimal_digits k n) = k"
  by (induction k arbitrary: n) simp_all

lemma digit_inj: "a < 10 \<Longrightarrow> b < 10 \<Longrightarrow> char_of (48 + a) = (char_of (48 + b) :: char) \<longleftrightarrow> a = (b :: nat)"
  by (auto simp: char_of_eq_iff take_bit_eq_mod)

lemma decimal_digits_inj:
  "m < 10 ^ k \<Longrightarrow> n < 10 ^ k \<Longrightarrow> decimal_digits k m = decimal_digits k n \<longleftrightarrow> m = n"
proof (induction k arbitrary: m n)
  case (Suc k)
  have "m div 10 < 10 ^ k" "n div 10 < 10 ^ k"
    using Suc.prems by (simp_all add: less_mult_imp_div_less mult.commute)
  then have "decimal_digits (Suc k) m = decimal_digits (Suc k) n \<longleftrightarrow> m div 10 = n div 10 \<and> m mod 10 = n mod 10"
    using Suc.IH [of "m div 10" "n div 10"] digit_inj [of "m mod 10" "n mod 10"] by simp
  then show ?case
    by (metis div_mult_mod_eq)
qed simp

lemma format_05_inj: "format_05 a = format_05 b \<longleftrightarrow> a = b"
proof -
  have "unat x < 10 ^ 5" for x :: u16
    using unsigned_less [of x, where 'a = nat] by simp
  then show ?thesis
    by (simp add: format_05_def decimal_digits_inj word_unat_eq_iff)
qed

lemma invoice_target_eq:
  "invoice_target sha256 slot r = invoice_target sha256 slot' r' \<longleftrightarrow> sha256 r = sha256 r' \<and> slot = slot'"
  by (simp add: get_storage_location_def format_05_inj to_string_inj)

section \<open>Properties\<close>

text \<open>
  C16: an invoice whose persistence was acknowledged is what a later request for the same recipient
  and slot returns, unless the request is refused or fails; invoices at other slots, and of
  recipients with another hash, are not affected; a refused or failed call writes nothing. The
  codec of the persisted pair is assumed to read back what it wrote.
\<close>

theorem static_invoice_roundtrip:
  assumes "sqlite_fresh kv" "dec (enc (invoice, path)) = Some (invoice, path)"
    and "handle_persist_static_invoice sha256 enc (sqlite_ops alphabet max_len db) c st kv invoice path slot recipient
           = (r, st1, kv1)"
    and "handle_static_invoice_requested sha256 dec (sqlite_ops alphabet max_len db) c2 st2 kv1 recipient slot
           = (Inr answer, st3)"
  shows "(if isl r then kv_table kv1 = kv_table kv else answer = Some (invoice, path))
    \<and> (\<forall>recipient' slot'. sha256 recipient' \<noteq> sha256 recipient \<or> slot' \<noteq> slot \<longrightarrow>
         kv_table kv1 (invoice_target sha256 slot' recipient') = kv_table kv (invoice_target sha256 slot' recipient'))"
proof -
  let ?ops = "sqlite_ops alphabet max_len db" and ?t = "invoice_target sha256 slot recipient"
  have kv1: "sqlite_fresh kv1 \<and> kv_table kv1 = (if isl r then kv_table kv else (kv_table kv)(?t \<mapsto> enc (invoice, path)))"
  proof -
    obtain q k where w: "kv_write ?ops kv ?t (enc (invoice, path)) = (q, k)"
      by fastforce
    with assms(1,3) show ?thesis
      using sqlite.contents_write [OF assms(1) w] sqlite.invar_write [OF assms(1) w]
      by (auto simp: handle_persist_static_invoice_def split: prod.splits sum.splits)
  qed
  have "answer = Some (invoice, path)" if "\<not> isl r"
  proof (cases "kv_read ?ops kv1 ?t")
    case (Inl e)
    then have "e \<noteq> NotFound"
      using sqlite.read_not_found [of kv1 _ _ _ ?t] kv1 that by auto
    with Inl assms(4) show ?thesis
      by (auto simp: handle_static_invoice_requested_def Let_def split: prod.splits sum.splits)
  next
    case (Inr data)
    then have "data = enc (invoice, path)"
      using sqlite.read_ok [of kv1 _ _ _ ?t data] kv1 that by auto
    with Inr assms(2,4) show ?thesis
      by (auto simp: handle_static_invoice_requested_def Let_def split: prod.splits sum.splits)
  qed
  moreover have "kv_table kv1 (invoice_target sha256 slot' r') = kv_table kv (invoice_target sha256 slot' r')"
    if "sha256 r' \<noteq> sha256 recipient \<or> slot' \<noteq> slot" for r' slot'
    using kv1 that invoice_target_eq [of sha256 slot' r' slot recipient] by auto
  ultimately show ?thesis
    using kv1 by auto
qed

text \<open>A store with a constant hash, a one-byte codec and a limiter that is asked at time 0.\<close>

definition example_clock :: clock where
  "example_clock = \<lparr>clock_ratio = (\<lambda>e r. 0), clock_now = 0, clock_gc = 0\<rparr>"

definition example_limits :: static_invoice_store where
  "example_limits = \<lparr>request_rate_limiter = RateLimiter_new 5 2 9, persist_rate_limiter = RateLimiter_new 5 2 9\<rparr>"

definition example_persisted :: "(unit, io_error) result \<times> static_invoice_store \<times> sqlite_store" where
  "example_persisted = handle_persist_static_invoice (\<lambda>r. r) (\<lambda>(i, p). [i, p])
     (sqlite_ops ''static_invoices0123456789abcdef'' 120 (\<lambda>_. True)) example_clock example_limits
     (SqliteStore_new Map.empty) 7 8 3 [1]"

definition example_requested :: "((u8 \<times> u8) option, io_error) result \<times> static_invoice_store" where
  "example_requested = handle_static_invoice_requested (\<lambda>r. r) (\<lambda>bs. Some (hd bs, bs ! 1))
     (sqlite_ops ''static_invoices0123456789abcdef'' 120 (\<lambda>_. True)) example_clock (fst (snd example_persisted))
     (snd (snd example_persisted)) [1] 3"

theorem static_invoice_roundtrip_witness:
  "fst example_persisted = Inr () \<and> fst example_requested = Inr (Some (7, 8))"
proof -
  obtain answer where a: "fst example_requested = Inr answer"
  proof -
    have "\<not> isl (fst example_requested)"
      by code_simp
    then show ?thesis
      using that by (metis sum.collapse(2))
  qed
  have p: "fst example_persisted = Inr ()"
    by code_simp
  have fresh: "sqlite_fresh (SqliteStore_new Map.empty)"
    by (simp add: sqlite_fresh_def SqliteStore_new_def)
  have run1: "handle_persist_static_invoice (\<lambda>r. r) (\<lambda>(i, p). [i, p])
     (sqlite_ops ''static_invoices0123456789abcdef'' 120 (\<lambda>_. True)) example_clock example_limits
     (SqliteStore_new Map.empty) 7 8 3 [1]
     = (fst example_persisted, fst (snd example_persisted), snd (snd example_persisted))"
    by (simp only: example_persisted_def prod.collapse)
  have run2: "handle_static_invoice_requested (\<lambda>r. r) (\<lambda>bs. Some (hd bs, bs ! 1))
     (sqlite_ops ''static_invoices0123456789abcdef'' 120 (\<lambda>_. True)) example_clock (fst (snd example_persisted))
     (snd (snd example_persisted)) [1] 3 = (Inr answer, snd example_requested)"
    by (metis a example_requested_def prod.collapse)
  have "if isl (fst example_persisted) then kv_table (snd (snd example_persisted)) = kv_table (SqliteStore_new Map.empty)
      else answer = Some (7, 8)"
    using static_invoice_roundtrip [OF fresh _ run1 run2] by simp
  with a p show ?thesis
    by simp
qed

end
