(* ===== verification/Bdk_Types.thy ===== *)
theory Bdk_Types
  imports LN_Types
begin

text \<open>
  The bitcoin data the aggregate wallet (\<open>crates/bdk-wallet-aggregate\<close>) works on, its own
  types (\<open>types.rs\<close>), and the part of the \<open>bdk_wallet\<close> and \<open>bitcoin\<close> crates it calls. Those
  crates are third-party code: a BDK wallet is a value of an arbitrary type \<open>'w\<close>, and the
  record \<open>bdk_view\<close> collects the queries made on it; \<open>bitcoin_lib\<close> collects weight and fee
  arithmetic. A \<open>HashMap\<close> of wallets is an association list whose order stands for the
  unspecified iteration order. Amounts, weights and fee rates are \<open>u64\<close> values in satoshi,
  weight units and satoshi per 1000 weight units.
\<close>

section \<open>Transactions\<close>

type_synonym script = bytes

record tx_out =
  to_value :: u64
  to_script :: script

record tx_in =
  previous_output :: outpoint
  script_sig :: script
  tx_sequence :: u32
  tx_witness :: "bytes list"

record transaction =
  tx_version :: u32
  lock_time :: u32
  tx_input :: "tx_in list"
  tx_output :: "tx_out list"

definition ENABLE_RBF_NO_LOCKTIME :: u32 where
  "ENABLE_RBF_NO_LOCKTIME = 0xFFFFFFFD"

record psbt_input =
  witness_utxo :: "tx_out option"
  non_witness_utxo :: "transaction option"
  final_script_sig :: "script option"
  final_script_witness :: "bytes list option"

record psbt =
  unsigned_tx :: transaction
  psbt_inputs :: "psbt_input list"

definition psbt_input_default :: psbt_input where
  "psbt_input_default = \<lparr>witness_utxo = None, non_witness_utxo = None, final_script_sig = None,
     final_script_witness = None\<rparr>"

section \<open>What is asked of a BDK wallet\<close>

datatype keychain_kind = External | Internal

record local_output =
  lo_outpoint :: outpoint
  lo_txout :: tx_out
  lo_keychain :: keychain_kind
  lo_is_spent :: bool
  lo_derivation_index :: u32

record confirmation_block_time =
  cb_height :: u32
  cb_hash :: block_hash
  cb_time :: u64

datatype chain_position = CpConfirmed confirmation_block_time | CpUnconfirmed "u64 option"

record balance =
  bal_confirmed :: u64
  bal_trusted_pending :: u64
  bal_untrusted_pending :: u64
  bal_immature :: u64

record 'w bdk_view =
  get_utxo :: "'w \<Rightarrow> outpoint \<Rightarrow> local_output option"
  get_tx :: "'w \<Rightarrow> txid \<Rightarrow> transaction option"
  list_unspent :: "'w \<Rightarrow> local_output list"
  transactions :: "'w \<Rightarrow> (txid \<times> chain_position) list"
  wallet_balance :: "'w \<Rightarrow> balance"
  derivation_of_spk :: "'w \<Rightarrow> script \<Rightarrow> (keychain_kind \<times> u32) option"
  max_weight_to_satisfy :: "'w \<Rightarrow> keychain_kind \<Rightarrow> u64 option"
  is_mine :: "'w \<Rightarrow> script \<Rightarrow> bool"
  calculate_fee :: "'w \<Rightarrow> transaction \<Rightarrow> u64 option"
  wallet_sent_and_received :: "'w \<Rightarrow> transaction \<Rightarrow> u64 \<times> u64"
  peek_script :: "'w \<Rightarrow> keychain_kind \<Rightarrow> u32 \<Rightarrow> script"

text \<open>
  \<open>tx_weight\<close> and \<open>txout_weight\<close> are \<open>Transaction::weight\<close> and \<open>TxOut::weight\<close>,
  \<open>amount_div_weight\<close> is the division of an amount by a weight, \<open>fee_wu\<close> the checked fee of a
  weight at a rate, \<open>BROADCAST_MIN\<close> the constant of that name.
\<close>

record bitcoin_lib =
  tx_weight :: "transaction \<Rightarrow> u64"
  txout_weight :: "tx_out \<Rightarrow> u64"
  amount_div_weight :: "u64 \<Rightarrow> u64 \<Rightarrow> u64"
  fee_wu :: "u64 \<Rightarrow> u64 \<Rightarrow> u64 option"
  BROADCAST_MIN :: u64
  compute_txid :: "transaction \<Rightarrow> txid"
  is_p2wpkh :: "script \<Rightarrow> bool"
  is_p2tr :: "script \<Rightarrow> bool"
  is_p2sh :: "script \<Rightarrow> bool"
  has_witness_version :: "script \<Rightarrow> bool"

type_synonym ('k, 'w) wallets = "('k \<times> 'w) list"

section \<open>Types of the crate\<close>

text \<open>The constructors carry a prefix where the node's own error type has the same name.\<close>

datatype agg_error =
    AggWalletNotFound
  | AggPersisterNotFound
  | AggPersistenceFailed
  | AggOnchainTxCreationFailed
  | AggOnchainTxSigningFailed
  | AggInsufficientFunds
  | AggInvalidFeeRate
  | AggInvalidQuantity
  | AggNoSpendableOutputs
  | AggCoinSelectionFailed
  | AggWalletOperationFailed
  | AggUtxoNotFoundLocally outpoint
  | AggTransactionNotFound
  | AggTransactionAlreadyConfirmed
  | AggWalletAlreadyExists
  | AggCannotRemovePrimary

record utxo_psbt_info =
  up_outpoint :: outpoint
  up_psbt_input :: psbt_input
  up_weight :: u64
  up_is_primary :: bool

datatype coin_selection_algorithm = BranchAndBound | LargestFirst | OldestFirst | SingleRandomDraw

section \<open>Shared list functions\<close>

text \<open>\<open>slice.get(i)\<close>.\<close>

definition nth_opt :: "'a list \<Rightarrow> nat \<Rightarrow> 'a option" where
  "nth_opt xs i = (if i < length xs then Some (xs ! i) else None)"

text \<open>\<open>try_fold\<close> with a checked sum: \<open>err\<close> on overflow.\<close>

fun try_sum :: "'e \<Rightarrow> u64 \<Rightarrow> u64 list \<Rightarrow> (u64, 'e) result" where
  "try_sum err acc [] = Inr acc"
| "try_sum err acc (v # vs) =
     (case checked_add acc v of None \<Rightarrow> Inl err | Some t \<Rightarrow> try_sum err t vs)"

text \<open>\<open>find_map\<close>.\<close>

fun find_map :: "('a \<Rightarrow> 'b option) \<Rightarrow> 'a list \<Rightarrow> 'b option" where
  "find_map f [] = None"
| "find_map f (x # xs) = (case f x of Some y \<Rightarrow> Some y | None \<Rightarrow> find_map f xs)"

text \<open>A loop that stops at the first error.\<close>

fun try_map :: "('a \<Rightarrow> ('b, 'e) result) \<Rightarrow> 'a list \<Rightarrow> ('b list, 'e) result" where
  "try_map f [] = Inr []"
| "try_map f (x # xs) = and_then (f x) (\<lambda>y. and_then (try_map f xs) (\<lambda>ys. Inr (y # ys)))"

abbreviation sats :: "u64 list \<Rightarrow> nat" where
  "sats vs \<equiv> sum_list (map unat vs)"

lemma try_sum_iff:
  "try_sum err acc vs = Inr s \<longleftrightarrow> unat s = unat acc + sats vs"
proof (induction vs arbitrary: acc)
  case Nil
  show ?case
    by (auto simp: word_unat_eq_iff)
next
  case (Cons v vs)
  show ?case
  proof (cases "checked_add acc v")
    case None
    then have "2 ^ 64 \<le> unat acc + unat v"
      by (simp add: checked_add_None)
    moreover have "unat s < 2 ^ 64"
      using unsigned_less [of s, where 'a = nat] by simp
    ultimately show ?thesis
      using None by simp
  next
    case (Some t)
    then have "unat t = unat acc + unat v"
      by (simp add: checked_add_Some)
    with Some Cons.IH [of t] show ?thesis
      by (simp add: add.assoc)
  qed
qed

lemma try_sum_Inl: "try_sum err acc vs = Inl e \<Longrightarrow> e = err"
  by (induction vs arbitrary: acc) (auto split: option.splits)

lemma find_map_Some: "find_map f xs = Some y \<Longrightarrow> \<exists>x \<in> set xs. f x = Some y"
  by (induction xs) (auto split: option.splits)

lemma find_map_None: "find_map f xs = None \<longleftrightarrow> (\<forall>x \<in> set xs. f x = None)"
  by (induction xs) (auto split: option.splits)

lemma try_map_Inr: "try_map f xs = Inr ys \<longleftrightarrow> list_all2 (\<lambda>x y. f x = Inr y) xs ys"
  by (induction xs arbitrary: ys) (auto simp: list_all2_Cons1)

section \<open>A small instance\<close>

text \<open>
  A concrete wallet for examples: its outputs, the transactions it knows and the scripts of its
  internal keychain; and simple weight and fee arithmetic.
\<close>

type_synonym example_wallet = "local_output list \<times> (txid \<times> transaction) list \<times> script list"

definition example_view :: "example_wallet bdk_view" where
  "example_view =
     \<lparr>get_utxo = (\<lambda>(us, _, _) op. List.find (\<lambda>u. lo_outpoint u = op) us),
      get_tx = (\<lambda>(_, txs, _) i. map_of txs i),
      list_unspent = (\<lambda>(us, _, _). filter (\<lambda>u. \<not> lo_is_spent u) us),
      transactions = (\<lambda>(_, txs, _). map (\<lambda>(i, _). (i, CpUnconfirmed None)) txs),
      wallet_balance = (\<lambda>_. \<lparr>bal_confirmed = 0, bal_trusted_pending = 0, bal_untrusted_pending = 0, bal_immature = 0\<rparr>),
      derivation_of_spk = (\<lambda>(_, _, ss) s. if s \<in> set ss then Some (Internal, 0) else None),
      max_weight_to_satisfy = (\<lambda>_ _. Some 107),
      is_mine = (\<lambda>(us, _, ss) s. s \<in> set ss \<union> set (map (\<lambda>u. to_script (lo_txout u)) us)),
      calculate_fee = (\<lambda>_ _. None),
      wallet_sent_and_received = (\<lambda>_ _. (0, 0)),
      peek_script = (\<lambda>_ _ _. [])\<rparr>"

definition example_lib :: bitcoin_lib where
  "example_lib =
     \<lparr>tx_weight = (\<lambda>_. 400), txout_weight = (\<lambda>_. 124), amount_div_weight = (\<lambda>a w. a * 1000 div w),
      fee_wu = (\<lambda>r w. Some (r * w div 1000)), BROADCAST_MIN = 250, compute_txid = (\<lambda>_. Txid [0]),
      is_p2wpkh = (\<lambda>_. True), is_p2tr = (\<lambda>_. False), is_p2sh = (\<lambda>_. False),
      has_witness_version = (\<lambda>_. True)\<rparr>"

definition example_txout :: "u64 \<Rightarrow> u8 \<Rightarrow> tx_out" where
  "example_txout v s = \<lparr>to_value = v, to_script = [s]\<rparr>"

definition example_outpoint :: "u8 \<Rightarrow> outpoint" where
  "example_outpoint i = \<lparr>op_txid = Txid [i], op_vout = 0\<rparr>"

definition example_output :: "u8 \<Rightarrow> u64 \<Rightarrow> local_output" where
  "example_output i v = \<lparr>lo_outpoint = example_outpoint i, lo_txout = example_txout v i,
     lo_keychain = External, lo_is_spent = False, lo_derivation_index = 0\<rparr>"

definition example_tx :: "tx_in list \<Rightarrow> tx_out list \<Rightarrow> transaction" where
  "example_tx ins outs = \<lparr>tx_version = 2, lock_time = 0, tx_input = ins, tx_output = outs\<rparr>"

definition example_txin :: "u8 \<Rightarrow> tx_in" where
  "example_txin i = \<lparr>previous_output = example_outpoint i, script_sig = [], tx_sequence = 0, tx_witness = []\<rparr>"

text \<open>The wallet holds outputs 1 and 2 of 1000 and 5000 satoshi and knows script 9 as its change.\<close>

definition example_wallets :: "(nat, example_wallet) wallets" where
  "example_wallets = [(0, [example_output 1 1000, example_output 2 5000],
     [(Txid [1], example_tx [] [example_txout 1000 1]), (Txid [2], example_tx [] [example_txout 5000 2])], [[9]])]"

lemmas example_defs = example_view_def example_lib_def example_txout_def example_outpoint_def
  example_output_def example_tx_def example_txin_def example_wallets_def

end
