(* ===== verification/Agg_Utxo.thy ===== *)
theory Agg_Utxo
  imports Bdk_Types
begin

text \<open>
  Weights, preparation and selection of unspent outputs across the wallets of the aggregate:
  \<open>crates/bdk-wallet-aggregate/src/utxo.rs\<close>. The coin selection algorithms and the transaction
  builder of \<open>bdk_wallet\<close> are parameters.
\<close>

section \<open>Definitions\<close>

definition DUST_LIMIT_SATS :: u64 where
  "DUST_LIMIT_SATS = 546"

definition TX_ENVELOPE_WEIGHT :: u64 where
  "TX_ENVELOPE_WEIGHT = 42"

definition CONSERVATIVE_PAYMENT_OVERHEAD :: u64 where
  "CONSERVATIVE_PAYMENT_OVERHEAD = 246"

definition calculate_utxo_weight :: "bitcoin_lib \<Rightarrow> script \<Rightarrow> u64" where
  "calculate_utxo_weight B s =
     (if is_p2wpkh B s then 107 else if is_p2tr B s then 65 else if is_p2sh B s then 199 else 428)"

text \<open>The output an outpoint refers to, looked up in the transactions a wallet knows.\<close>

definition output_of :: "'w bdk_view \<Rightarrow> 'w \<Rightarrow> outpoint \<Rightarrow> tx_out option" where
  "output_of V w op =
     (case get_tx V w (op_txid op) of
        Some tx \<Rightarrow> nth_opt (tx_output tx) (unat (op_vout op))
      | None \<Rightarrow> None)"

definition satisfaction_weight_in :: "'w bdk_view \<Rightarrow> outpoint \<Rightarrow> 'w \<Rightarrow> u64 option" where
  "satisfaction_weight_in V op w =
     (let keychain =
            (case get_utxo V w op of
               Some utxo \<Rightarrow> Some (lo_keychain utxo)
             | None \<Rightarrow>
                 Option.bind (output_of V w op) (\<lambda>txout.
                   map_option fst (derivation_of_spk V w (to_script txout))))
      in Option.bind keychain (max_weight_to_satisfy V w))"

definition satisfaction_weight_for_outpoint :: "'w bdk_view \<Rightarrow> outpoint \<Rightarrow> ('k, 'w) wallets \<Rightarrow> u64 option" where
  "satisfaction_weight_for_outpoint V op ws = find_map (\<lambda>(_, w). satisfaction_weight_in V op w) ws"

definition utxo_weight :: "bitcoin_lib \<Rightarrow> 'w bdk_view \<Rightarrow> ('k, 'w) wallets \<Rightarrow> local_output \<Rightarrow> u64" where
  "utxo_weight B V ws utxo =
     (case satisfaction_weight_for_outpoint V (lo_outpoint utxo) ws of
        Some weight \<Rightarrow> weight
      | None \<Rightarrow> calculate_utxo_weight B (to_script (lo_txout utxo)))"

definition prepare_utxo ::
    "bitcoin_lib \<Rightarrow> 'w bdk_view \<Rightarrow> ('k, 'w) wallets \<Rightarrow> 'k \<Rightarrow> local_output \<Rightarrow> (utxo_psbt_info, agg_error) result" where
  "prepare_utxo B V ws primary_key utxo =
     (let is_primary = (case map_of ws primary_key of
                          Some w \<Rightarrow> get_utxo V w (lo_outpoint utxo) \<noteq> None
                        | None \<Rightarrow> False);
          weight = utxo_weight B V ws utxo;
          psbt_input = psbt_input_default\<lparr>witness_utxo := Some (lo_txout utxo)\<rparr>
      in case find_map (\<lambda>(_, w). get_tx V w (op_txid (lo_outpoint utxo))) ws of
           Some tx \<Rightarrow>
             Inr \<lparr>up_outpoint = lo_outpoint utxo,
                  up_psbt_input = psbt_input\<lparr>non_witness_utxo := Some tx\<rparr>,
                  up_weight = weight, up_is_primary = is_primary\<rparr>
         | None \<Rightarrow> Inl (AggUtxoNotFoundLocally (lo_outpoint utxo)))"

definition prepare_utxos_for_psbt ::
    "bitcoin_lib \<Rightarrow> 'w bdk_view \<Rightarrow> local_output list \<Rightarrow> ('k, 'w) wallets \<Rightarrow> 'k
       \<Rightarrow> (utxo_psbt_info list, agg_error) result" where
  "prepare_utxos_for_psbt B V utxos ws primary_key = try_map (prepare_utxo B V ws primary_key) utxos"

definition find_unspent :: "'w bdk_view \<Rightarrow> ('k, 'w) wallets \<Rightarrow> outpoint \<Rightarrow> local_output option" where
  "find_unspent V ws op =
     find_map (\<lambda>(_, w). case get_utxo V w op of
                          Some u \<Rightarrow> if \<not> lo_is_spent u then Some u else None
                        | None \<Rightarrow> None) ws"

definition prepare_outpoints_for_psbt ::
    "bitcoin_lib \<Rightarrow> 'w bdk_view \<Rightarrow> outpoint list \<Rightarrow> ('k, 'w) wallets \<Rightarrow> 'k
       \<Rightarrow> (utxo_psbt_info list, agg_error) result" where
  "prepare_outpoints_for_psbt B V outpoints ws primary_key =
     (let utxos = List.map_filter (find_unspent V ws) outpoints in
      if length utxos \<noteq> length outpoints then Inl AggWalletOperationFailed
      else prepare_utxos_for_psbt B V utxos ws primary_key)"

text \<open>The two ways of adding an input to a transaction builder; both can fail.\<close>

record 'b tx_builder_ops =
  add_utxo :: "'b \<Rightarrow> outpoint \<Rightarrow> 'b option"
  add_foreign_utxo_with_sequence :: "'b \<Rightarrow> outpoint \<Rightarrow> psbt_input \<Rightarrow> u64 \<Rightarrow> u32 \<Rightarrow> 'b option"

fun add_utxos_to_tx_builder ::
    "'b tx_builder_ops \<Rightarrow> 'b \<Rightarrow> utxo_psbt_info list \<Rightarrow> ('b, agg_error) result" where
  "add_utxos_to_tx_builder T b [] = Inr b"
| "add_utxos_to_tx_builder T b (info # infos) =
     (case (if up_is_primary info then add_utxo T b (up_outpoint info)
            else add_foreign_utxo_with_sequence T b (up_outpoint info) (up_psbt_input info)
                   (up_weight info) ENABLE_RBF_NO_LOCKTIME) of
        None \<Rightarrow> Inl AggOnchainTxCreationFailed
      | Some b' \<Rightarrow> add_utxos_to_tx_builder T b' infos)"

section \<open>Coin selection\<close>

datatype bdk_utxo = BdkLocal local_output | BdkForeign outpoint

fun local_of :: "bdk_utxo \<Rightarrow> local_output option" where
  "local_of (BdkLocal u) = Some u"
| "local_of (BdkForeign _) = None"

text \<open>
  The coin selection of \<open>bdk_wallet\<close>: algorithm, weighted candidates, fee rate, target and drain
  script to the selected outputs, or a failure.
\<close>

type_synonym coin_select =
  "coin_selection_algorithm \<Rightarrow> (u64 \<times> bdk_utxo) list \<Rightarrow> u64 \<Rightarrow> u64 \<Rightarrow> script \<Rightarrow> bdk_utxo list option"

record ('k, 'w) selection_request =
  target_amount :: u64
  available_utxos :: "local_output list"
  sr_fee_rate :: u64
  sr_algorithm :: coin_selection_algorithm
  drain_script :: script
  excluded_outpoints :: "outpoint list"
  sr_wallets :: "('k, 'w) wallets"
  recipient_script :: "script option"
  include_payment_overhead :: bool

definition recipient_output_weight :: "bitcoin_lib \<Rightarrow> script \<Rightarrow> u64" where
  "recipient_output_weight B s = txout_weight B \<lparr>to_value = 0, to_script = s\<rparr>"

definition selection_target :: "bitcoin_lib \<Rightarrow> ('k, 'w) selection_request \<Rightarrow> (u64, agg_error) result" where
  "selection_target B req =
     (if include_payment_overhead req then
        (let payment_overhead = (case recipient_script req of
                                   Some s \<Rightarrow> TX_ENVELOPE_WEIGHT + recipient_output_weight B s
                                 | None \<Rightarrow> CONSERVATIVE_PAYMENT_OVERHEAD)
         in case fee_wu B (sr_fee_rate req) payment_overhead of
              None \<Rightarrow> Inl AggInvalidFeeRate
            | Some base_fee \<Rightarrow>
                (case checked_add (target_amount req) base_fee of
                   None \<Rightarrow> Inl AggInsufficientFunds
                 | Some t \<Rightarrow> Inr t))
      else Inr (target_amount req))"

definition select_utxos_with_algorithm_inner ::
    "bitcoin_lib \<Rightarrow> 'w bdk_view \<Rightarrow> coin_select \<Rightarrow> ('k, 'w) selection_request
       \<Rightarrow> (outpoint list, agg_error) result" where
  "select_utxos_with_algorithm_inner B V sel req =
     (let safe_utxos = filter (\<lambda>u. lo_outpoint u \<notin> set (excluded_outpoints req)) (available_utxos req) in
      if safe_utxos = [] then Inl AggNoSpendableOutputs
      else
        (let weighted_utxos = map (\<lambda>u. (utxo_weight B V (sr_wallets req) u, BdkLocal u)) safe_utxos;
             total_available = fold (\<lambda>u acc. saturating_add acc (to_value (lo_txout u))) safe_utxos 0
         in if total_available < target_amount req then Inl AggInsufficientFunds
            else
              and_then (selection_target B req) (\<lambda>target.
                case sel (sr_algorithm req) weighted_utxos (sr_fee_rate req) target (drain_script req) of
                  None \<Rightarrow> Inl AggCoinSelectionFailed
                | Some selected \<Rightarrow> Inr (map lo_outpoint (List.map_filter local_of selected)))))"

definition select_utxos_with_algorithm ::
    "bitcoin_lib \<Rightarrow> 'w bdk_view \<Rightarrow> coin_select \<Rightarrow> ('k, 'w) selection_request
       \<Rightarrow> (outpoint list, agg_error) result" where
  "select_utxos_with_algorithm B V sel req = select_utxos_with_algorithm_inner B V sel req"

definition select_utxos_for_deficit ::
    "bitcoin_lib \<Rightarrow> 'w bdk_view \<Rightarrow> coin_select \<Rightarrow> u64 \<Rightarrow> local_output list \<Rightarrow> u64 \<Rightarrow> coin_selection_algorithm
       \<Rightarrow> script \<Rightarrow> outpoint list \<Rightarrow> ('k, 'w) wallets \<Rightarrow> (outpoint list, agg_error) result" where
  "select_utxos_for_deficit B V sel target available fee_rate algorithm drain excluded ws =
     select_utxos_with_algorithm_inner B V sel
       \<lparr>target_amount = target, available_utxos = available, sr_fee_rate = fee_rate,
        sr_algorithm = algorithm, drain_script = drain, excluded_outpoints = excluded,
        sr_wallets = ws, recipient_script = None, include_payment_overhead = False\<rparr>"

section \<open>Lemmas\<close>

lemma fold_saturating_add:
  "unat (fold (\<lambda>u acc. saturating_add acc (f u)) us a) = min (unat a + sats (map f us)) (2 ^ 64 - 1)"
proof (induction us arbitrary: a)
  case Nil
  have "unat a < 2 ^ 64"
    using unsigned_less [of a, where 'a = nat] by simp
  then show ?case
    by simp
next
  case (Cons u us)
  then show ?case
    by (simp add: unat_saturating_add)
qed

lemma map_filter_all:
  "length (List.map_filter f xs) = length xs \<longleftrightarrow> (\<forall>x \<in> set xs. f x \<noteq> None)"
proof (induction xs)
  case (Cons x xs)
  have "length (List.map_filter f xs) \<le> length xs"
    by (simp add: map_filter_def)
  with Cons show ?case
    by (cases "f x") (auto simp: map_filter_simps)
qed (simp add: map_filter_simps)

lemma map_filter_the:
  "\<forall>x \<in> set xs. f x \<noteq> None \<Longrightarrow> List.map_filter f xs = map (\<lambda>x. the (f x)) xs"
  by (induction xs) (auto simp: map_filter_simps)

lemma find_unspent_Some:
  "find_unspent V ws op = Some u \<Longrightarrow> \<exists>(k, w) \<in> set ws. get_utxo V w op = Some u \<and> \<not> lo_is_spent u"
  by (fastforce simp: find_unspent_def dest!: find_map_Some split: option.splits if_splits)

lemma list_all2_right: "list_all2 P xs ys \<Longrightarrow> y \<in> set ys \<Longrightarrow> \<exists>x \<in> set xs. P x y"
  by (induction rule: list_all2_induct) auto

lemma prepare_utxo_Inr:
  assumes "prepare_utxo B V ws primary u = Inr info"
  shows "up_outpoint info = lo_outpoint u \<and> witness_utxo (up_psbt_input info) = Some (lo_txout u)"
    and "\<exists>tx. non_witness_utxo (up_psbt_input info) = Some tx
      \<and> (\<exists>(k, w) \<in> set ws. get_tx V w (op_txid (lo_outpoint u)) = Some tx)"
    and "up_is_primary info = (case map_of ws primary of
      Some w \<Rightarrow> get_utxo V w (lo_outpoint u) \<noteq> None | None \<Rightarrow> False)"
proof -
  obtain tx where tx: "find_map (\<lambda>(_, w). get_tx V w (op_txid (lo_outpoint u))) ws = Some tx"
    using assms by (auto simp: prepare_utxo_def Let_def split: option.splits)
  with assms show "up_outpoint info = lo_outpoint u \<and> witness_utxo (up_psbt_input info) = Some (lo_txout u)"
      "up_is_primary info = (case map_of ws primary of
        Some w \<Rightarrow> get_utxo V w (lo_outpoint u) \<noteq> None | None \<Rightarrow> False)"
    by (auto simp: prepare_utxo_def Let_def)
  have "non_witness_utxo (up_psbt_input info) = Some tx"
    using assms tx by (auto simp: prepare_utxo_def Let_def)
  with find_map_Some [OF tx] show "\<exists>tx. non_witness_utxo (up_psbt_input info) = Some tx
      \<and> (\<exists>(k, w) \<in> set ws. get_tx V w (op_txid (lo_outpoint u)) = Some tx)"
    by auto
qed

text \<open>What preparing an outpoint of the list gives, outpoint by outpoint.\<close>

definition prepared_as :: "'w bdk_view \<Rightarrow> ('k, 'w) wallets \<Rightarrow> 'k \<Rightarrow> utxo_psbt_info \<Rightarrow> bool" where
  "prepared_as V ws primary info \<longleftrightarrow>
     (\<exists>u. find_unspent V ws (up_outpoint info) = Some u \<and> \<not> lo_is_spent u
        \<and> witness_utxo (up_psbt_input info) = Some (lo_txout u)
        \<and> (\<exists>(k, w) \<in> set ws. non_witness_utxo (up_psbt_input info) = get_tx V w (op_txid (up_outpoint info)))
        \<and> non_witness_utxo (up_psbt_input info) \<noteq> None
        \<and> up_is_primary info = (case map_of ws primary of
             Some w \<Rightarrow> get_utxo V w (up_outpoint info) \<noteq> None | None \<Rightarrow> False))"

lemma prepare_found:
  assumes "\<forall>w op u. get_utxo V w op = Some u \<longrightarrow> lo_outpoint u = op"
    and "find_unspent V ws op = Some u" and "prepare_utxo B V ws primary u = Inr info"
  shows "up_outpoint info = op \<and> prepared_as V ws primary info"
proof -
  have u: "lo_outpoint u = op" "\<not> lo_is_spent u"
    using find_unspent_Some [OF assms(2)] assms(1) by auto
  obtain tx k w where "non_witness_utxo (up_psbt_input info) = Some tx" "(k, w) \<in> set ws"
      "get_tx V w (op_txid (lo_outpoint u)) = Some tx"
    using prepare_utxo_Inr(2) [OF assms(3)] by auto
  then show ?thesis
    using prepare_utxo_Inr(1,3) [OF assms(3)] assms(2) u
    by (auto simp: prepared_as_def intro!: bexI [of _ "(k, w)"] cong: option.case_cong)
qed

lemma prepare_outpoints_pairs:
  assumes "\<forall>w op u. get_utxo V w op = Some u \<longrightarrow> lo_outpoint u = op"
    and "prepare_outpoints_for_psbt B V outpoints ws primary = Inr infos"
  shows "list_all2 (\<lambda>op info. up_outpoint info = op \<and> prepared_as V ws primary info) outpoints infos"
proof -
  let ?utxos = "List.map_filter (find_unspent V ws) outpoints"
  have len: "length ?utxos = length outpoints"
    and all: "list_all2 (\<lambda>u info. prepare_utxo B V ws primary u = Inr info) ?utxos infos"
    using assms(2)
    by (auto simp: prepare_outpoints_for_psbt_def prepare_utxos_for_psbt_def try_map_Inr Let_def split: if_splits)
  then have found: "\<forall>op \<in> set outpoints. find_unspent V ws op \<noteq> None"
    by (simp add: map_filter_all)
  then have utxos: "?utxos = map (\<lambda>op. the (find_unspent V ws op)) outpoints"
    by (rule map_filter_the)
  have "list_all2 (\<lambda>op info. op \<in> set outpoints \<and> prepare_utxo B V ws primary (the (find_unspent V ws op)) = Inr info)
      outpoints infos"
    using all unfolding utxos list_all2_map1 by (auto simp: list_all2_conv_all_nth)
  then show ?thesis
    by (rule list_all2_mono) (use found prepare_found [OF assms(1)] in fastforce)
qed

section \<open>Properties\<close>

text \<open>
  C17: a successful selection returns only available outputs that are not excluded, and together
  they are worth at least the requested amount plus the fee of the transaction's fixed part when
  that is to be included. It relies on the coin selection of \<open>bdk_wallet\<close> choosing among its
  candidates and reaching the target it is given.
\<close>

theorem selection_covers_target:
  assumes "\<And>a ws r t d out. sel a ws r t d = Some out \<Longrightarrow> set out \<subseteq> snd ` set ws"
    and "\<And>a ws r t d out. sel a ws r t d = Some out \<Longrightarrow>
           unat t \<le> sats (map (\<lambda>u. to_value (lo_txout u)) (List.map_filter local_of out))"
    and "select_utxos_with_algorithm_inner B V sel req = Inr outpoints"
  shows "\<exists>us. outpoints = map lo_outpoint us \<and> set us \<subseteq> set (available_utxos req)
    \<and> set outpoints \<inter> set (excluded_outpoints req) = {}
    \<and> unat (target_amount req)
        + (if include_payment_overhead req
           then unat (the (fee_wu B (sr_fee_rate req)
                  (case recipient_script req of
                     Some s \<Rightarrow> TX_ENVELOPE_WEIGHT + recipient_output_weight B s
                   | None \<Rightarrow> CONSERVATIVE_PAYMENT_OVERHEAD)))
           else 0)
      \<le> sats (map (\<lambda>u. to_value (lo_txout u)) us)"
proof -
  let ?safe = "filter (\<lambda>u. lo_outpoint u \<notin> set (excluded_outpoints req)) (available_utxos req)"
  let ?ws = "map (\<lambda>u. (utxo_weight B V (sr_wallets req) u, BdkLocal u)) ?safe"
  obtain target out where t: "selection_target B req = Inr target"
      and out: "sel (sr_algorithm req) ?ws (sr_fee_rate req) target (drain_script req) = Some out"
      and res: "outpoints = map lo_outpoint (List.map_filter local_of out)"
    using assms(3)
    by (auto simp: select_utxos_with_algorithm_inner_def Let_def split: if_splits option.splits)
  let ?us = "List.map_filter local_of out"
  have "set ?us \<subseteq> set ?safe"
    using assms(1) [OF out] by (fastforce simp: map_filter_def elim!: local_of.elims)
  moreover have "unat (target_amount req) + (if include_payment_overhead req
           then unat (the (fee_wu B (sr_fee_rate req)
                  (case recipient_script req of
                     Some s \<Rightarrow> TX_ENVELOPE_WEIGHT + recipient_output_weight B s
                   | None \<Rightarrow> CONSERVATIVE_PAYMENT_OVERHEAD)))
           else 0) = unat target"
    using t by (auto simp: selection_target_def Let_def checked_add_Some split: if_splits option.splits)
  ultimately show ?thesis
    using assms(2) [OF out] res by (intro exI [of _ ?us]) auto
qed

text \<open>
  C18: preparing outpoints succeeds only when every one of them is an unspent output of some
  wallet. The result has one entry per outpoint in the same order, each with the spent output and
  the transaction that created it, and marked as primary exactly when the primary wallet knows the
  output. It relies on \<open>get_utxo\<close> returning the output it was asked for.
\<close>

theorem prepared_outpoints:
  assumes "\<forall>w op u. get_utxo V w op = Some u \<longrightarrow> lo_outpoint u = op"
    and "prepare_outpoints_for_psbt B V outpoints ws primary = Inr infos"
  shows "map up_outpoint infos = outpoints \<and> (\<forall>info \<in> set infos. prepared_as V ws primary info)"
  using prepare_outpoints_pairs [OF assms] by (induction rule: list_all2_induct) auto

text \<open>An instance with a selection that takes every candidate.\<close>

definition example_select :: coin_select where
  "example_select a ws r t d =
     (if unat t \<le> sats (map (\<lambda>u. to_value (lo_txout u)) (List.map_filter local_of (map snd ws)))
      then Some (map snd ws) else None)"

definition example_request :: "(nat, example_wallet) selection_request" where
  "example_request = \<lparr>target_amount = 4000, available_utxos = [example_output 1 1000, example_output 2 5000],
     sr_fee_rate = 250, sr_algorithm = LargestFirst, drain_script = [], excluded_outpoints = [example_outpoint 1],
     sr_wallets = example_wallets, recipient_script = None, include_payment_overhead = True\<rparr>"

theorem selection_covers_target_witness:
  "\<exists>us. [example_outpoint 2] = map lo_outpoint us \<and> set us \<subseteq> set (available_utxos example_request)
     \<and> set [example_outpoint 2] \<inter> set (excluded_outpoints example_request) = {}
     \<and> 4061 \<le> sats (map (\<lambda>u. to_value (lo_txout u)) us)"
proof -
  have run: "select_utxos_with_algorithm_inner example_lib example_view example_select example_request
      = Inr [example_outpoint 2]"
    by (simp add: select_utxos_with_algorithm_inner_def selection_target_def example_request_def example_select_def
        example_defs map_filter_simps saturating_add_def checked_add_def CONSERVATIVE_PAYMENT_OVERHEAD_def)
  have "example_select a ws r t d = Some out \<Longrightarrow> set out \<subseteq> snd ` set ws"
      "example_select a ws r t d = Some out \<Longrightarrow>
         unat t \<le> sats (map (\<lambda>u. to_value (lo_txout u)) (List.map_filter local_of out))" for a ws r t d out
    by (auto simp: example_select_def split: if_splits)
  from selection_covers_target [OF this run] show ?thesis
    by (simp add: example_request_def example_lib_def CONSERVATIVE_PAYMENT_OVERHEAD_def)
qed

theorem prepared_outpoints_witness:
  "\<exists>infos. prepare_outpoints_for_psbt example_lib example_view [example_outpoint 2, example_outpoint 1]
      example_wallets 0 = Inr infos \<and> map up_outpoint infos = [example_outpoint 2, example_outpoint 1]"
proof -
  have "\<not> isl (prepare_outpoints_for_psbt example_lib example_view [example_outpoint 2, example_outpoint 1]
      example_wallets 0)"
    by code_simp
  then obtain infos where run: "prepare_outpoints_for_psbt example_lib example_view
      [example_outpoint 2, example_outpoint 1] example_wallets 0 = Inr infos"
    by (metis sum.collapse(2))
  have law: "\<forall>w op u. get_utxo example_view w op = Some u \<longrightarrow> lo_outpoint u = op"
    by (auto simp: example_view_def dest: find_Some_in_set)
  from prepared_outpoints [OF law run] run show ?thesis
    by simp
qed

end
