(* ===== verification/Agg_Signing.thy ===== *)
theory Agg_Signing
  imports Bdk_Types
begin

text \<open>
  Signing with every wallet of the aggregate: \<open>crates/bdk-wallet-aggregate/src/signing.rs\<close>.
  \<open>Wallet::sign\<close>, \<open>Psbt::from_unsigned_tx\<close> and \<open>Psbt::extract_tx\<close> are parameters.
\<close>

section \<open>Definitions\<close>

datatype extract_result = ExtractOk transaction | MissingInputValue transaction | ExtractError

record 'w signing_lib =
  wallet_sign :: "'w \<Rightarrow> psbt \<Rightarrow> psbt"
  from_unsigned_tx :: "transaction \<Rightarrow> psbt option"
  extract_tx :: "psbt \<Rightarrow> extract_result"

text \<open>Fill in what is missing of the spent output and of the transaction that created it.\<close>

definition fill_witness_utxo :: "tx_out \<Rightarrow> psbt_input \<Rightarrow> psbt_input" where
  "fill_witness_utxo txout inp =
     (if witness_utxo inp = None then inp\<lparr>witness_utxo := Some txout\<rparr> else inp)"

definition fill_non_witness_utxo :: "transaction option \<Rightarrow> psbt_input \<Rightarrow> psbt_input" where
  "fill_non_witness_utxo tx inp =
     (if non_witness_utxo inp = None \<and> tx \<noteq> None then inp\<lparr>non_witness_utxo := tx\<rparr> else inp)"

fun populate_from :: "'w bdk_view \<Rightarrow> outpoint \<Rightarrow> psbt_input \<Rightarrow> ('k, 'w) wallets \<Rightarrow> psbt_input" where
  "populate_from V op inp [] = inp"
| "populate_from V op inp ((k, w) # ws) =
     (case get_utxo V w op of
        Some utxo \<Rightarrow> fill_non_witness_utxo (get_tx V w (op_txid op)) (fill_witness_utxo (lo_txout utxo) inp)
      | None \<Rightarrow>
          (case get_tx V w (op_txid op) of
             Some tx \<Rightarrow>
               (case nth_opt (tx_output tx) (unat (op_vout op)) of
                  Some txout \<Rightarrow> fill_non_witness_utxo (Some tx) (fill_witness_utxo txout inp)
                | None \<Rightarrow> populate_from V op inp ws)
           | None \<Rightarrow> populate_from V op inp ws))"

definition populate_input :: "'w bdk_view \<Rightarrow> ('k, 'w) wallets \<Rightarrow> tx_in \<Rightarrow> psbt_input \<Rightarrow> psbt_input" where
  "populate_input V ws txin inp =
     (if witness_utxo inp \<noteq> None \<and> non_witness_utxo inp \<noteq> None then inp
      else populate_from V (previous_output txin) inp ws)"

fun populate_loop :: "'w bdk_view \<Rightarrow> ('k, 'w) wallets \<Rightarrow> tx_in list \<Rightarrow> psbt_input list \<Rightarrow> psbt_input list" where
  "populate_loop V ws [] inps = inps"
| "populate_loop V ws (txin # txins) [] =
     populate_input V ws txin psbt_input_default # populate_loop V ws txins []"
| "populate_loop V ws (txin # txins) (inp # inps) =
     populate_input V ws txin inp # populate_loop V ws txins inps"

definition populate_psbt_inputs_from_wallets :: "'w bdk_view \<Rightarrow> psbt \<Rightarrow> ('k, 'w) wallets \<Rightarrow> psbt" where
  "populate_psbt_inputs_from_wallets V p ws =
     p\<lparr>psbt_inputs := populate_loop V ws (tx_input (unsigned_tx p)) (psbt_inputs p)\<rparr>"

definition is_owned_input :: "'w bdk_view \<Rightarrow> psbt \<Rightarrow> nat \<Rightarrow> ('k, 'w) wallets \<Rightarrow> bool" where
  "is_owned_input V p i ws =
     (let op = previous_output (tx_input (unsigned_tx p) ! i);
          inp = psbt_inputs p ! i;
          prevout = (case witness_utxo inp of
                       Some txout \<Rightarrow> Some txout
                     | None \<Rightarrow> Option.bind (non_witness_utxo inp)
                                 (\<lambda>tx. nth_opt (tx_output tx) (unat (op_vout op))))
      in list_ex (\<lambda>(_, w). get_utxo V w op \<noteq> None
           \<or> (case prevout of Some txout \<Rightarrow> is_mine V w (to_script txout) | None \<Rightarrow> False)) ws)"

definition is_finalized :: "psbt_input \<Rightarrow> bool" where
  "is_finalized inp \<longleftrightarrow>
     (case final_script_sig inp of Some s \<Rightarrow> s \<noteq> [] | None \<Rightarrow> False)
     \<or> (case final_script_witness inp of Some w \<Rightarrow> w \<noteq> [] | None \<Rightarrow> False)"

definition sign_psbt_all_wallets ::
    "'w bdk_view \<Rightarrow> 'w signing_lib \<Rightarrow> psbt \<Rightarrow> ('k, 'w) wallets \<Rightarrow> (transaction, agg_error) result" where
  "sign_psbt_all_wallets V L p ws =
     (if length (tx_input (unsigned_tx p)) < length (psbt_inputs p) then Inl AggOnchainTxSigningFailed
      else
        (let p = populate_psbt_inputs_from_wallets V p ws;
             owned = map (\<lambda>i. is_owned_input V p i ws) [0 ..< length (psbt_inputs p)];
             p = fold (\<lambda>(_, w) p. wallet_sign L w p) ws p
         in case List.find (\<lambda>i. owned ! i \<and> \<not> is_finalized (psbt_inputs p ! i)) [0 ..< length (psbt_inputs p)] of
              Some i \<Rightarrow> Inl AggOnchainTxSigningFailed
            | None \<Rightarrow>
                (case extract_tx L p of
                   ExtractOk tx \<Rightarrow> Inr tx
                 | MissingInputValue tx \<Rightarrow> Inr tx
                 | ExtractError \<Rightarrow> Inl AggOnchainTxSigningFailed)))"

definition sign_owned_inputs ::
    "'w bdk_view \<Rightarrow> 'w signing_lib \<Rightarrow> transaction \<Rightarrow> ('k, 'w) wallets \<Rightarrow> (transaction, agg_error) result" where
  "sign_owned_inputs V L tx ws =
     (case from_unsigned_tx L tx of
        None \<Rightarrow> Inl AggOnchainTxSigningFailed
      | Some p \<Rightarrow> sign_psbt_all_wallets V L p ws)"

text \<open>A signer for examples: it finalizes every input.\<close>

definition example_signer :: "example_wallet signing_lib" where
  "example_signer =
     \<lparr>wallet_sign = (\<lambda>_ p. p\<lparr>psbt_inputs := map (\<lambda>i. i\<lparr>final_script_witness := Some [[1]]\<rparr>) (psbt_inputs p)\<rparr>),
      from_unsigned_tx = (\<lambda>tx. Some \<lparr>unsigned_tx = tx, psbt_inputs = map (\<lambda>_. psbt_input_default) (tx_input tx)\<rparr>),
      extract_tx = (\<lambda>p. ExtractOk (unsigned_tx p))\<rparr>"

definition example_psbt :: psbt where
  "example_psbt = \<lparr>unsigned_tx = example_tx [example_txin 1] [example_txout 900 7], psbt_inputs = []\<rparr>"

section \<open>Lemmas\<close>

text \<open>Populating only adds: what an input already says about the spent output is kept.\<close>

definition extends_input :: "psbt_input \<Rightarrow> psbt_input \<Rightarrow> bool" where
  "extends_input a b \<longleftrightarrow> (witness_utxo a \<noteq> None \<longrightarrow> witness_utxo b = witness_utxo a)
     \<and> (non_witness_utxo a \<noteq> None \<longrightarrow> non_witness_utxo b = non_witness_utxo a)
     \<and> final_script_sig b = final_script_sig a \<and> final_script_witness b = final_script_witness a"

lemma extends_input_refl [simp]: "extends_input a a"
  by (simp add: extends_input_def)

lemma extends_input_trans: "extends_input a b \<Longrightarrow> extends_input b c \<Longrightarrow> extends_input a c"
  by (auto simp: extends_input_def)

lemma extends_fill [simp]:
  "extends_input inp (fill_witness_utxo txout inp)" "extends_input inp (fill_non_witness_utxo tx inp)"
  by (auto simp: extends_input_def fill_witness_utxo_def fill_non_witness_utxo_def)

lemma extends_populate_from: "extends_input inp (populate_from V op inp ws)"
  by (induction V op inp ws rule: populate_from.induct)
     (auto split: option.splits intro: extends_input_trans [OF extends_fill(1) extends_fill(2)])

lemma extends_populate_input: "extends_input inp (populate_input V ws txin inp)"
  by (simp add: populate_input_def extends_populate_from)

lemma length_populate_loop:
  "length inps \<le> length txins \<Longrightarrow> length (populate_loop V ws txins inps) = length txins"
  by (induction V ws txins inps rule: populate_loop.induct) auto

lemma nth_populate_loop:
  "i < length txins \<Longrightarrow> length inps \<le> length txins \<Longrightarrow>
     populate_loop V ws txins inps ! i
       = populate_input V ws (txins ! i) (if i < length inps then inps ! i else psbt_input_default)"
  by (induction V ws txins inps arbitrary: i rule: populate_loop.induct) (auto simp: nth_Cons' split: if_splits)

lemma find_upt_None: "List.find P [0 ..< n] = None \<longleftrightarrow> (\<forall>i < n. \<not> P i)"
  by (auto simp: find_None_iff)

lemma sign_fold_frame:
  assumes "\<forall>w p. unsigned_tx (wallet_sign L w p) = unsigned_tx p
      \<and> length (psbt_inputs (wallet_sign L w p)) = length (psbt_inputs p)"
  shows "unsigned_tx (fold (\<lambda>(_, w) p. wallet_sign L w p) ws p) = unsigned_tx p
    \<and> length (psbt_inputs (fold (\<lambda>(_, w) p. wallet_sign L w p) ws p)) = length (psbt_inputs p)"
  using assms by (induction ws arbitrary: p) auto

section \<open>Properties\<close>

text \<open>
  C19: a transaction is only returned when every input that one of the wallets owns has been
  finalized; inputs of others may stay unsigned. Before signing, each input has kept the data the
  caller supplied and got an entry even where the caller supplied none. It relies on
  \<open>Wallet::sign\<close> neither changing the unsigned transaction nor the number of inputs.
\<close>

theorem signing_complete:
  assumes "\<forall>w p. unsigned_tx (wallet_sign L w p) = unsigned_tx p
      \<and> length (psbt_inputs (wallet_sign L w p)) = length (psbt_inputs p)"
    and "sign_psbt_all_wallets V L p ws = Inr tx"
  shows "\<exists>p1 p2. p1 = populate_psbt_inputs_from_wallets V p ws \<and> unsigned_tx p2 = unsigned_tx p
    \<and> length (psbt_inputs p1) = length (tx_input (unsigned_tx p))
    \<and> (\<forall>i < length (psbt_inputs p). extends_input (psbt_inputs p ! i) (psbt_inputs p1 ! i))
    \<and> (\<forall>i < length (tx_input (unsigned_tx p)). is_owned_input V p1 i ws \<longrightarrow> is_finalized (psbt_inputs p2 ! i))
    \<and> extract_tx L p2 \<in> {ExtractOk tx, MissingInputValue tx}"
proof -
  let ?p1 = "populate_psbt_inputs_from_wallets V p ws"
  let ?p2 = "fold (\<lambda>(_, w) p. wallet_sign L w p) ws ?p1"
  have le: "length (psbt_inputs p) \<le> length (tx_input (unsigned_tx p))"
    using assms(2) by (auto simp: sign_psbt_all_wallets_def split: if_splits)
  then have len: "length (psbt_inputs ?p1) = length (tx_input (unsigned_tx p))"
    by (simp add: populate_psbt_inputs_from_wallets_def length_populate_loop)
  have frame: "unsigned_tx ?p2 = unsigned_tx p" "length (psbt_inputs ?p2) = length (psbt_inputs ?p1)"
    using sign_fold_frame [OF assms(1), of ws ?p1] by (simp_all add: populate_psbt_inputs_from_wallets_def)
  have ext: "extends_input (psbt_inputs p ! i) (psbt_inputs ?p1 ! i)" if "i < length (psbt_inputs p)" for i
    using that le by (simp add: populate_psbt_inputs_from_wallets_def nth_populate_loop extends_populate_input)
  have "List.find (\<lambda>i. map (\<lambda>i. is_owned_input V ?p1 i ws) [0 ..< length (psbt_inputs ?p1)] ! i
      \<and> \<not> is_finalized (psbt_inputs ?p2 ! i)) [0 ..< length (psbt_inputs ?p2)] = None"
    and ex: "extract_tx L ?p2 \<in> {ExtractOk tx, MissingInputValue tx}"
    using assms(2) le by (auto simp: sign_psbt_all_wallets_def Let_def split: option.splits extract_result.splits)
  then have "\<forall>i < length (tx_input (unsigned_tx p)). is_owned_input V ?p1 i ws \<longrightarrow> is_finalized (psbt_inputs ?p2 ! i)"
    by (simp add: find_upt_None frame(2) len)
  with frame len ext ex show ?thesis
    by blast
qed

lemma example_signer_frame:
  "\<forall>w p. unsigned_tx (wallet_sign example_signer w p) = unsigned_tx p
     \<and> length (psbt_inputs (wallet_sign example_signer w p)) = length (psbt_inputs p)"
  by (simp add: example_signer_def)

lemma example_signing:
  "sign_psbt_all_wallets example_view example_signer example_psbt example_wallets
     = Inr (unsigned_tx example_psbt)"
  "is_owned_input example_view (populate_psbt_inputs_from_wallets example_view example_psbt example_wallets)
     0 example_wallets"
  by code_simp+

theorem signing_complete_witness:
  "sign_psbt_all_wallets example_view example_signer example_psbt example_wallets
     = Inr (unsigned_tx example_psbt)
   \<and> (\<exists>p2 :: psbt. is_finalized (psbt_inputs p2 ! 0) \<and> unsigned_tx p2 = unsigned_tx example_psbt
        \<and> extract_tx example_signer p2 = ExtractOk (unsigned_tx example_psbt))"
proof -
  have "0 < length (tx_input (unsigned_tx example_psbt))"
    by (simp add: example_psbt_def example_defs)
  with signing_complete [OF example_signer_frame example_signing(1)] example_signing(2)
  have "\<exists>p2 :: psbt. is_finalized (psbt_inputs p2 ! 0) \<and> unsigned_tx p2 = unsigned_tx example_psbt"
    by blast
  then show ?thesis
    using example_signing(1) by (auto simp: example_signer_def)
qed

end
