(* ===== verification/Agg_Rbf.thy ===== *)
theory Agg_Rbf
  imports Agg_Utxo Agg_Signing
begin

text \<open>
  Replacing an unconfirmed transaction with inputs of several wallets:
  \<open>crates/bdk-wallet-aggregate/src/rbf.rs\<close>.
\<close>

section \<open>Definitions\<close>

record replacement_req =
  change_idx :: "nat option"
  recipient_value :: u64
  required_fee :: u64

definition minimum_replacement_fee_rate :: "bitcoin_lib \<Rightarrow> u64 \<Rightarrow> u64 \<Rightarrow> (u64, agg_error) result" where
  "minimum_replacement_fee_rate B original_fee original_weight =
     ok_or AggInvalidFeeRate (checked_add (amount_div_weight B original_fee original_weight) (BROADCAST_MIN B))"

fun get_input_value :: "'w bdk_view \<Rightarrow> outpoint \<Rightarrow> ('k, 'w) wallets \<Rightarrow> (u64, agg_error) result" where
  "get_input_value V op [] = Inl (AggUtxoNotFoundLocally op)"
| "get_input_value V op ((k, w) # ws) =
     (case get_utxo V w op of
        Some utxo \<Rightarrow> Inr (to_value (lo_txout utxo))
      | None \<Rightarrow>
          (case get_tx V w (op_txid op) of
             Some tx \<Rightarrow>
               (case nth_opt (tx_output tx) (unat (op_vout op)) of
                  Some txout \<Rightarrow> Inr (to_value txout)
                | None \<Rightarrow> get_input_value V op ws)
           | None \<Rightarrow> get_input_value V op ws))"

fun input_value_loop :: "'w bdk_view \<Rightarrow> ('k, 'w) wallets \<Rightarrow> u64 \<Rightarrow> tx_in list \<Rightarrow> (u64, agg_error) result" where
  "input_value_loop V ws acc [] = Inr acc"
| "input_value_loop V ws acc (i # is) =
     and_then (get_input_value V (previous_output i) ws) (\<lambda>v.
     and_then (ok_or AggOnchainTxCreationFailed (checked_add acc v)) (\<lambda>acc.
     input_value_loop V ws acc is))"

definition original_input_value :: "'w bdk_view \<Rightarrow> transaction \<Rightarrow> ('k, 'w) wallets \<Rightarrow> (u64, agg_error) result" where
  "original_input_value V tx ws = input_value_loop V ws 0 (tx_input tx)"

definition rbf_txin :: "outpoint \<Rightarrow> tx_in" where
  "rbf_txin op = \<lparr>previous_output = op, script_sig = [], tx_sequence = ENABLE_RBF_NO_LOCKTIME, tx_witness = []\<rparr>"

definition replacement_inputs :: "transaction \<Rightarrow> utxo_psbt_info list \<Rightarrow> tx_in list" where
  "replacement_inputs tx extra =
     map (\<lambda>i. rbf_txin (previous_output i)) (tx_input tx) @ map (\<lambda>u. rbf_txin (up_outpoint u)) extra"

definition estimate_tx_weight ::
    "bitcoin_lib \<Rightarrow> 'w bdk_view \<Rightarrow> ('k, 'w) wallets \<Rightarrow> tx_in list \<Rightarrow> tx_out list \<Rightarrow> u64" where
  "estimate_tx_weight B V ws ins outs =
     (let utx = \<lparr>tx_version = 2, lock_time = 0, tx_input = ins, tx_output = outs\<rparr>;
          witness_overhead = 2 + of_nat (length ins);
          satisfaction = fold (\<lambda>i weight. weight +
            (case satisfaction_weight_for_outpoint V (previous_output i) ws of Some x \<Rightarrow> x | None \<Rightarrow> 428)) ins 0
      in tx_weight B utx + witness_overhead + satisfaction)"

definition is_internal_output :: "'w bdk_view \<Rightarrow> 'w \<Rightarrow> tx_out \<Rightarrow> bool" where
  "is_internal_output V w out =
     (case derivation_of_spk V w (to_script out) of
        Some (keychain, _) \<Rightarrow> keychain = Internal
      | None \<Rightarrow> False)"

definition find_internal_change_output ::
    "'w bdk_view \<Rightarrow> ('k, 'w) wallets \<Rightarrow> 'k \<Rightarrow> transaction \<Rightarrow> (nat \<times> tx_out) option" where
  "find_internal_change_output V ws primary tx =
     (if length (tx_output tx) \<le> 1 then None
      else
        (case map_of ws primary of
           None \<Rightarrow> None
         | Some w \<Rightarrow>
             (case filter (\<lambda>(_, out). is_internal_output V w out) (enumerate 0 (tx_output tx)) of
                [] \<Rightarrow> None
              | c # cs \<Rightarrow> Some (last (c # cs)))))"

definition replacement_requirements ::
    "bitcoin_lib \<Rightarrow> 'w bdk_view \<Rightarrow> ('k, 'w) wallets \<Rightarrow> 'k \<Rightarrow> transaction \<Rightarrow> u64 \<Rightarrow> tx_in list \<Rightarrow> u64
       \<Rightarrow> (replacement_req, agg_error) result" where
  "replacement_requirements B V ws primary tx in_value ins new_fee_rate =
     and_then (try_sum AggOnchainTxCreationFailed 0 (map to_value (tx_output tx))) (\<lambda>out_value.
     and_then (ok_or AggOnchainTxCreationFailed (checked_sub in_value out_value)) (\<lambda>original_fee.
     and_then (minimum_replacement_fee_rate B original_fee (tx_weight B tx)) (\<lambda>minimum_fee_rate.
     if new_fee_rate < minimum_fee_rate then Inl AggInvalidFeeRate
     else
       (let weight = estimate_tx_weight B V ws ins (tx_output tx)
        in and_then (ok_or AggInvalidFeeRate (fee_wu B new_fee_rate weight)) (\<lambda>target_fee.
           and_then (ok_or AggInvalidFeeRate (fee_wu B (BROADCAST_MIN B) weight)) (\<lambda>incremental_fee.
           and_then (ok_or AggOnchainTxCreationFailed (checked_add original_fee incremental_fee)) (\<lambda>minimum_fee.
           let change = map_option fst (find_internal_change_output V ws primary tx)
           in and_then (try_sum AggOnchainTxCreationFailed 0
                (map (\<lambda>(_, out). to_value out)
                  (filter (\<lambda>(i, _). Some i \<noteq> change) (enumerate 0 (tx_output tx))))) (\<lambda>recipients.
              Inr \<lparr>change_idx = change, recipient_value = recipients,
                   required_fee = max target_fee minimum_fee\<rparr>))))))))"

definition additional_input_value_needed ::
    "bitcoin_lib \<Rightarrow> 'w bdk_view \<Rightarrow> ('k, 'w) wallets \<Rightarrow> 'k \<Rightarrow> transaction \<Rightarrow> u64 \<Rightarrow> (u64, agg_error) result" where
  "additional_input_value_needed B V ws primary tx new_fee_rate =
     and_then (original_input_value V tx ws) (\<lambda>in_value.
     and_then (replacement_requirements B V ws primary tx in_value (replacement_inputs tx []) new_fee_rate) (\<lambda>req.
     if change_idx req = None then Inl AggInsufficientFunds
     else
       and_then (ok_or AggOnchainTxCreationFailed (Option.bind (checked_add (required_fee req) (recipient_value req))
                   (\<lambda>v. checked_add v DUST_LIMIT_SATS))) (\<lambda>required_value.
       Inr (saturating_sub required_value in_value))))"

fun extra_value_loop :: "u64 \<Rightarrow> utxo_psbt_info list \<Rightarrow> (u64, agg_error) result" where
  "extra_value_loop acc [] = Inr acc"
| "extra_value_loop acc (u # us) =
     (case witness_utxo (up_psbt_input u) of
        None \<Rightarrow> Inl AggOnchainTxCreationFailed
      | Some out \<Rightarrow>
          and_then (ok_or AggOnchainTxCreationFailed (checked_add acc (to_value out))) (\<lambda>acc.
          extra_value_loop acc us))"

text \<open>\<open>build_cross_wallet_rbf\<close> up to the call of the signer.\<close>

definition replacement_tx ::
    "bitcoin_lib \<Rightarrow> 'w bdk_view \<Rightarrow> ('k, 'w) wallets \<Rightarrow> 'k \<Rightarrow> transaction \<Rightarrow> u64 \<Rightarrow> utxo_psbt_info list
       \<Rightarrow> (transaction, agg_error) result" where
  "replacement_tx B V ws primary tx new_fee_rate extra =
     and_then (original_input_value V tx ws) (\<lambda>in_value.
     and_then (extra_value_loop in_value extra) (\<lambda>total_in.
     let ins = replacement_inputs tx extra
     in and_then (replacement_requirements B V ws primary tx in_value ins new_fee_rate) (\<lambda>req.
        and_then (ok_or AggOnchainTxCreationFailed (checked_add (required_fee req) (recipient_value req))) (\<lambda>required_value.
        and_then (ok_or AggInsufficientFunds (checked_sub total_in required_value)) (\<lambda>available.
        case change_idx req of
          Some idx \<Rightarrow>
            if available < DUST_LIMIT_SATS then Inl AggInsufficientFunds
            else Inr \<lparr>tx_version = tx_version tx, lock_time = lock_time tx, tx_input = ins,
                      tx_output = (tx_output tx)[idx := (tx_output tx ! idx)\<lparr>to_value := available\<rparr>]\<rparr>
        | None \<Rightarrow> Inl AggInsufficientFunds)))))"

definition build_cross_wallet_rbf ::
    "bitcoin_lib \<Rightarrow> 'w bdk_view \<Rightarrow> 'w signing_lib \<Rightarrow> ('k, 'w) wallets \<Rightarrow> 'k \<Rightarrow> transaction \<Rightarrow> u64
       \<Rightarrow> utxo_psbt_info list \<Rightarrow> (transaction, agg_error) result" where
  "build_cross_wallet_rbf B V L ws primary tx new_fee_rate extra =
     and_then (replacement_tx B V ws primary tx new_fee_rate extra) (\<lambda>utx.
     sign_owned_inputs V L utx ws)"

section \<open>Lemmas\<close>

lemma max_fee_le: "unat (max a b) = max (unat a) (unat (b :: u64))"
  by (simp add: max_def word_le_nat_alt)

text \<open>The values of the inputs, as the wallets know them.\<close>

definition known_values :: "'w bdk_view \<Rightarrow> ('k, 'w) wallets \<Rightarrow> tx_in list \<Rightarrow> u64 list \<Rightarrow> bool" where
  "known_values V ws ins vs = list_all2 (\<lambda>i v. get_input_value V (previous_output i) ws = Inr v) ins vs"

lemma input_value_loop_Inr:
  "input_value_loop V ws acc ins = Inr s \<Longrightarrow>
     \<exists>vs. known_values V ws ins vs \<and> unat s = unat acc + sats vs"
proof (induction ins arbitrary: acc)
  case Nil
  then show ?case
    by (simp add: known_values_def)
next
  case (Cons i "is")
  then obtain v t where v: "get_input_value V (previous_output i) ws = Inr v"
    and t: "unat t = unat acc + unat v" and "input_value_loop V ws t is = Inr s"
    by (auto simp: and_then_eq_Inr ok_or_eq_Inr checked_add_Some)
  then obtain vs where "known_values V ws is vs" "unat s = unat t + sats vs"
    using Cons.IH by blast
  with v t show ?case
    by (intro exI [of _ "v # vs"]) (simp add: known_values_def)
qed

lemma extra_value_loop_Inr:
  "extra_value_loop acc us = Inr s \<Longrightarrow>
     list_all (\<lambda>u. witness_utxo (up_psbt_input u) \<noteq> None) us
     \<and> unat s = unat acc + sats (map (\<lambda>u. to_value (the (witness_utxo (up_psbt_input u)))) us)"
  by (induction us arbitrary: acc)
     (auto simp: and_then_eq_Inr ok_or_eq_Inr checked_add_Some split: option.splits)

text \<open>All outputs but the one at an index, as the enumeration filters them.\<close>

lemma filter_enumerate_other:
  "j < length xs \<Longrightarrow> map snd (filter (\<lambda>(i, _). i \<noteq> n + j) (enumerate n xs)) = take j xs @ drop (Suc j) xs"
proof (induction xs arbitrary: n j)
  case (Cons x xs)
  have all: "filter (\<lambda>(i, _). i \<noteq> n) (enumerate (Suc n) xs) = enumerate (Suc n) xs"
    by (auto simp: filter_id_conv dest: in_set_enumerate_eq [THEN iffD1])
  show ?case
  proof (cases j)
    case 0
    with all show ?thesis
      by simp
  next
    case (Suc k)
    with Cons.IH [of k "Suc n"] Cons.prems show ?thesis
      by simp
  qed
qed simp

lemma sats_update:
  assumes "j < length outs"
  shows "sats (map to_value (outs[j := out])) + unat (to_value (outs ! j))
    = sats (map to_value outs) + unat (to_value out)"
    and "sats (map (\<lambda>(_, out). to_value out) (filter (\<lambda>(i, _). Some i \<noteq> Some j) (enumerate 0 outs)))
      + unat (to_value (outs ! j)) = sats (map to_value outs)"
proof -
  have "outs = take j outs @ outs ! j # drop (Suc j) outs"
    using assms by (rule id_take_nth_drop)
  then have split: "sats (map to_value outs)
      = sats (map to_value (take j outs)) + unat (to_value (outs ! j)) + sats (map to_value (drop (Suc j) outs))"
    by (metis (no_types, lifting) add.assoc list.simps(9) map_append sum_list.Cons sum_list_append)
  show "sats (map to_value (outs[j := out])) + unat (to_value (outs ! j))
    = sats (map to_value outs) + unat (to_value out)"
    using assms split by (simp add: upd_conv_take_nth_drop)
  have "map (\<lambda>(_, out). to_value out) (filter (\<lambda>(i, _). i \<noteq> j) (enumerate 0 outs))
      = map to_value (map snd (filter (\<lambda>(i, _). i \<noteq> 0 + j) (enumerate 0 outs)))"
    by (simp add: case_prod_unfold)
  also have "\<dots> = map to_value (take j outs @ drop (Suc j) outs)"
    using assms by (simp only: filter_enumerate_other)
  finally show "sats (map (\<lambda>(_, out). to_value out) (filter (\<lambda>(i, _). Some i \<noteq> Some j) (enumerate 0 outs)))
      + unat (to_value (outs ! j)) = sats (map to_value outs)"
    using split by simp
qed

definition is_change_of :: "'w bdk_view \<Rightarrow> ('k, 'w) wallets \<Rightarrow> 'k \<Rightarrow> tx_out \<Rightarrow> bool" where
  "is_change_of V ws primary out \<longleftrightarrow>
     (case map_of ws primary of Some w \<Rightarrow> is_internal_output V w out | None \<Rightarrow> False)"

lemma find_internal_change_output_Some:
  assumes "find_internal_change_output V ws primary tx = Some (j, out)"
  shows "j < length (tx_output tx) \<and> tx_output tx ! j = out \<and> is_change_of V ws primary out"
proof -
  obtain w c cs where w: "map_of ws primary = Some w"
    and f: "filter (\<lambda>(_, out). is_internal_output V w out) (enumerate 0 (tx_output tx)) = c # cs"
    and l: "(j, out) = last (c # cs)"
    using assms by (auto simp: find_internal_change_output_def simp del: last.simps
        split: if_splits option.splits list.splits)
  have "(j, out) \<in> set (c # cs)"
    unfolding l by (rule last_in_set) simp
  then show ?thesis
    unfolding f [symmetric] using w by (auto simp: in_set_enumerate_eq is_change_of_def)
qed

text \<open>What the requirements say, read back over the natural numbers.\<close>

lemma replacement_requirements_Inr:
  assumes "replacement_requirements B V ws primary tx in_value ins rate = Inr req"
  obtains original_fee target incremental where
    "unat in_value = sats (map to_value (tx_output tx)) + unat original_fee"
    "fee_wu B rate (estimate_tx_weight B V ws ins (tx_output tx)) = Some target"
    "fee_wu B (BROADCAST_MIN B) (estimate_tx_weight B V ws ins (tx_output tx)) = Some incremental"
    "unat (required_fee req) = max (unat target) (unat original_fee + unat incremental)"
    "unat (amount_div_weight B original_fee (tx_weight B tx)) + unat (BROADCAST_MIN B) \<le> unat rate"
    "change_idx req = map_option fst (find_internal_change_output V ws primary tx)"
    "unat (recipient_value req)
       = sats (map (\<lambda>(_, out). to_value out) (filter (\<lambda>(i, _). Some i \<noteq> change_idx req) (enumerate 0 (tx_output tx))))"
  using assms
  by (auto simp: replacement_requirements_def minimum_replacement_fee_rate_def and_then_eq_Inr ok_or_eq_Inr
      try_sum_iff checked_add_Some checked_sub_Some Let_def max_fee_le word_less_nat_alt
      split: if_splits)

abbreviation extra_values :: "utxo_psbt_info list \<Rightarrow> u64 list" where
  "extra_values extra \<equiv> map (\<lambda>u. to_value (the (witness_utxo (up_psbt_input u)))) extra"

lemma option_guard_Inr:
  "(case x of Some i \<Rightarrow> if c then Inl e else Inr (f i) | None \<Rightarrow> Inl e') = Inr u
     \<longleftrightarrow> (\<exists>i. x = Some i \<and> \<not> c \<and> u = f i)"
  by (auto split: option.splits)

lemma replacement_tx_Inr:
  assumes "replacement_tx B V ws primary tx rate extra = Inr u"
  obtains in_value total_in req j change where
    "original_input_value V tx ws = Inr in_value"
    "extra_value_loop in_value extra = Inr total_in"
    "replacement_requirements B V ws primary tx in_value (replacement_inputs tx extra) rate = Inr req"
    "change_idx req = Some j"
    "unat total_in = unat change + unat (required_fee req) + unat (recipient_value req)"
    "546 \<le> unat change"
    "u = \<lparr>tx_version = tx_version tx, lock_time = lock_time tx, tx_input = replacement_inputs tx extra,
          tx_output = (tx_output tx)[j := (tx_output tx ! j)\<lparr>to_value := change\<rparr>]\<rparr>"
proof -
  obtain in_value total_in req j and required change :: u64 where *:
    "original_input_value V tx ws = Inr in_value"
    "extra_value_loop in_value extra = Inr total_in"
    "replacement_requirements B V ws primary tx in_value (replacement_inputs tx extra) rate = Inr req"
    "change_idx req = Some j"
    "unat required = unat (required_fee req) + unat (recipient_value req)"
    "unat total_in = unat change + unat required" "\<not> change < DUST_LIMIT_SATS"
    "u = \<lparr>tx_version = tx_version tx, lock_time = lock_time tx, tx_input = replacement_inputs tx extra,
          tx_output = (tx_output tx)[j := (tx_output tx ! j)\<lparr>to_value := change\<rparr>]\<rparr>"
    using assms
    unfolding replacement_tx_def Let_def and_then_eq_Inr ok_or_eq_Inr checked_add_Some checked_sub_Some
      option_guard_Inr
    by blast
  show ?thesis
    using * by (intro that [of in_value total_in req j change])
      (simp_all add: DUST_LIMIT_SATS_def word_less_nat_alt)
qed

section \<open>Properties\<close>

text \<open>
  C20: a replacement that is built spends every input of the original, in order, and then the
  extra ones, all signalling replaceability. It differs from the original in one output only, an
  internal output of the primary wallet that keeps at least the dust limit. Its fee, inputs minus
  outputs, is the larger of the target fee at the new rate and the original fee plus the relay
  increment, both for the estimated weight, and the
  new rate exceeds the original one by the relay minimum.
\<close>

theorem rbf_replacement_pays:
  assumes "build_cross_wallet_rbf B V L ws primary tx rate extra = Inr stx"
  shows "\<exists>utx vs j change original_fee target incremental.
    unat (amount_div_weight B original_fee (tx_weight B tx)) + unat (BROADCAST_MIN B) \<le> unat rate
    \<and>
    sign_owned_inputs V L utx ws = Inr stx
    \<and> map previous_output (tx_input utx) = map previous_output (tx_input tx) @ map up_outpoint extra
    \<and> (\<forall>i \<in> set (tx_input utx). tx_sequence i = ENABLE_RBF_NO_LOCKTIME)
    \<and> j < length (tx_output tx) \<and> is_change_of V ws primary (tx_output tx ! j) \<and> 546 \<le> unat change
    \<and> tx_output utx = (tx_output tx)[j := (tx_output tx ! j)\<lparr>to_value := change\<rparr>]
    \<and> known_values V ws (tx_input tx) vs
    \<and> sats vs = sats (map to_value (tx_output tx)) + unat original_fee
    \<and> fee_wu B rate (estimate_tx_weight B V ws (tx_input utx) (tx_output tx)) = Some target
    \<and> fee_wu B (BROADCAST_MIN B) (estimate_tx_weight B V ws (tx_input utx) (tx_output tx)) = Some incremental
    \<and> sats vs + sats (extra_values extra) = sats (map to_value (tx_output utx))
        + max (unat target) (unat original_fee + unat incremental)"
proof -
  obtain u where stx: "sign_owned_inputs V L u ws = Inr stx"
    and u: "replacement_tx B V ws primary tx rate extra = Inr u"
    using assms by (auto simp: build_cross_wallet_rbf_def and_then_eq_Inr)
  from u obtain in_value total_in req j change where v: "original_input_value V tx ws = Inr in_value"
    and t: "extra_value_loop in_value extra = Inr total_in"
    and req: "replacement_requirements B V ws primary tx in_value (replacement_inputs tx extra) rate = Inr req"
    and j: "change_idx req = Some j"
    and bal: "unat total_in = unat change + unat (required_fee req) + unat (recipient_value req)"
    and dust: "546 \<le> unat change"
    and u_def: "u = \<lparr>tx_version = tx_version tx, lock_time = lock_time tx, tx_input = replacement_inputs tx extra,
          tx_output = (tx_output tx)[j := (tx_output tx ! j)\<lparr>to_value := change\<rparr>]\<rparr>"
    by (rule replacement_tx_Inr)
  from req obtain original_fee target incremental where
    of: "unat in_value = sats (map to_value (tx_output tx)) + unat original_fee"
    and tg: "fee_wu B rate (estimate_tx_weight B V ws (replacement_inputs tx extra) (tx_output tx)) = Some target"
    and inc: "fee_wu B (BROADCAST_MIN B) (estimate_tx_weight B V ws (replacement_inputs tx extra) (tx_output tx)) = Some incremental"
    and fee: "unat (required_fee req) = max (unat target) (unat original_fee + unat incremental)"
    and rate: "unat (amount_div_weight B original_fee (tx_weight B tx)) + unat (BROADCAST_MIN B) \<le> unat rate"
    and ch: "change_idx req = map_option fst (find_internal_change_output V ws primary tx)"
    and rec: "unat (recipient_value req)
       = sats (map (\<lambda>(_, out). to_value out) (filter (\<lambda>(i, _). Some i \<noteq> change_idx req) (enumerate 0 (tx_output tx))))"
    by (rule replacement_requirements_Inr)
  obtain vs where vs: "known_values V ws (tx_input tx) vs" "unat in_value = sats vs"
    using v input_value_loop_Inr [of V ws 0 "tx_input tx" in_value] by (auto simp: original_input_value_def)
  have change: "j < length (tx_output tx)" "is_change_of V ws primary (tx_output tx ! j)"
    using j ch find_internal_change_output_Some [of V ws primary tx j] by auto
  have "unat total_in = sats vs + sats (extra_values extra)"
    using extra_value_loop_Inr [OF t] vs(2) by simp
  moreover have "unat (recipient_value req) + unat change = sats (map to_value (tx_output u))"
    using sats_update(1) [OF change(1), of "(tx_output tx ! j)\<lparr>to_value := change\<rparr>"]
      sats_update(2) [OF change(1)] rec j u_def by simp
  ultimately have "sats vs + sats (extra_values extra) = sats (map to_value (tx_output u))
        + max (unat target) (unat original_fee + unat incremental)"
    using bal fee by linarith
  with stx vs of change dust tg inc rate show ?thesis
    by (intro exI [of _ u] exI [of _ vs] exI [of _ j] exI [of _ change] exI [of _ original_fee]
        exI [of _ target] exI [of _ incremental])
       (auto simp: u_def replacement_inputs_def rbf_txin_def)
qed

text \<open>
  C21: the amount of additional input value computed beforehand is exact: when it is zero the
  change output alone pays for the replacement, and otherwise building the replacement without
  extra inputs fails for insufficient funds.
\<close>

theorem rbf_additional_value_exact:
  assumes "additional_input_value_needed B V ws primary tx rate = Inr n"
  shows "if n = 0 then \<exists>u. replacement_tx B V ws primary tx rate [] = Inr u
    else replacement_tx B V ws primary tx rate [] = Inl AggInsufficientFunds"
proof -
  obtain in_value req j and sum required :: u64 where v: "original_input_value V tx ws = Inr in_value"
    and req: "replacement_requirements B V ws primary tx in_value (replacement_inputs tx []) rate = Inr req"
    and j: "change_idx req = Some j"
    and s: "checked_add (required_fee req) (recipient_value req) = Some sum"
    and r: "unat required = unat sum + 546" and n: "n = saturating_sub required in_value"
    using assms
    by (auto simp: additional_input_value_needed_def and_then_eq_Inr ok_or_eq_Inr checked_add_Some
        DUST_LIMIT_SATS_def bind_eq_Some_conv split: if_splits)
  have zero: "n = 0 \<longleftrightarrow> unat sum + 546 \<le> unat in_value"
    using unat_saturating_sub [of required in_value] r n by (auto simp: word_unat_eq_iff)
  show ?thesis
  proof (cases "checked_sub in_value sum")
    case None
    then have "n \<noteq> 0"
      using zero by (simp add: checked_sub_None)
    with None v req s show ?thesis
      by (simp add: replacement_tx_def Let_def)
  next
    case (Some c)
    then have "n = 0 \<longleftrightarrow> \<not> c < DUST_LIMIT_SATS"
      using zero by (auto simp: checked_sub_Some DUST_LIMIT_SATS_def word_less_nat_alt)
    with Some v req j s show ?thesis
      by (simp add: replacement_tx_def Let_def)
  qed
qed

definition example_rbf :: transaction where
  "example_rbf = example_tx [example_txin 2] [example_txout 1000 7, example_txout 3000 9]"

lemmas rbf_eval = example_rbf_def example_defs example_signer_def build_cross_wallet_rbf_def replacement_tx_def
  original_input_value_def nth_opt_def replacement_inputs_def rbf_txin_def replacement_requirements_def
  minimum_replacement_fee_rate_def estimate_tx_weight_def satisfaction_weight_for_outpoint_def
  satisfaction_weight_in_def output_of_def find_internal_change_output_def is_internal_output_def
  checked_add_def checked_sub_def DUST_LIMIT_SATS_def sign_owned_inputs_def sign_psbt_all_wallets_def
  populate_psbt_inputs_from_wallets_def populate_input_def fill_witness_utxo_def fill_non_witness_utxo_def
  psbt_input_default_def is_owned_input_def is_finalized_def additional_input_value_needed_def
  saturating_sub_def Let_def ENABLE_RBF_NO_LOCKTIME_def

lemma example_rbf_ok:
  "\<exists>stx. build_cross_wallet_rbf example_lib example_view example_signer example_wallets 0 example_rbf 3000 [] = Inr stx"
  by (simp add: rbf_eval)

theorem rbf_replacement_pays_witness:
  "\<exists>stx utx. build_cross_wallet_rbf example_lib example_view example_signer example_wallets 0 example_rbf 3000 [] = Inr stx
     \<and> sign_owned_inputs example_view example_signer utx example_wallets = Inr stx
     \<and> map previous_output (tx_input utx) = map previous_output (tx_input example_rbf)"
proof -
  obtain stx where stx: "build_cross_wallet_rbf example_lib example_view example_signer example_wallets 0 example_rbf 3000 [] = Inr stx"
    using example_rbf_ok by blast
  show ?thesis
    using rbf_replacement_pays [OF stx] stx by auto
qed

lemma example_rbf_exact:
  "additional_input_value_needed example_lib example_view example_wallets 0 example_rbf 3000 = Inr 0"
  by (simp add: rbf_eval)

theorem rbf_additional_value_exact_witness:
  "additional_input_value_needed example_lib example_view example_wallets 0 example_rbf 3000 = Inr 0
   \<and> (\<exists>u. replacement_tx example_lib example_view example_wallets 0 example_rbf 3000 [] = Inr u)"
  using rbf_additional_value_exact [OF example_rbf_exact] example_rbf_exact by simp

end
