(* ===== verification/Agg_Wallet.thy ===== *)
theory Agg_Wallet
  imports Bdk_Types "HOL-Library.AList" "HOL-Library.List_Lexorder" "HOL-Library.Product_Lexorder"
begin

text \<open>
  The state of the aggregate wallet and the operations on it that do not build transactions:
  \<open>crates/bdk-wallet-aggregate/src/lib.rs\<close>. The two hash maps are association lists; an operation
  that changes a BDK wallet or its persister goes through the parameter record \<open>bdk_ops\<close>. Where
  the code would panic (\<open>expect\<close> on the primary wallet) the model returns \<open>None\<close>.
\<close>

section \<open>State\<close>

record ('k, 'w, 'p) aggregate =
  agg_wallets :: "('k, 'w) wallets"
  agg_persisters :: "('k \<times> 'p) list"
  agg_primary :: 'k

text \<open>
  \<open>wallet_persist\<close> returns the wallet, the persister and whether it succeeded; a failed
  \<open>wallet_apply_block\<close> or \<open>apply_update_events\<close> leaves the wallet as it was.
\<close>

record address_info =
  ai_index :: u32
  ai_script :: script
  ai_keychain :: keychain_kind

record ('w, 'p, 'u, 'ev, 'blk) bdk_ops =
  wallet_persist :: "'w \<Rightarrow> 'p \<Rightarrow> 'w \<times> 'p \<times> bool"
  wallet_cancel_tx :: "'w \<Rightarrow> transaction \<Rightarrow> 'w"
  apply_update_events :: "'w \<Rightarrow> 'u \<Rightarrow> ('w \<times> 'ev list) option"
  apply_unconfirmed_txs :: "'w \<Rightarrow> (transaction \<times> u64) list \<Rightarrow> 'w"
  apply_evicted_txs :: "'w \<Rightarrow> (txid \<times> u64) list \<Rightarrow> 'w"
  wallet_apply_block :: "'w \<Rightarrow> 'blk \<Rightarrow> u32 \<Rightarrow> 'w option"
  tip_height :: "'w \<Rightarrow> u32"
  tip_hash :: "'w \<Rightarrow> block_hash"
  checkpoint_at :: "'w \<Rightarrow> u32 \<Rightarrow> block_hash option"
  reveal_next_address :: "'w \<Rightarrow> keychain_kind \<Rightarrow> 'w \<times> address_info"
  next_unused_address :: "'w \<Rightarrow> keychain_kind \<Rightarrow> 'w \<times> address_info"
  wallet_reveal_addresses_to :: "'w \<Rightarrow> keychain_kind \<Rightarrow> u32 \<Rightarrow> 'w"
  peek_address :: "'w \<Rightarrow> keychain_kind \<Rightarrow> u32 \<Rightarrow> address_info"
  derivation_index :: "'w \<Rightarrow> keychain_kind \<Rightarrow> u32 option"
  lookahead :: "'w \<Rightarrow> u32"
  spk_at_index :: "'w \<Rightarrow> keychain_kind \<Rightarrow> u32 \<Rightarrow> script option"
  revealed_spks :: "'w \<Rightarrow> ((keychain_kind \<times> u32) \<times> script) list"

definition aggregate_new :: "'w \<Rightarrow> 'p \<Rightarrow> 'k \<Rightarrow> ('k \<times> 'w \<times> 'p) list \<Rightarrow> ('k, 'w, 'p) aggregate" where
  "aggregate_new wallet persister key additional =
     \<lparr>agg_wallets = fold (\<lambda>(k, w, _). AList.update k w) additional [(key, wallet)],
      agg_persisters = fold (\<lambda>(k, _, p). AList.update k p) additional [(key, persister)],
      agg_primary = key\<rparr>"

definition primary_wallet :: "('k, 'w, 'p) aggregate \<Rightarrow> 'w option" where
  "primary_wallet a = map_of (agg_wallets a) (agg_primary a)"

section \<open>Adding and removing wallets\<close>

definition add_wallet ::
    "('k, 'w, 'p) aggregate \<Rightarrow> 'k \<Rightarrow> 'w \<Rightarrow> 'p \<Rightarrow> ('k, 'w, 'p) aggregate \<times> (unit, agg_error) result" where
  "add_wallet a key wallet persister =
     (if map_of (agg_wallets a) key \<noteq> None then (a, Inl AggWalletAlreadyExists)
      else (a\<lparr>agg_wallets := AList.update key wallet (agg_wallets a),
              agg_persisters := AList.update key persister (agg_persisters a)\<rparr>, Inr ()))"

definition set_primary :: "('k, 'w, 'p) aggregate \<Rightarrow> 'k \<Rightarrow> ('k, 'w, 'p) aggregate \<times> (unit, agg_error) result" where
  "set_primary a key =
     (if map_of (agg_wallets a) key = None then (a, Inl AggWalletNotFound)
      else (a\<lparr>agg_primary := key\<rparr>, Inr ()))"

definition remove_wallet :: "('k, 'w, 'p) aggregate \<Rightarrow> 'k \<Rightarrow> ('k, 'w, 'p) aggregate \<times> (unit, agg_error) result" where
  "remove_wallet a key =
     (if key = agg_primary a then (a, Inl AggCannotRemovePrimary)
      else if map_of (agg_wallets a) key = None then (a, Inl AggWalletNotFound)
      else if map_of (agg_persisters a) key = None then (a, Inl AggPersisterNotFound)
      else (a\<lparr>agg_wallets := AList.delete key (agg_wallets a),
              agg_persisters := AList.delete key (agg_persisters a)\<rparr>, Inr ()))"

text \<open>Persisting one wallet with the persister of its key.\<close>

definition persist_step ::
    "('w, 'p, 'u, 'ev, 'blk) bdk_ops \<Rightarrow> 'k \<Rightarrow> 'w \<Rightarrow> ('k \<times> 'p) list
       \<Rightarrow> 'w \<times> ('k \<times> 'p) list \<times> (unit, agg_error) result" where
  "persist_step W key wallet ps =
     (case map_of ps key of
        None \<Rightarrow> (wallet, ps, Inl AggPersisterNotFound)
      | Some p \<Rightarrow>
          (case wallet_persist W wallet p of
             (wallet', p', ok) \<Rightarrow>
               (wallet', AList.update key p' ps, if ok then Inr () else Inl AggPersistenceFailed)))"

text \<open>A loop over \<open>iter_mut\<close> of the wallets, left at the first error.\<close>

fun update_each ::
    "('k \<Rightarrow> 'w \<Rightarrow> ('k \<times> 'p) list \<Rightarrow> 'w \<times> ('k \<times> 'p) list \<times> (unit, agg_error) result)
       \<Rightarrow> ('k, 'w) wallets \<Rightarrow> ('k \<times> 'p) list \<Rightarrow> ('k, 'w) wallets \<times> ('k \<times> 'p) list \<times> (unit, agg_error) result" where
  "update_each f [] ps = ([], ps, Inr ())"
| "update_each f ((k, w) # ws) ps =
     (case f k w ps of
        (w', ps', Inl e) \<Rightarrow> ((k, w') # ws, ps', Inl e)
      | (w', ps', Inr _) \<Rightarrow>
          (case update_each f ws ps' of (ws', ps'', r) \<Rightarrow> ((k, w') # ws', ps'', r)))"

definition for_each_wallet ::
    "('k \<Rightarrow> 'w \<Rightarrow> ('k \<times> 'p) list \<Rightarrow> 'w \<times> ('k \<times> 'p) list \<times> (unit, agg_error) result)
       \<Rightarrow> ('k, 'w, 'p) aggregate \<Rightarrow> ('k, 'w, 'p) aggregate \<times> (unit, agg_error) result" where
  "for_each_wallet f a =
     (case update_each f (agg_wallets a) (agg_persisters a) of
        (ws, ps, r) \<Rightarrow> (a\<lparr>agg_wallets := ws, agg_persisters := ps\<rparr>, r))"

definition persist_all ::
    "('w, 'p, 'u, 'ev, 'blk) bdk_ops \<Rightarrow> ('k, 'w, 'p) aggregate \<Rightarrow> ('k, 'w, 'p) aggregate \<times> (unit, agg_error) result" where
  "persist_all W a = for_each_wallet (persist_step W) a"

text \<open>The rollback panics when the removal fails.\<close>

definition add_wallet_and_persist ::
    "('w, 'p, 'u, 'ev, 'blk) bdk_ops \<Rightarrow> ('k, 'w, 'p) aggregate \<Rightarrow> 'k \<Rightarrow> 'w \<Rightarrow> 'p
       \<Rightarrow> (('k, 'w, 'p) aggregate \<times> (unit, agg_error) result) option" where
  "add_wallet_and_persist W a key wallet persister =
     (case add_wallet a key wallet persister of
        (a, Inl e) \<Rightarrow> Some (a, Inl e)
      | (a, Inr _) \<Rightarrow>
          (case persist_all W a of
             (a, Inl e) \<Rightarrow>
               (case remove_wallet a key of
                  (a, Inr _) \<Rightarrow> Some (a, Inl e)
                | (a, Inl _) \<Rightarrow> None)
           | (a, Inr _) \<Rightarrow> Some (a, Inr ())))"

section \<open>Balances and outputs\<close>

text \<open>Adding amounts panics on overflow.\<close>

definition add_balance :: "balance \<Rightarrow> balance \<Rightarrow> balance option" where
  "add_balance t b =
     Option.bind (checked_add (bal_confirmed t) (bal_confirmed b)) (\<lambda>c.
     Option.bind (checked_add (bal_trusted_pending t) (bal_trusted_pending b)) (\<lambda>tp.
     Option.bind (checked_add (bal_untrusted_pending t) (bal_untrusted_pending b)) (\<lambda>up.
     Option.bind (checked_add (bal_immature t) (bal_immature b)) (\<lambda>i.
     Some \<lparr>bal_confirmed = c, bal_trusted_pending = tp, bal_untrusted_pending = up, bal_immature = i\<rparr>))))"

definition balance_default :: balance where
  "balance_default = \<lparr>bal_confirmed = 0, bal_trusted_pending = 0, bal_untrusted_pending = 0, bal_immature = 0\<rparr>"

fun sum_balances :: "balance \<Rightarrow> balance list \<Rightarrow> balance option" where
  "sum_balances t [] = Some t"
| "sum_balances t (b # bs) = Option.bind (add_balance t b) (\<lambda>t. sum_balances t bs)"

definition balance_filtered :: "'w bdk_view \<Rightarrow> ('k, 'w, 'p) aggregate \<Rightarrow> ('k \<Rightarrow> bool) \<Rightarrow> balance option" where
  "balance_filtered V a keep =
     sum_balances balance_default (map (\<lambda>(_, w). wallet_balance V w) (filter (\<lambda>(k, _). keep k) (agg_wallets a)))"

definition aggregate_balance :: "'w bdk_view \<Rightarrow> ('k, 'w, 'p) aggregate \<Rightarrow> balance option" where
  "aggregate_balance V a = sum_balances balance_default (map (\<lambda>(_, w). wallet_balance V w) (agg_wallets a))"

definition balance_for :: "'w bdk_view \<Rightarrow> ('k, 'w, 'p) aggregate \<Rightarrow> 'k \<Rightarrow> (balance, agg_error) result" where
  "balance_for V a key = ok_or AggWalletNotFound (map_option (wallet_balance V) (map_of (agg_wallets a) key))"

definition list_unspent_all :: "'w bdk_view \<Rightarrow> ('k, 'w, 'p) aggregate \<Rightarrow> local_output list" where
  "list_unspent_all V a = concat (map (\<lambda>(_, w). list_unspent V w) (agg_wallets a))"

fun cp_is_confirmed :: "chain_position \<Rightarrow> bool" where
  "cp_is_confirmed (CpConfirmed _) = True"
| "cp_is_confirmed (CpUnconfirmed _) = False"

definition list_confirmed_unspent :: "'w bdk_view \<Rightarrow> ('k, 'w, 'p) aggregate \<Rightarrow> local_output list" where
  "list_confirmed_unspent V a =
     concat (map (\<lambda>(_, w).
       (let confirmed_txids = map fst (filter (\<lambda>(_, pos). cp_is_confirmed pos) (transactions V w))
        in filter (\<lambda>u. op_txid (lo_outpoint u) \<in> set confirmed_txids) (list_unspent V w))) (agg_wallets a))"

section \<open>Transactions\<close>

definition find_wallet_for_tx :: "'w bdk_view \<Rightarrow> ('k, 'w, 'p) aggregate \<Rightarrow> txid \<Rightarrow> 'k option" where
  "find_wallet_for_tx V a i = find_map (\<lambda>(k, w). map_option (\<lambda>_. k) (get_tx V w i)) (agg_wallets a)"

definition find_tx :: "'w bdk_view \<Rightarrow> ('k, 'w, 'p) aggregate \<Rightarrow> txid \<Rightarrow> transaction option" where
  "find_tx V a i = find_map (\<lambda>(_, w). get_tx V w i) (agg_wallets a)"

record canonical_state =
  cs_confirmation :: "confirmation_block_time option"
  cs_last_seen :: u64

fun position_state :: "chain_position \<Rightarrow> canonical_state" where
  "position_state (CpConfirmed anchor) = \<lparr>cs_confirmation = Some anchor, cs_last_seen = 0\<rparr>"
| "position_state (CpUnconfirmed last_seen) =
     \<lparr>cs_confirmation = None, cs_last_seen = (case last_seen of Some t \<Rightarrow> t | None \<Rightarrow> 0)\<rparr>"

definition merge_state :: "canonical_state \<Rightarrow> canonical_state \<Rightarrow> canonical_state" where
  "merge_state state seen =
     \<lparr>cs_confirmation = (if cs_confirmation state \<noteq> cs_confirmation seen then None else cs_confirmation state),
      cs_last_seen = max (cs_last_seen state) (cs_last_seen seen)\<rparr>"

definition enter_state ::
    "txid \<times> chain_position \<Rightarrow> (txid \<times> canonical_state) list \<Rightarrow> (txid \<times> canonical_state) list" where
  "enter_state e states =
     (case map_of states (fst e) of
        Some state \<Rightarrow> AList.update (fst e) (merge_state state (position_state (snd e))) states
      | None \<Rightarrow> AList.update (fst e) (position_state (snd e)) states)"

definition canonical_transaction_states ::
    "'w bdk_view \<Rightarrow> ('k, 'w, 'p) aggregate \<Rightarrow> (txid \<times> canonical_state) list" where
  "canonical_transaction_states V a =
     fold (\<lambda>(_, w) states. fold enter_state (transactions V w) states) (agg_wallets a) []"

definition transaction_confirmation ::
    "'w bdk_view \<Rightarrow> ('k, 'w, 'p) aggregate \<Rightarrow> txid \<Rightarrow> confirmation_block_time option" where
  "transaction_confirmation V a i = Option.bind (map_of (canonical_transaction_states V a) i) cs_confirmation"

definition transaction_confirmations ::
    "'w bdk_view \<Rightarrow> ('k, 'w, 'p) aggregate \<Rightarrow> (txid \<times> confirmation_block_time) list" where
  "transaction_confirmations V a =
     List.map_filter (\<lambda>(i, state). map_option (Pair i) (cs_confirmation state)) (canonical_transaction_states V a)"

definition is_tx_confirmed :: "'w bdk_view \<Rightarrow> ('k, 'w, 'p) aggregate \<Rightarrow> txid \<Rightarrow> bool" where
  "is_tx_confirmed V a i \<longleftrightarrow> transaction_confirmation V a i \<noteq> None"

definition is_tx_confirmed_in_any_wallet :: "'w bdk_view \<Rightarrow> ('k, 'w, 'p) aggregate \<Rightarrow> txid \<Rightarrow> bool" where
  "is_tx_confirmed_in_any_wallet V a i =
     list_ex (\<lambda>(_, w). case List.find (\<lambda>t. fst t = i) (transactions V w) of
                         Some (_, pos) \<Rightarrow> cp_is_confirmed pos
                       | None \<Rightarrow> False) (agg_wallets a)"

definition unconfirmed_txids_with_last_seen :: "'w bdk_view \<Rightarrow> ('k, 'w, 'p) aggregate \<Rightarrow> (txid \<times> u64) list" where
  "unconfirmed_txids_with_last_seen V a =
     List.map_filter (\<lambda>(i, state). if cs_confirmation state = None then Some (i, cs_last_seen state) else None)
       (canonical_transaction_states V a)"

definition unconfirmed_txids :: "'w bdk_view \<Rightarrow> ('k, 'w, 'p) aggregate \<Rightarrow> txid list" where
  "unconfirmed_txids V a =
     List.map_filter (\<lambda>(i, state). if cs_confirmation state = None then Some i else None)
       (canonical_transaction_states V a)"

definition all_txids :: "'w bdk_view \<Rightarrow> ('k, 'w, 'p) aggregate \<Rightarrow> txid list" where
  "all_txids V a = map fst (canonical_transaction_states V a)"

definition sent_and_received :: "'w bdk_view \<Rightarrow> ('k, 'w, 'p) aggregate \<Rightarrow> txid \<Rightarrow> (u64 \<times> u64) option" where
  "sent_and_received V a i =
     Option.bind (find_tx V a i) (\<lambda>tx.
       Some (fold (\<lambda>(_, w) (s, r).
         if get_tx V w i \<noteq> None then
           (case wallet_sent_and_received V w tx of (sent, received) \<Rightarrow> (s + sent, r + received))
         else (s, r)) (agg_wallets a) (0, 0)))"

section \<open>Chain\<close>

definition chain_tips_by_key ::
    "('w, 'p, 'u, 'ev, 'blk) bdk_ops \<Rightarrow> ('k, 'w, 'p) aggregate \<Rightarrow> ('k \<times> block_hash \<times> u32) list" where
  "chain_tips_by_key W a = map (\<lambda>(k, w). (k, tip_hash W w, tip_height W w)) (agg_wallets a)"

definition chain_tips ::
    "('w, 'p, 'u, 'ev, 'blk) bdk_ops \<Rightarrow> ('k, 'w, 'p) aggregate \<Rightarrow> (block_hash \<times> u32) list" where
  "chain_tips W a = map (\<lambda>(_, hash, height). (hash, height)) (chain_tips_by_key W a)"

text \<open>Block hashes compare as their byte arrays.\<close>

instantiation block_hash :: linorder
begin

fun less_eq_block_hash :: "block_hash \<Rightarrow> block_hash \<Rightarrow> bool" where
  "less_eq_block_hash (BlockHash x) (BlockHash y) = (x \<le> y)"

fun less_block_hash :: "block_hash \<Rightarrow> block_hash \<Rightarrow> bool" where
  "less_block_hash (BlockHash x) (BlockHash y) = (x < y)"

instance
proof
  fix x y z :: block_hash
  show "(x < y) = (x \<le> y \<and> \<not> y \<le> x)"
    by (cases x; cases y) auto
  show "x \<le> x"
    by (cases x) simp
  show "x \<le> y \<Longrightarrow> y \<le> z \<Longrightarrow> x \<le> z"
    by (cases x; cases y; cases z) auto
  show "x \<le> y \<Longrightarrow> y \<le> x \<Longrightarrow> x = y"
    by (cases x; cases y) auto
  show "x \<le> y \<or> y \<le> x"
    by (cases x; cases y) auto
qed

end

text \<open>\<open>min_by\<close>: the first of the least elements.\<close>

fun min_tip :: "(u32 \<times> block_hash) list \<Rightarrow> (u32 \<times> block_hash) option" where
  "min_tip [] = None"
| "min_tip (t # ts) = (case min_tip ts of None \<Rightarrow> Some t | Some m \<Rightarrow> Some (if m < t then m else t))"

definition current_best_block ::
    "('w, 'p, 'u, 'ev, 'blk) bdk_ops \<Rightarrow> ('k, 'w, 'p) aggregate \<Rightarrow> (block_hash \<times> u32) option" where
  "current_best_block W a =
     (case min_tip (map (\<lambda>(_, w). (tip_height W w, tip_hash W w)) (agg_wallets a)) of
        Some (height, hash) \<Rightarrow> Some (hash, height)
      | None \<Rightarrow> map_option (\<lambda>w. (tip_hash W w, tip_height W w)) (primary_wallet a))"

definition sparse_ahead :: "('w, 'p, 'u, 'ev, 'blk) bdk_ops \<Rightarrow> 'w \<Rightarrow> u32 \<Rightarrow> bool" where
  "sparse_ahead W w height \<longleftrightarrow> checkpoint_at W w height = None \<and> height < tip_height W w"

definition apply_block_step ::
    "('w, 'p, 'u, 'ev, 'blk) bdk_ops \<Rightarrow> 'blk \<Rightarrow> u32 \<Rightarrow> 'k \<Rightarrow> 'w \<Rightarrow> ('k \<times> 'p) list
       \<Rightarrow> 'w \<times> ('k \<times> 'p) list \<times> (unit, agg_error) result" where
  "apply_block_step W block height key wallet ps =
     (if sparse_ahead W wallet height then (wallet, ps, Inr ())
      else
        (case wallet_apply_block W wallet block height of
           None \<Rightarrow> (wallet, ps, Inl AggWalletOperationFailed)
         | Some wallet' \<Rightarrow> persist_step W key wallet' ps))"

text \<open>The set of transaction identifiers is given as a list.\<close>

definition wallet_txids :: "'w bdk_view \<Rightarrow> 'w \<Rightarrow> txid list" where
  "wallet_txids V w = map fst (transactions V w)"

definition apply_block ::
    "'w bdk_view \<Rightarrow> ('w, 'p, 'u, 'ev, 'blk) bdk_ops \<Rightarrow> ('k, 'w, 'p) aggregate \<Rightarrow> 'blk \<Rightarrow> u32
       \<Rightarrow> (('k, 'w, 'p) aggregate \<times> (txid list, agg_error) result) option" where
  "apply_block V W a block height =
     (case primary_wallet a of
        None \<Rightarrow> None
      | Some _ \<Rightarrow>
          (case for_each_wallet (apply_block_step W block height) a of
             (a, Inl e) \<Rightarrow> Some (a, Inl e)
           | (a, Inr _) \<Rightarrow> Some (a, Inr (concat (map (\<lambda>(_, w). wallet_txids V w) (agg_wallets a))))))"

text \<open>The operations on one wallet.\<close>

definition on_wallet ::
    "'k \<Rightarrow> ('w \<Rightarrow> ('k \<times> 'p) list \<Rightarrow> 'w \<times> ('k \<times> 'p) list \<times> ('r, agg_error) result)
       \<Rightarrow> ('k, 'w, 'p) aggregate \<Rightarrow> ('k, 'w, 'p) aggregate \<times> ('r, agg_error) result" where
  "on_wallet key f a =
     (case map_of (agg_wallets a) key of
        None \<Rightarrow> (a, Inl AggWalletNotFound)
      | Some w \<Rightarrow>
          (case f w (agg_persisters a) of
             (w', ps, r) \<Rightarrow>
               (a\<lparr>agg_wallets := AList.update key w' (agg_wallets a), agg_persisters := ps\<rparr>, r)))"

definition apply_block_to ::
    "'w bdk_view \<Rightarrow> ('w, 'p, 'u, 'ev, 'blk) bdk_ops \<Rightarrow> ('k, 'w, 'p) aggregate \<Rightarrow> 'k \<Rightarrow> 'blk \<Rightarrow> u32
       \<Rightarrow> ('k, 'w, 'p) aggregate \<times> (txid list, agg_error) result" where
  "apply_block_to V W a key block height =
     on_wallet key (\<lambda>w ps.
       case apply_block_step W block height key w ps of
         (w', ps', r) \<Rightarrow> (w', ps', and_then r (\<lambda>_. Inr (wallet_txids V w')))) a"

definition apply_update_to_wallet ::
    "'w bdk_view \<Rightarrow> ('w, 'p, 'u, 'ev, 'blk) bdk_ops \<Rightarrow> ('k, 'w, 'p) aggregate \<Rightarrow> 'k \<Rightarrow> 'u
       \<Rightarrow> ('k, 'w, 'p) aggregate \<times> ('ev list \<times> txid list, agg_error) result" where
  "apply_update_to_wallet V W a key upd =
     on_wallet key (\<lambda>w ps.
       case apply_update_events W w upd of
         None \<Rightarrow> (w, ps, Inl AggWalletOperationFailed)
       | Some (w', events) \<Rightarrow>
           (case persist_step W key w' ps of
              (w'', ps', r) \<Rightarrow> (w'', ps', and_then r (\<lambda>_. Inr (events, wallet_txids V w''))))) a"

definition apply_update ::
    "'w bdk_view \<Rightarrow> ('w, 'p, 'u, 'ev, 'blk) bdk_ops \<Rightarrow> ('k, 'w, 'p) aggregate \<Rightarrow> 'u
       \<Rightarrow> ('k, 'w, 'p) aggregate \<times> ('ev list \<times> txid list, agg_error) result" where
  "apply_update V W a upd =
     on_wallet (agg_primary a) (\<lambda>w ps.
       case apply_update_events W w upd of
         None \<Rightarrow> (w, ps, Inl AggWalletOperationFailed)
       | Some (w', events) \<Rightarrow>
           (case persist_step W (agg_primary a) w' ps of
              (w'', ps', r) \<Rightarrow> (w'', ps', and_then r (\<lambda>_. Inr (events, wallet_txids V w''))))) a"

definition apply_mempool_txs ::
    "('w, 'p, 'u, 'ev, 'blk) bdk_ops \<Rightarrow> ('k, 'w, 'p) aggregate \<Rightarrow> (transaction \<times> u64) list \<Rightarrow> (txid \<times> u64) list
       \<Rightarrow> ('k, 'w, 'p) aggregate \<times> (unit, agg_error) result" where
  "apply_mempool_txs W a unconfirmed evicted =
     for_each_wallet (\<lambda>key w ps.
       persist_step W key (apply_evicted_txs W (apply_unconfirmed_txs W w unconfirmed) evicted) ps) a"

definition cancel_tx ::
    "('w, 'p, 'u, 'ev, 'blk) bdk_ops \<Rightarrow> ('k, 'w, 'p) aggregate \<Rightarrow> transaction
       \<Rightarrow> ('k, 'w, 'p) aggregate \<times> (unit, agg_error) result" where
  "cancel_tx W a tx = for_each_wallet (\<lambda>key w ps. persist_step W key (wallet_cancel_tx W w tx) ps) a"

definition cancel_dry_run_tx ::
    "('w, 'p, 'u, 'ev, 'blk) bdk_ops \<Rightarrow> ('k, 'w, 'p) aggregate \<Rightarrow> transaction \<Rightarrow> ('k, 'w, 'p) aggregate option" where
  "cancel_dry_run_tx W a tx =
     map_option (\<lambda>w. a\<lparr>agg_wallets := AList.update (agg_primary a) (wallet_cancel_tx W w tx) (agg_wallets a)\<rparr>)
       (primary_wallet a)"

section \<open>Addresses\<close>

definition BIP32_MAX_NORMAL_INDEX :: u32 where
  "BIP32_MAX_NORMAL_INDEX = push_bit 31 1 - 1"

definition MAX_ADDRESS_INFO_BATCH_COUNT :: u32 where
  "MAX_ADDRESS_INFO_BATCH_COUNT = 10000"

definition validate_derivation_index :: "u32 \<Rightarrow> (unit, agg_error) result" where
  "validate_derivation_index i = (if BIP32_MAX_NORMAL_INDEX < i then Inl AggInvalidQuantity else Inr ())"

definition validate_derivation_range :: "u32 \<Rightarrow> u32 \<Rightarrow> (unit, agg_error) result" where
  "validate_derivation_range start_index count =
     and_then (validate_derivation_index start_index) (\<lambda>_.
     if MAX_ADDRESS_INFO_BATCH_COUNT < count then Inl AggInvalidQuantity
     else if count = 0 then Inr ()
     else and_then (ok_or AggInvalidQuantity (checked_add start_index (count - 1))) validate_derivation_index)"

text \<open>A half-open range of indexes.\<close>

definition index_range :: "u32 \<Rightarrow> u32 \<Rightarrow> u32 list" where
  "index_range lo hi = map of_nat [unat lo ..< unat hi]"

definition new_address_info_for ::
    "('w, 'p, 'u, 'ev, 'blk) bdk_ops \<Rightarrow> ('k, 'w, 'p) aggregate \<Rightarrow> 'k
       \<Rightarrow> ('k, 'w, 'p) aggregate \<times> (address_info, agg_error) result" where
  "new_address_info_for W a key =
     on_wallet key (\<lambda>w ps.
       case map_of ps key of
         None \<Rightarrow> (w, ps, Inl AggPersisterNotFound)
       | Some _ \<Rightarrow>
           (case reveal_next_address W w External of
              (w', info) \<Rightarrow>
                (case persist_step W key w' ps of
                   (w'', ps', r) \<Rightarrow> (w'', ps', and_then r (\<lambda>_. Inr info))))) a"

definition new_address_info ::
    "('w, 'p, 'u, 'ev, 'blk) bdk_ops \<Rightarrow> ('k, 'w, 'p) aggregate
       \<Rightarrow> ('k, 'w, 'p) aggregate \<times> (address_info, agg_error) result" where
  "new_address_info W a = new_address_info_for W a (agg_primary a)"

definition address_info_for ::
    "('w, 'p, 'u, 'ev, 'blk) bdk_ops \<Rightarrow> ('k, 'w, 'p) aggregate \<Rightarrow> 'k \<Rightarrow> keychain_kind \<Rightarrow> u32
       \<Rightarrow> (address_info, agg_error) result" where
  "address_info_for W a key keychain i =
     and_then (validate_derivation_index i) (\<lambda>_.
     and_then (ok_or AggWalletNotFound (map_of (agg_wallets a) key)) (\<lambda>w.
     Inr (peek_address W w keychain i)))"

definition address_infos_for ::
    "('w, 'p, 'u, 'ev, 'blk) bdk_ops \<Rightarrow> ('k, 'w, 'p) aggregate \<Rightarrow> 'k \<Rightarrow> keychain_kind \<Rightarrow> u32 \<Rightarrow> u32
       \<Rightarrow> (address_info list, agg_error) result" where
  "address_infos_for W a key keychain start_index count =
     and_then (validate_derivation_range start_index count) (\<lambda>_.
     and_then (ok_or AggWalletNotFound (map_of (agg_wallets a) key)) (\<lambda>w.
     and_then (ok_or AggInvalidQuantity (checked_add start_index count)) (\<lambda>end_index.
     Inr (map (peek_address W w keychain) (index_range start_index end_index)))))"

definition reveal_addresses_to ::
    "('w, 'p, 'u, 'ev, 'blk) bdk_ops \<Rightarrow> ('k, 'w, 'p) aggregate \<Rightarrow> 'k \<Rightarrow> u32
       \<Rightarrow> ('k, 'w, 'p) aggregate \<times> (unit, agg_error) result" where
  "reveal_addresses_to W a key i =
     (case validate_derivation_index i of
        Inl e \<Rightarrow> (a, Inl e)
      | Inr _ \<Rightarrow>
          on_wallet key (\<lambda>w ps.
            case map_of ps key of
              None \<Rightarrow> (w, ps, Inl AggPersisterNotFound)
            | Some _ \<Rightarrow> persist_step W key (wallet_reveal_addresses_to W w External i) ps) a)"

definition new_internal_address ::
    "('w, 'p, 'u, 'ev, 'blk) bdk_ops \<Rightarrow> ('k, 'w, 'p) aggregate
       \<Rightarrow> ('k, 'w, 'p) aggregate \<times> (script, agg_error) result" where
  "new_internal_address W a =
     on_wallet (agg_primary a) (\<lambda>w ps.
       case map_of ps (agg_primary a) of
         None \<Rightarrow> (w, ps, Inl AggPersisterNotFound)
       | Some _ \<Rightarrow>
           (case next_unused_address W w Internal of
              (w', info) \<Rightarrow>
                (case persist_step W (agg_primary a) w' ps of
                   (w'', ps', r) \<Rightarrow> (w'', ps', and_then r (\<lambda>_. Inr (ai_script info)))))) a"

text \<open>The scripts of an incremental sync request that also covers the lookahead.\<close>

definition sync_request_with_lookahead ::
    "('w, 'p, 'u, 'ev, 'blk) bdk_ops \<Rightarrow> ('k, 'w, 'p) aggregate \<Rightarrow> 'k
       \<Rightarrow> (((keychain_kind \<times> u32) \<times> script) list, agg_error) result" where
  "sync_request_with_lookahead W a key =
     and_then (ok_or AggWalletNotFound (map_of (agg_wallets a) key)) (\<lambda>w.
     let request = revealed_spks W w; external_lookahead = lookahead W w in
     if external_lookahead = 0 then Inr request
     else if derivation_index W w External = Some BIP32_MAX_NORMAL_INDEX then Inr request
     else
       (let start_index = (case derivation_index W w External of Some i \<Rightarrow> i + 1 | None \<Rightarrow> 0);
            end_index = min (saturating_add start_index (external_lookahead - 1)) BIP32_MAX_NORMAL_INDEX
        in and_then (try_map (\<lambda>i. and_then (ok_or AggWalletOperationFailed (spk_at_index W w External i)) (\<lambda>spk.
                Inr ((External, i), spk))) (index_range start_index (end_index + 1))) (\<lambda>spks.
           Inr (request @ spks))))"

section \<open>Fees\<close>

text \<open>The value of input \<open>i\<close>: from the PSBT where it says it, from the wallets otherwise.\<close>

definition local_utxo_value :: "'w bdk_view \<Rightarrow> ('k, 'w) wallets \<Rightarrow> outpoint \<Rightarrow> u64 option" where
  "local_utxo_value V ws op = find_map (\<lambda>(_, w). map_option (\<lambda>u. to_value (lo_txout u)) (get_utxo V w op)) ws"

definition psbt_input_value :: "'w bdk_view \<Rightarrow> ('k, 'w) wallets \<Rightarrow> tx_in \<Rightarrow> psbt_input option \<Rightarrow> u64 option" where
  "psbt_input_value V ws txin inp =
     (case inp of
        Some psbt_input \<Rightarrow>
          (case witness_utxo psbt_input of
             Some txout \<Rightarrow> Some (to_value txout)
           | None \<Rightarrow>
               (case non_witness_utxo psbt_input of
                  Some tx \<Rightarrow> map_option to_value (nth_opt (tx_output tx) (unat (op_vout (previous_output txin))))
                | None \<Rightarrow> local_utxo_value V ws (previous_output txin)))
      | None \<Rightarrow> local_utxo_value V ws (previous_output txin))"

fun psbt_value_loop ::
    "'w bdk_view \<Rightarrow> ('k, 'w) wallets \<Rightarrow> u64 \<Rightarrow> (nat \<times> tx_in) list \<Rightarrow> psbt_input list \<Rightarrow> (u64, agg_error) result" where
  "psbt_value_loop V ws acc [] inps = Inr acc"
| "psbt_value_loop V ws acc ((i, txin) # txins) inps =
     and_then (ok_or AggOnchainTxCreationFailed
       (Option.bind (psbt_input_value V ws txin (nth_opt inps i)) (checked_add acc))) (\<lambda>acc.
     psbt_value_loop V ws acc txins inps)"

definition calculate_fee_from_psbt :: "'w bdk_view \<Rightarrow> ('k, 'w, 'p) aggregate \<Rightarrow> psbt \<Rightarrow> (u64, agg_error) result" where
  "calculate_fee_from_psbt V a p =
     and_then (psbt_value_loop V (agg_wallets a) 0 (enumerate 0 (tx_input (unsigned_tx p))) (psbt_inputs p)) (\<lambda>total_in.
     and_then (try_sum AggOnchainTxCreationFailed 0 (map to_value (tx_output (unsigned_tx p)))) (\<lambda>total_out.
     ok_or AggOnchainTxCreationFailed (checked_sub total_in total_out)))"

definition calculate_fee_with_fallback ::
    "'w bdk_view \<Rightarrow> ('k, 'w, 'p) aggregate \<Rightarrow> psbt \<Rightarrow> (u64, agg_error) result option" where
  "calculate_fee_with_fallback V a p =
     (case calculate_fee_from_psbt V a p of
        Inr fee \<Rightarrow> Some (Inr fee)
      | Inl _ \<Rightarrow>
          map_option (\<lambda>w. ok_or AggOnchainTxCreationFailed (calculate_fee V w (unsigned_tx p))) (primary_wallet a))"

text \<open>Amounts are added with a panic on overflow.\<close>

definition drain_amount_from_psbt :: "'w bdk_view \<Rightarrow> ('k, 'w, 'p) aggregate \<Rightarrow> psbt \<Rightarrow> u64 option" where
  "drain_amount_from_psbt V a p =
     map_option (\<lambda>(sent, received). saturating_sub sent received)
       (fold (\<lambda>(_, w) acc. Option.bind acc (\<lambda>(s, r).
          case wallet_sent_and_received V w (unsigned_tx p) of
            (s', r') \<Rightarrow> Option.bind (checked_add s s') (\<lambda>s. Option.bind (checked_add r r') (\<lambda>r. Some (s, r)))))
          (agg_wallets a) (Some (0, 0)))"

definition is_mine_any :: "'w bdk_view \<Rightarrow> ('k, 'w, 'p) aggregate \<Rightarrow> script \<Rightarrow> bool" where
  "is_mine_any V a s = list_ex (\<lambda>(_, w). is_mine V w s) (agg_wallets a)"

section \<open>Lemmas\<close>

text \<open>
  The invariant: the two maps have the same keys, and the primary key is one of them. All
  operations but adding and removing keep both key lists as they are.
\<close>

definition agg_keys :: "('k, 'w, 'p) aggregate \<Rightarrow> 'k list \<times> 'k list \<times> 'k" where
  "agg_keys a = (map fst (agg_wallets a), map fst (agg_persisters a), agg_primary a)"

fun keys_inv :: "'k list \<times> 'k list \<times> 'k \<Rightarrow> bool" where
  "keys_inv (ws, ps, key) \<longleftrightarrow> distinct ws \<and> distinct ps \<and> set ws = set ps \<and> key \<in> set ws"

definition agg_inv :: "('k, 'w, 'p) aggregate \<Rightarrow> bool" where
  "agg_inv a \<longleftrightarrow> keys_inv (agg_keys a)"

definition keeps_keys ::
    "('k \<Rightarrow> 'w \<Rightarrow> ('k \<times> 'p) list \<Rightarrow> 'w \<times> ('k \<times> 'p) list \<times> ('r, agg_error) result) \<Rightarrow> bool" where
  "keeps_keys f \<longleftrightarrow> (\<forall>k w ps w' ps' r. f k w ps = (w', ps', r) \<longrightarrow> map fst ps' = map fst ps)"

lemma keeps_keysD: "keeps_keys f \<Longrightarrow> f k w ps = (w', ps', r) \<Longrightarrow> map fst ps' = map fst ps"
  unfolding keeps_keys_def by blast

lemma map_fst_update: "map_of xs k = Some v' \<Longrightarrow> map fst (AList.update k v xs) = map fst xs"
  by (metis update_keys map_of_eq_None_iff option.simps(3) set_map)

lemma persist_step_keys: "persist_step W k w ps = (w', ps', r) \<Longrightarrow> map fst ps' = map fst ps"
  by (auto simp: persist_step_def map_fst_update split: option.splits prod.splits)

lemma keeps_persist_step: "keeps_keys (\<lambda>k w ps. persist_step W k (g w) ps)"
  by (auto simp: keeps_keys_def dest: persist_step_keys)

lemma keeps_apply_block_step: "keeps_keys (apply_block_step W block height)"
  by (auto simp: keeps_keys_def apply_block_step_def dest: persist_step_keys split: if_splits option.splits)

lemma update_each_keys:
  "keeps_keys f \<Longrightarrow> update_each f ws ps = (ws', ps', r) \<Longrightarrow> map fst ws' = map fst ws \<and> map fst ps' = map fst ps"
proof (induction ws arbitrary: ps ws' ps' r)
  case (Cons kw ws)
  obtain k w where kw: "kw = (k, w)"
    by (cases kw)
  obtain w1 ps1 r1 where step: "f k w ps = (w1, ps1, r1)"
    by (cases "f k w ps") auto
  then have ps1: "map fst ps1 = map fst ps"
    using keeps_keysD [OF Cons.prems(1)] by blast
  show ?case
  proof (cases r1)
    case (Inl e)
    with Cons.prems(2) kw step ps1 show ?thesis
      by auto
  next
    case (Inr u)
    obtain ws2 ps2 r2 where rest: "update_each f ws ps1 = (ws2, ps2, r2)"
      by (cases "update_each f ws ps1") auto
    with Cons.IH [OF Cons.prems(1) rest] Cons.prems(2) Inr kw step ps1 show ?thesis
      by auto
  qed
qed auto

lemma for_each_wallet_keys:
  "keeps_keys f \<Longrightarrow> for_each_wallet f a = (a', r) \<Longrightarrow> agg_keys a' = agg_keys a"
  by (auto simp: for_each_wallet_def agg_keys_def dest: update_each_keys split: prod.splits)

lemma on_wallet_keys:
  assumes "on_wallet key f a = (a', r)" and "\<And>w ps w' ps' r. f w ps = (w', ps', r) \<Longrightarrow> map fst ps' = map fst ps"
  shows "agg_keys a' = agg_keys a"
  using assms(1)
  by (auto simp: on_wallet_def agg_keys_def map_fst_update split: option.splits prod.splits dest: assms(2))

lemma persist_all_keys: "persist_all W a = (a', r) \<Longrightarrow> agg_keys a' = agg_keys a"
  unfolding persist_all_def by (rule for_each_wallet_keys [OF keeps_persist_step])

lemma map_of_keys: "map_of xs k \<noteq> None \<longleftrightarrow> k \<in> set (map fst xs)"
  by (simp add: map_of_eq_None_iff)

lemma agg_inv_primary: "agg_inv a \<Longrightarrow> \<exists>w. primary_wallet a = Some w"
  using map_of_keys [of "agg_wallets a" "agg_primary a"]
  by (auto simp: agg_inv_def agg_keys_def primary_wallet_def)

lemma keys_update: "fst ` set (AList.update k v xs) = insert k (fst ` set xs)"
  using dom_update [of k v xs] by (simp add: dom_map_of_conv_image_fst)

lemma keys_delete: "fst ` set (AList.delete k xs) = fst ` set xs - {k}"
  by (auto simp: AList.delete_eq image_iff)

lemma agg_inv_add_wallet: "agg_inv a \<Longrightarrow> agg_inv (fst (add_wallet a k w p))"
  unfolding agg_inv_def agg_keys_def keys_inv.simps
  by (elim conjE) (simp add: add_wallet_def keys_update distinct_update)

lemma agg_inv_remove_wallet: "agg_inv a \<Longrightarrow> agg_inv (fst (remove_wallet a k))"
  unfolding agg_inv_def agg_keys_def keys_inv.simps
  by (elim conjE) (simp add: remove_wallet_def distinct_delete keys_delete)

lemma agg_inv_set_primary: "agg_inv a \<Longrightarrow> agg_inv (fst (set_primary a k))"
  by (auto simp: agg_inv_def agg_keys_def set_primary_def map_of_eq_None_iff)

lemma agg_inv_keys: "agg_keys a' = agg_keys a \<Longrightarrow> agg_inv a' = agg_inv a"
  by (simp add: agg_inv_def)

lemma keys_inv_fold:
  "keys_inv (map fst ws, map fst ps, key) \<Longrightarrow>
     keys_inv (map fst (fold (\<lambda>(k, w, _). AList.update k w) xs ws),
       map fst (fold (\<lambda>(k, _, p). AList.update k p) xs ps), key)"
proof (induction xs arbitrary: ws ps)
  case (Cons x xs)
  obtain k w p where x: "x = (k, w, p)"
    by (cases x)
  have "keys_inv (map fst (AList.update k w ws), map fst (AList.update k p ps), key)"
    using Cons.prems unfolding keys_inv.simps
    by (elim conjE) (simp add: keys_update distinct_update)
  from Cons.IH [OF this] show ?case
    by (simp add: x del: keys_inv.simps)
qed (simp del: keys_inv.simps)

lemma agg_inv_new: "agg_inv (aggregate_new wallet persister key additional)"
  unfolding agg_inv_def agg_keys_def aggregate_new_def aggregate.simps
  by (rule keys_inv_fold) simp

lemma add_wallet_and_persist_total:
  assumes "agg_inv a"
  obtains a' r where "add_wallet_and_persist W a key w p = Some (a', r)" and "agg_inv a'"
    and "case r of
           Inl e \<Rightarrow> agg_keys a' = agg_keys a
         | Inr _ \<Rightarrow> map_of (agg_wallets a) key = None \<and> map_of (agg_wallets a') key \<noteq> None"
proof (cases "map_of (agg_wallets a) key")
  case (Some w0)
  with assms show ?thesis
    by (intro that [of a "Inl AggWalletAlreadyExists"]) (simp_all add: add_wallet_and_persist_def add_wallet_def)
next
  case None
  define a1 where "a1 = fst (add_wallet a key w p)"
  obtain a2 r2 where a2: "persist_all W a1 = (a2, r2)"
    by (cases "persist_all W a1")
  have out: "key \<notin> set (map fst (agg_wallets a))"
    using None by (simp add: map_of_eq_None_iff)
  then have new: "key \<noteq> agg_primary a" "key \<notin> fst ` set (agg_persisters a)" "key \<notin> fst ` set (agg_wallets a)"
    using assms by (auto simp: agg_inv_def agg_keys_def)
  have add: "add_wallet a key w p = (a1, Inr ())"
    by (simp add: a1_def add_wallet_def None)
  have inv1: "agg_inv a1"
    unfolding a1_def using assms by (rule agg_inv_add_wallet)
  have keys: "agg_keys a2 = agg_keys a1"
    using a2 by (rule persist_all_keys)
  have keys1: "agg_keys a1 = (map fst (agg_wallets a) @ [key], map fst (agg_persisters a) @ [key], agg_primary a)"
    using new by (simp add: a1_def add_wallet_def None agg_keys_def update_keys)
  have present: "map_of (agg_wallets a2) key \<noteq> None" "map_of (agg_persisters a2) key \<noteq> None"
    unfolding map_of_keys using keys keys1 by (simp_all add: agg_keys_def)
  show ?thesis
  proof (cases r2)
    case (Inr u)
    show ?thesis
      using add a2 Inr present None agg_inv_keys [OF keys] inv1
      by (intro that [of a2 "Inr ()"]) (simp_all add: add_wallet_and_persist_def)
  next
    case (Inl e)
    define a3 where "a3 = fst (remove_wallet a2 key)"
    have rem: "remove_wallet a2 key = (a3, Inr ())"
      using present new(1) keys keys1 by (auto simp: a3_def remove_wallet_def agg_keys_def)
    have "agg_inv a3"
      unfolding a3_def using agg_inv_keys [OF keys] inv1 by (simp add: agg_inv_remove_wallet)
    moreover have "agg_keys a3 = agg_keys a"
      using present new keys keys1
      by (auto simp: a3_def remove_wallet_def agg_keys_def delete_keys simp flip: AList.delete_eq)
    ultimately show ?thesis
      using add a2 Inl rem by (intro that [of a3 "Inl e"]) (simp_all add: add_wallet_and_persist_def)
  qed
qed

section \<open>Runs of the aggregate\<close>

inductive agg_step ::
    "'w bdk_view \<Rightarrow> ('w, 'p, 'u, 'ev, 'blk) bdk_ops \<Rightarrow> ('k, 'w, 'p) aggregate \<Rightarrow> ('k, 'w, 'p) aggregate \<Rightarrow> bool"
  for V W where
  step_add: "add_wallet a k w p = (a', r) \<Longrightarrow> agg_step V W a a'"
| step_add_persist: "add_wallet_and_persist W a k w p = Some (a', r) \<Longrightarrow> agg_step V W a a'"
| step_set_primary: "set_primary a k = (a', r) \<Longrightarrow> agg_step V W a a'"
| step_remove: "remove_wallet a k = (a', r) \<Longrightarrow> agg_step V W a a'"
| step_persist: "persist_all W a = (a', r) \<Longrightarrow> agg_step V W a a'"
| step_block: "apply_block V W a block height = Some (a', rt) \<Longrightarrow> agg_step V W a a'"
| step_block_to: "apply_block_to V W a k block height = (a', rt) \<Longrightarrow> agg_step V W a a'"
| step_update: "apply_update V W a u = (a', ru) \<Longrightarrow> agg_step V W a a'"
| step_update_to: "apply_update_to_wallet V W a k u = (a', ru) \<Longrightarrow> agg_step V W a a'"
| step_mempool: "apply_mempool_txs W a txs evicted = (a', r) \<Longrightarrow> agg_step V W a a'"
| step_cancel: "cancel_tx W a tx = (a', r) \<Longrightarrow> agg_step V W a a'"
| step_cancel_dry: "cancel_dry_run_tx W a tx = Some a' \<Longrightarrow> agg_step V W a a'"
| step_address: "new_address_info_for W a k = (a', ri) \<Longrightarrow> agg_step V W a a'"
| step_reveal: "reveal_addresses_to W a k i = (a', r) \<Longrightarrow> agg_step V W a a'"
| step_internal: "new_internal_address W a = (a', rs) \<Longrightarrow> agg_step V W a a'"

lemma apply_block_keys: "apply_block V W a block height = Some (a', r) \<Longrightarrow> agg_keys a' = agg_keys a"
  by (auto simp: apply_block_def split: option.splits prod.splits sum.splits
      dest: for_each_wallet_keys [OF keeps_apply_block_step])

lemma apply_block_to_keys: "apply_block_to V W a k block height = (a', r) \<Longrightarrow> agg_keys a' = agg_keys a"
  unfolding apply_block_to_def
  by (erule on_wallet_keys) (auto split: prod.splits dest: keeps_keysD [OF keeps_apply_block_step])

lemma apply_update_to_wallet_keys: "apply_update_to_wallet V W a k u = (a', r) \<Longrightarrow> agg_keys a' = agg_keys a"
  unfolding apply_update_to_wallet_def
  by (erule on_wallet_keys) (auto split: option.splits prod.splits dest: persist_step_keys)

lemma apply_update_primary: "apply_update V W a u = apply_update_to_wallet V W a (agg_primary a) u"
  by (simp add: apply_update_def apply_update_to_wallet_def)

lemma apply_mempool_txs_keys: "apply_mempool_txs W a txs ev = (a', r) \<Longrightarrow> agg_keys a' = agg_keys a"
  unfolding apply_mempool_txs_def by (rule for_each_wallet_keys [OF keeps_persist_step])

lemma cancel_tx_keys: "cancel_tx W a tx = (a', r) \<Longrightarrow> agg_keys a' = agg_keys a"
  unfolding cancel_tx_def by (rule for_each_wallet_keys [OF keeps_persist_step])

lemma cancel_dry_run_tx_keys: "cancel_dry_run_tx W a tx = Some a' \<Longrightarrow> agg_keys a' = agg_keys a"
  by (auto simp: cancel_dry_run_tx_def primary_wallet_def agg_keys_def map_fst_update)

lemma new_address_info_for_keys: "new_address_info_for W a k = (a', r) \<Longrightarrow> agg_keys a' = agg_keys a"
  unfolding new_address_info_for_def
  by (erule on_wallet_keys) (auto split: option.splits prod.splits dest: persist_step_keys)

lemma reveal_addresses_to_keys: "reveal_addresses_to W a k i = (a', r) \<Longrightarrow> agg_keys a' = agg_keys a"
  unfolding reveal_addresses_to_def
  by (cases "validate_derivation_index i")
     (auto split: option.splits elim!: on_wallet_keys dest: persist_step_keys)

lemma new_internal_address_keys: "new_internal_address W a = (a', r) \<Longrightarrow> agg_keys a' = agg_keys a"
  unfolding new_internal_address_def
  by (erule on_wallet_keys) (auto split: option.splits prod.splits dest: persist_step_keys)

lemmas op_keys = persist_all_keys apply_block_keys apply_block_to_keys apply_update_to_wallet_keys
  apply_mempool_txs_keys cancel_tx_keys cancel_dry_run_tx_keys new_address_info_for_keys
  reveal_addresses_to_keys new_internal_address_keys

lemma agg_step_inv:
  assumes "agg_step V W a a'" and "agg_inv a"
  shows "agg_inv a'"
  using assms
proof (cases rule: agg_step.cases)
  case (step_add k w p r)
  then show ?thesis
    using agg_inv_add_wallet [OF assms(2), of k w p] by simp
next
  case (step_add_persist k w p r)
  with assms(2) show ?thesis
    by (elim add_wallet_and_persist_total [of a W k w p]) simp
next
  case (step_set_primary k r)
  then show ?thesis
    using agg_inv_set_primary [OF assms(2), of k] by simp
next
  case (step_remove k r)
  then show ?thesis
    using agg_inv_remove_wallet [OF assms(2), of k] by simp
next
  case step_update
  then show ?thesis
    using assms(2) by (simp add: apply_update_primary op_keys [THEN agg_inv_keys])
qed (use assms(2) in \<open>simp_all add: op_keys [THEN agg_inv_keys]\<close>)

section \<open>Canonical states, read per transaction\<close>

definition tx_positions :: "'w bdk_view \<Rightarrow> ('k, 'w, 'p) aggregate \<Rightarrow> txid \<Rightarrow> chain_position list" where
  "tx_positions V a i =
     map snd (filter (\<lambda>t. fst t = i) (concat (map (\<lambda>(_, w). transactions V w) (agg_wallets a))))"

fun merge_all :: "canonical_state option \<Rightarrow> chain_position list \<Rightarrow> canonical_state option" where
  "merge_all s [] = s"
| "merge_all None (x # xs) = merge_all (Some (position_state x)) xs"
| "merge_all (Some s) (x # xs) = merge_all (Some (merge_state s (position_state x))) xs"

lemma map_of_enter:
  "map_of (enter_state e states) i =
     (if i = fst e then merge_all (map_of states i) [snd e] else map_of states i)"
  by (cases "map_of states (fst e)") (simp_all add: enter_state_def update_conv')

lemma map_of_fold_enter:
  "map_of (fold enter_state es states) i = merge_all (map_of states i) (map snd (filter (\<lambda>e. fst e = i) es))"
proof (induction es arbitrary: states)
  case (Cons e es)
  show ?case
    by (cases "map_of states i") (auto simp: Cons.IH map_of_enter)
qed simp

lemma fold_enter_concat:
  "fold (\<lambda>(_, w) states. fold enter_state (transactions V w) states) ws states
     = fold enter_state (concat (map (\<lambda>(_, w). transactions V w) ws)) states"
  by (induction ws arbitrary: states) auto

lemma map_of_canonical: "map_of (canonical_transaction_states V a) i = merge_all None (tx_positions V a i)"
  by (simp add: canonical_transaction_states_def tx_positions_def fold_enter_concat map_of_fold_enter)

lemma position_state_confirmed: "cs_confirmation (position_state x) = Some c \<longleftrightarrow> x = CpConfirmed c"
  by (cases x) auto

lemma merge_all_confirmed:
  "(\<exists>s'. merge_all (Some s) xs = Some s' \<and> cs_confirmation s' = Some c)
     \<longleftrightarrow> cs_confirmation s = Some c \<and> (\<forall>x \<in> set xs. x = CpConfirmed c)"
  by (induction xs arbitrary: s) (auto simp: merge_state_def position_state_confirmed)

lemma merge_all_last_seen:
  "merge_all (Some s) xs = Some s' \<Longrightarrow>
     cs_last_seen s' = Max (insert (cs_last_seen s) (set (map (\<lambda>x. cs_last_seen (position_state x)) xs)))"
proof (induction xs arbitrary: s)
  case (Cons x xs)
  then show ?case
    by (cases "xs = []") (auto simp: merge_state_def max.assoc)
qed simp

lemma merge_all_None: "merge_all s xs = None \<longleftrightarrow> s = None \<and> xs = []"
  by (induction s xs rule: merge_all.induct) auto

lemma transaction_confirmation_iff:
  "transaction_confirmation V a i = Some c
     \<longleftrightarrow> tx_positions V a i \<noteq> [] \<and> set (tx_positions V a i) = {CpConfirmed c}"
proof (cases "tx_positions V a i")
  case (Cons x xs)
  have "transaction_confirmation V a i = Some c \<longleftrightarrow>
      (\<exists>s'. merge_all (Some (position_state x)) xs = Some s' \<and> cs_confirmation s' = Some c)"
    by (auto simp: transaction_confirmation_def map_of_canonical Cons bind_eq_Some_conv)
  with Cons show ?thesis
    unfolding merge_all_confirmed position_state_confirmed by auto
qed (simp add: transaction_confirmation_def map_of_canonical)

text \<open>
  C23: a transaction counts as confirmed in a block exactly when every wallet that tracks it has it
  confirmed in that block; one that any tracking wallet sees unconfirmed, or confirmed elsewhere,
  counts as unconfirmed, with the latest time any of them saw it.
\<close>

theorem transaction_confirmation_agreed:
  "(transaction_confirmation V a i = Some c
      \<longleftrightarrow> tx_positions V a i \<noteq> [] \<and> set (tx_positions V a i) = {CpConfirmed c})
   \<and> map_of (canonical_transaction_states V a) i =
      (if tx_positions V a i = [] then None
       else Some \<lparr>cs_confirmation = transaction_confirmation V a i,
                  cs_last_seen = Max (set (map (\<lambda>x. cs_last_seen (position_state x)) (tx_positions V a i)))\<rparr>)"
proof (cases "tx_positions V a i")
  case (Cons x xs)
  then obtain s where s: "merge_all (Some (position_state x)) xs = Some s"
    by (cases "merge_all (Some (position_state x)) xs") (auto simp: merge_all_None)
  with Cons merge_all_last_seen [OF s] transaction_confirmation_iff [of V a i c] show ?thesis
    by (cases s) (simp add: transaction_confirmation_def map_of_canonical)
qed (simp add: transaction_confirmation_def map_of_canonical)

section \<open>Fees and address ranges\<close>

lemma checked_add_fits:
  fixes acc v s :: u64
  assumes "unat s = unat acc + unat v + n"
  obtains t where "checked_add acc v = Some t" and "unat t = unat acc + unat v"
proof (cases "checked_add acc v")
  case None
  then show ?thesis
    using assms unsigned_less [of s, where 'a = nat] by (simp add: checked_add_None)
qed (use that in \<open>simp add: checked_add_Some\<close>)

lemma psbt_value_loop_Inr:
  "psbt_value_loop V ws acc txins inps = Inr s \<longleftrightarrow>
     (\<exists>vs. list_all2 (\<lambda>(i, txin) v. psbt_input_value V ws txin (nth_opt inps i) = Some v) txins vs
       \<and> unat s = unat acc + sats vs)"
proof (induction txins arbitrary: acc)
  case Nil
  show ?case
    by (auto simp: word_unat_eq_iff)
next
  case (Cons it txins)
  obtain i txin where it: "it = (i, txin)"
    by (cases it)
  show ?case
  proof (cases "psbt_input_value V ws txin (nth_opt inps i)")
    case None
    then show ?thesis
      by (simp add: it list_all2_Cons1)
  next
    case v: (Some v)
    show ?thesis
    proof (cases "checked_add acc v")
      case None
      have False if "unat s = unat acc + (unat v + n)" for n
        using checked_add_fits [of s acc v n] that None by (auto simp: add.assoc)
      with v None show ?thesis
        by (fastforce simp: it list_all2_Cons1)
    next
      case (Some t)
      moreover from Some have "unat t = unat acc + unat v"
        by (simp add: checked_add_Some)
      ultimately show ?thesis
        using v by (auto simp: it list_all2_Cons1 Cons.IH add.assoc)
    qed
  qed
qed

text \<open>
  The fee computed from a PSBT is exact. It is returned if and only if every input has a known
  value, the sum of the values fits 64 bits, and it is what the inputs exceed the outputs by.
\<close>

lemma fee_from_psbt_exact:
  "calculate_fee_from_psbt V a p = Inr fee \<longleftrightarrow>
     (\<exists>vs. list_all2 (\<lambda>(i, txin) v. psbt_input_value V (agg_wallets a) txin (nth_opt (psbt_inputs p) i) = Some v)
         (enumerate 0 (tx_input (unsigned_tx p))) vs
       \<and> sats vs < 2 ^ 64
       \<and> sats vs = sats (map to_value (tx_output (unsigned_tx p))) + unat fee)"
  (is "_ \<longleftrightarrow> (\<exists>vs. ?known vs \<and> _ \<and> _)")
proof
  assume "calculate_fee_from_psbt V a p = Inr fee"
  then obtain total_in total_out where
    i: "psbt_value_loop V (agg_wallets a) 0 (enumerate 0 (tx_input (unsigned_tx p))) (psbt_inputs p) = Inr total_in"
    and out: "try_sum AggOnchainTxCreationFailed 0 (map to_value (tx_output (unsigned_tx p))) = Inr total_out"
    and fee: "checked_sub total_in total_out = Some fee"
    by (auto simp: calculate_fee_from_psbt_def split: sum.splits elim!: and_then.elims ok_or.elims)
  from i [unfolded psbt_value_loop_Inr] obtain vs where "?known vs" "unat total_in = sats vs"
    by auto
  with out fee unsigned_less [of total_in, where 'a = nat]
  show "\<exists>vs. ?known vs \<and> sats vs < 2 ^ 64 \<and> sats vs = sats (map to_value (tx_output (unsigned_tx p))) + unat fee"
    by (intro exI [of _ vs]) (simp add: try_sum_iff checked_sub_Some)
next
  assume "\<exists>vs. ?known vs \<and> sats vs < 2 ^ 64 \<and> sats vs = sats (map to_value (tx_output (unsigned_tx p))) + unat fee"
  then obtain vs where vs: "?known vs" "sats vs < 2 ^ 64"
    "sats vs = sats (map to_value (tx_output (unsigned_tx p))) + unat fee"
    by blast
  define total_in total_out :: u64 where "total_in = of_nat (sats vs)"
    and "total_out = of_nat (sats (map to_value (tx_output (unsigned_tx p))))"
  have small: "unat (of_nat n :: u64) = n" if "n < 2 ^ 64" for n
    using that by (simp add: unsigned_of_nat take_bit_eq_mod)
  have "sats (map to_value (tx_output (unsigned_tx p))) < 2 ^ 64"
    using vs(2,3) by linarith
  then have nat: "unat total_in = sats vs" "unat total_out = sats (map to_value (tx_output (unsigned_tx p)))"
    unfolding total_in_def total_out_def using vs(2) by (simp_all only: small)
  have "psbt_value_loop V (agg_wallets a) 0 (enumerate 0 (tx_input (unsigned_tx p))) (psbt_inputs p) = Inr total_in"
    unfolding psbt_value_loop_Inr using vs(1) nat(1) by auto
  moreover have "try_sum AggOnchainTxCreationFailed 0 (map to_value (tx_output (unsigned_tx p))) = Inr total_out"
    by (simp add: try_sum_iff nat(2))
  moreover have "checked_sub total_in total_out = Some fee"
    using vs(3) nat by (simp add: checked_sub_Some)
  ultimately show "calculate_fee_from_psbt V a p = Inr fee"
    by (simp add: calculate_fee_from_psbt_def)
qed

lemma unat_max_index: "unat BIP32_MAX_NORMAL_INDEX = 2 ^ 31 - 1"
  by (simp add: BIP32_MAX_NORMAL_INDEX_def)

lemma validate_index_iff: "validate_derivation_index i = Inr u \<longleftrightarrow> unat i < 2 ^ 31"
  by (auto simp: validate_derivation_index_def word_less_nat_alt unat_max_index)

lemma validate_range_iff:
  "validate_derivation_range s c = Inr u \<longleftrightarrow>
     unat s < 2 ^ 31 \<and> unat c \<le> 10000 \<and> (c = 0 \<or> unat s + unat c \<le> 2 ^ 31)"
proof (cases "c = 0")
  case True
  then show ?thesis
    by (auto simp: validate_derivation_range_def MAX_ADDRESS_INFO_BATCH_COUNT_def validate_derivation_index_def
        word_less_nat_alt unat_max_index)
next
  case False
  then have c: "unat (c - 1) = unat c - 1" "0 < unat c"
    by (simp_all add: unat_minus_one unat_gt_0)
  show ?thesis
  proof (cases "checked_add s (c - 1)")
    case None
    with c have "2 ^ 32 \<le> unat s + unat c - 1"
      by (simp add: checked_add_None)
    with None False show ?thesis
      by (auto simp: validate_derivation_range_def validate_derivation_index_def)
  next
    case (Some t)
    with c have "unat t = unat s + unat c - 1"
      by (simp add: checked_add_Some)
    with Some False c show ?thesis
      by (auto simp: validate_derivation_range_def MAX_ADDRESS_INFO_BATCH_COUNT_def validate_derivation_index_def
          word_less_nat_alt unat_max_index)
  qed
qed

text \<open>
  A batch of addresses is derived exactly when the wallet exists, the batch has at most 10000
  entries and no index exceeds the largest unhardened one; it then has one entry per index, in
  order. The check of the end index never fails after the range has been validated.
\<close>

lemma address_infos_range:
  "address_infos_for W a key keychain s c =
     (if unat s < 2 ^ 31 \<and> unat c \<le> 10000 \<and> (c = 0 \<or> unat s + unat c \<le> 2 ^ 31) then
        (case map_of (agg_wallets a) key of
           None \<Rightarrow> Inl AggWalletNotFound
         | Some w \<Rightarrow> Inr (map (\<lambda>i. peek_address W w keychain (s + of_nat i)) [0 ..< unat c]))
      else Inl AggInvalidQuantity)"
proof (cases "validate_derivation_range s c")
  case (Inl e)
  then have "e = AggInvalidQuantity"
    by (auto simp: validate_derivation_range_def validate_derivation_index_def split: if_splits
        elim!: and_then.elims ok_or.elims)
  moreover have "\<not> (unat s < 2 ^ 31 \<and> unat c \<le> 10000 \<and> (c = 0 \<or> unat s + unat c \<le> 2 ^ 31))"
    using Inl validate_range_iff [of s c "()"] by auto
  ultimately show ?thesis
    using Inl by (auto simp: address_infos_for_def)
next
  case (Inr u)
  then have ok: "unat s < 2 ^ 31 \<and> unat c \<le> 10000 \<and> (c = 0 \<or> unat s + unat c \<le> 2 ^ 31)"
    by (simp only: validate_range_iff)
  then obtain t where t: "checked_add s c = Some t"
    by (cases "checked_add s c") (auto simp: checked_add_None)
  then have "unat t = unat s + unat c"
    by (simp add: checked_add_Some)
  then have "index_range s t = map (\<lambda>i. s + of_nat i) [0 ..< unat c]"
    by (simp add: index_range_def list_eq_iff_nth_eq)
  with Inr ok t show ?thesis
    by (simp add: address_infos_for_def comp_def split: option.splits)
qed

section \<open>Applying a block\<close>

text \<open>What a block does to one wallet and its persister when the call succeeds.\<close>

definition block_done ::
    "('w, 'p, 'u, 'ev, 'blk) bdk_ops \<Rightarrow> 'blk \<Rightarrow> u32 \<Rightarrow> 'w \<Rightarrow> 'w \<Rightarrow> 'p option \<Rightarrow> 'p option \<Rightarrow> bool" where
  "block_done W block height w w' p p' \<longleftrightarrow>
     (if sparse_ahead W w height then w' = w \<and> p' = p
      else \<exists>w1 p0 p1. wallet_apply_block W w block height = Some w1 \<and> p = Some p0
             \<and> wallet_persist W w1 p0 = (w', p1, True) \<and> p' = Some p1)"

lemma apply_block_step_ok:
  assumes "apply_block_step W block height k w ps = (w', ps', Inr u)"
  shows "block_done W block height w w' (map_of ps k) (map_of ps' k)"
    and "k' \<noteq> k \<Longrightarrow> map_of ps' k' = map_of ps k'"
  using assms
  by (auto simp: apply_block_step_def persist_step_def block_done_def update_conv'
      split: if_splits option.splits prod.splits)

lemma update_each_block:
  assumes "update_each (apply_block_step W block height) ws ps = (ws', ps', Inr u)" and "distinct (map fst ws)"
  shows "list_all2 (\<lambda>(k, w) (k', w'). k' = k \<and> block_done W block height w w' (map_of ps k) (map_of ps' k)) ws ws'
    \<and> (\<forall>k. k \<notin> fst ` set ws \<longrightarrow> map_of ps' k = map_of ps k)"
  using assms
proof (induction ws arbitrary: ps ws')
  case (Cons kw ws)
  obtain k w where kw: "kw = (k, w)"
    by (cases kw)
  obtain w1 ps1 ws1 u1 where step: "apply_block_step W block height k w ps = (w1, ps1, Inr u1)"
    and rest: "update_each (apply_block_step W block height) ws ps1 = (ws1, ps', Inr u)"
    and ws': "ws' = (k, w1) # ws1"
    using Cons.prems(1) by (auto simp: kw split: prod.splits sum.splits)
  have IH: "list_all2 (\<lambda>(k, w) (k', w'). k' = k \<and> block_done W block height w w' (map_of ps1 k) (map_of ps' k)) ws ws1"
    "\<And>k. k \<notin> fst ` set ws \<Longrightarrow> map_of ps' k = map_of ps1 k"
    using Cons.IH [OF rest] Cons.prems(2) by auto
  have k: "k \<notin> fst ` set ws"
    using Cons.prems(2) by (simp add: kw)
  have "list_all2 (\<lambda>(k, w) (k', w'). k' = k \<and> block_done W block height w w' (map_of ps k) (map_of ps' k)) ws ws1"
    using IH(1)
  proof (rule list.rel_mono_strong)
    fix x y
    assume "x \<in> set ws" and
      "(\<lambda>(k, w) (k', w'). k' = k \<and> block_done W block height w w' (map_of ps1 k) (map_of ps' k)) x y"
    moreover from \<open>x \<in> set ws\<close> k have "fst x \<noteq> k"
      by auto
    ultimately show "(\<lambda>(k, w) (k', w'). k' = k \<and> block_done W block height w w' (map_of ps k) (map_of ps' k)) x y"
      using apply_block_step_ok(2) [OF step, of "fst x"] by (auto simp: case_prod_unfold)
  qed
  then show ?case
    using apply_block_step_ok [OF step] IH(2) k by (auto simp: kw ws')
qed auto

text \<open>
  C24: after a block has been applied, every wallet that already is ahead of it without knowing the
  block at that height is untouched, and every other wallet has taken the block and has been
  written by its own persister. No wallet is added, removed or reordered.
\<close>

theorem apply_block_outcome:
  assumes "agg_inv a" and "apply_block V W a block height = Some (a', Inr ids)"
  shows "agg_keys a' = agg_keys a
    \<and> (\<forall>k w. map_of (agg_wallets a) k = Some w \<longrightarrow>
         (\<exists>w'. map_of (agg_wallets a') k = Some w'
            \<and> block_done W block height w w' (map_of (agg_persisters a) k) (map_of (agg_persisters a') k)))
    \<and> set ids = (\<Union>(k, w) \<in> set (agg_wallets a'). fst ` set (transactions V w))"
proof -
  obtain u where u: "update_each (apply_block_step W block height) (agg_wallets a) (agg_persisters a)
      = (agg_wallets a', agg_persisters a', Inr u)"
    and ids: "ids = concat (map (\<lambda>(_, w). wallet_txids V w) (agg_wallets a'))"
    using assms(2) by (auto simp: apply_block_def for_each_wallet_def split: option.splits prod.splits sum.splits)
  have rel: "list_all2 (\<lambda>(k, w) (k', w'). k' = k
      \<and> block_done W block height w w' (map_of (agg_persisters a) k) (map_of (agg_persisters a') k))
      (agg_wallets a) (agg_wallets a')"
    using update_each_block [OF u] assms(1) by (simp add: agg_inv_def agg_keys_def)
  have found: "\<exists>w'. map_of (agg_wallets a') k = Some w'
      \<and> block_done W block height w w' (map_of (agg_persisters a) k) (map_of (agg_persisters a') k)"
    if "map_of (agg_wallets a) k = Some w" for k w
    using rel that by (induction rule: list_all2_induct) (auto split: if_splits prod.splits)
  have "agg_keys a' = agg_keys a"
    using assms(2) by (rule apply_block_keys)
  with found ids show ?thesis
    by (auto simp: wallet_txids_def)
qed

section \<open>Runs\<close>

text \<open>
  C22: whatever sequence of operations an aggregate goes through after its construction, the primary
  wallet is there, so that the code's \<open>expect\<close> never fires, and wallets and persisters have the
  same keys. Adding a wallet with persistence never panics: it either adds the new key, or leaves
  the set of wallets as it was.
\<close>

theorem aggregate_always_has_primary:
  assumes "(agg_step V W)\<^sup>*\<^sup>* (aggregate_new w0 p0 k0 additional) a"
  shows "(\<exists>w. primary_wallet a = Some w)
    \<and> set (map fst (agg_wallets a)) = set (map fst (agg_persisters a))
    \<and> apply_block V W a block height \<noteq> None
    \<and> (\<exists>a' r. add_wallet_and_persist W a key w p = Some (a', r) \<and>
         (case r of
            Inl e \<Rightarrow> agg_keys a' = agg_keys a
          | Inr _ \<Rightarrow> map_of (agg_wallets a) key = None \<and> map_of (agg_wallets a') key \<noteq> None))"
proof -
  have inv: "agg_inv a"
    using assms by (induction rule: rtranclp_induct) (auto intro: agg_inv_new agg_step_inv)
  then obtain w1 where "primary_wallet a = Some w1"
    using agg_inv_primary by blast
  moreover from this have "apply_block V W a block height \<noteq> None"
    by (auto simp: apply_block_def split: prod.splits sum.splits)
  moreover from inv obtain a' r where "add_wallet_and_persist W a key w p = Some (a', r)" "agg_inv a'"
    "case r of
       Inl e \<Rightarrow> agg_keys a' = agg_keys a
     | Inr _ \<Rightarrow> map_of (agg_wallets a) key = None \<and> map_of (agg_wallets a') key \<noteq> None"
    by (rule add_wallet_and_persist_total)
  ultimately show ?thesis
    using inv by (auto simp: agg_inv_def agg_keys_def)
qed

section \<open>The oldest tip and the lookahead\<close>

lemma min_tip_least:
  "min_tip ts = (if ts = [] then None else Some (Min (set ts)))"
proof (induction ts)
  case (Cons t ts)
  have "min t m = (if m < t then m else t)" for m :: "u32 \<times> block_hash"
    by (auto simp: min_def)
  with Cons show ?case
    by (cases "ts = []") (simp_all del: Min_gr_iff Min_less_iff)
qed simp

lemma current_best_block_least:
  assumes "agg_wallets a \<noteq> []"
  obtains hash height where "current_best_block W a = Some (hash, height)"
    and "(hash, height) \<in> set (chain_tips W a)"
    and "\<forall>(hash', height') \<in> set (chain_tips W a). height < height' \<or> height = height' \<and> hash \<le> hash'"
proof -
  let ?ts = "map (\<lambda>(_, w). (tip_height W w, tip_hash W w)) (agg_wallets a)"
  obtain height hash where m: "Min (set ?ts) = (height, hash)"
    by (cases "Min (set ?ts)")
  have ne: "set ?ts \<noteq> {}"
    using assms by auto
  have tips: "chain_tips W a = map (\<lambda>(height, hash). (hash, height)) ?ts"
    by (auto simp: chain_tips_def chain_tips_by_key_def)
  have "(height, hash) \<in> set ?ts"
    unfolding m [symmetric] using ne by (intro Min_in) simp_all
  then have "(hash, height) \<in> set (chain_tips W a)"
    unfolding tips by (force simp: image_iff)
  moreover have "(height, hash) \<le> t" if "t \<in> set ?ts" for t
    unfolding m [symmetric] using that by (intro Min_le) simp_all
  then have "\<forall>(hash', height') \<in> set (chain_tips W a). height < height' \<or> height = height' \<and> hash \<le> hash'"
    unfolding tips by (fastforce simp: less_eq_prod_def)
  moreover have "current_best_block W a = Some (hash, height)"
    using m assms by (simp add: current_best_block_def min_tip_least)
  ultimately show ?thesis
    using that by blast
qed

text \<open>
  The best block reported for the aggregate is a tip of one of its wallets, and no wallet has a
  lower one: it is the oldest height and, among equal heights, the smallest hash, so a wallet on a
  stale fork is not hidden.
\<close>

lemma current_best_block_oldest:
  assumes "agg_inv a"
  shows "\<exists>hash height. current_best_block W a = Some (hash, height) \<and> (hash, height) \<in> set (chain_tips W a)
    \<and> (\<forall>(hash', height') \<in> set (chain_tips W a). height < height' \<or> height = height' \<and> hash \<le> hash')"
proof -
  have "agg_wallets a \<noteq> []"
    using agg_inv_primary [OF assms] by (auto simp: primary_wallet_def)
  then obtain hash height where "current_best_block W a = Some (hash, height)"
    "(hash, height) \<in> set (chain_tips W a)"
    "\<forall>(hash', height') \<in> set (chain_tips W a). height < height' \<or> height = height' \<and> hash \<le> hash'"
    by (rule current_best_block_least)
  then show ?thesis
    by (intro exI conjI)
qed

lemma sync_request_lookahead_indexes:
  assumes "sync_request_with_lookahead W a key = Inr spks" and "map_of (agg_wallets a) key = Some w"
    and "0 < lookahead W w" and "derivation_index W w External = Some i" and "unat i < 2 ^ 31 - 1"
  shows "map fst (drop (length (revealed_spks W w)) spks)
    = map (\<lambda>j. (External, of_nat j)) [Suc (unat i) ..< min (Suc (unat i) + unat (lookahead W w)) (2 ^ 31)]"
proof -
  let ?start = "i + 1"
  let ?last = "min (saturating_add ?start (lookahead W w - 1)) BIP32_MAX_NORMAL_INDEX"
  have start: "unat ?start = Suc (unat i)"
    using assms(5) by (simp add: unat_plus_simple [THEN iffD1] word_le_nat_alt unat_word_ariths)
  have la: "unat (lookahead W w - 1) = unat (lookahead W w) - 1" "0 < unat (lookahead W w)"
    using assms(3) by (simp_all add: unat_minus_one word_neq_0_conv unat_gt_0)
  have "unat ?last = min (min (Suc (unat i) + (unat (lookahead W w) - 1)) (2 ^ 32 - 1)) (2 ^ 31 - 1)"
    by (simp add: min_def word_le_nat_alt unat_saturating_add start la unat_max_index)
  then have stop: "unat (?last + 1) = min (Suc (unat i) + unat (lookahead W w)) (2 ^ 31)"
    using la(2) by (simp add: unat_word_ariths min_def split: if_splits)
  have ne: "derivation_index W w External \<noteq> Some BIP32_MAX_NORMAL_INDEX"
    using assms(4,5) by (auto simp: unat_max_index)
  obtain ys where ys: "spks = revealed_spks W w @ ys"
    and rel: "list_all2 (\<lambda>i y. and_then (ok_or AggWalletOperationFailed (spk_at_index W w External i)) (\<lambda>spk.
                Inr ((External, i), spk)) = Inr y) (index_range ?start (?last + 1)) ys"
    using assms(1-4) ne
    by (auto simp: sync_request_with_lookahead_def Let_def try_map_Inr split: if_splits elim!: and_then.elims)
  have "map fst ys = map (Pair External) js"
    if "list_all2 (\<lambda>i y. and_then (ok_or AggWalletOperationFailed (spk_at_index W w External i)) (\<lambda>spk.
                Inr ((External, i), spk)) = Inr y) js ys" for js
    using that by (induction rule: list_all2_induct) (auto elim!: and_then.elims)
  from this [OF rel] have "map fst ys = map (Pair External) (index_range ?start (?last + 1))" .
  then show ?thesis
    by (simp add: ys index_range_def start stop comp_def)
qed

section \<open>Examples\<close>

text \<open>
  A wallet is its tip and whether it knows the block at height 5; a persister counts its writes and
  fails from the third on.
\<close>

definition example_ops :: "(u32 \<times> bool, nat, unit, unit, unit) bdk_ops" where
  "example_ops =
     \<lparr>wallet_persist = (\<lambda>w p. (w, Suc p, p < 2)), wallet_cancel_tx = (\<lambda>w _. w),
      apply_update_events = (\<lambda>w _. Some (w, [])), apply_unconfirmed_txs = (\<lambda>w _. w),
      apply_evicted_txs = (\<lambda>w _. w), wallet_apply_block = (\<lambda>w _ h. Some (h, True)), tip_height = fst,
      tip_hash = (\<lambda>_. BlockHash []), checkpoint_at = (\<lambda>w h. if snd w then Some (BlockHash []) else None),
      reveal_next_address = (\<lambda>w k. (w, \<lparr>ai_index = 0, ai_script = [], ai_keychain = k\<rparr>)),
      next_unused_address = (\<lambda>w k. (w, \<lparr>ai_index = 0, ai_script = [], ai_keychain = k\<rparr>)),
      wallet_reveal_addresses_to = (\<lambda>w _ _. w),
      peek_address = (\<lambda>w k i. \<lparr>ai_index = i, ai_script = [], ai_keychain = k\<rparr>),
      derivation_index = (\<lambda>_ _. None), lookahead = (\<lambda>_. 0), spk_at_index = (\<lambda>_ _ _. None),
      revealed_spks = (\<lambda>_. [])\<rparr>"

definition example_tip_view :: "(u32 \<times> bool) bdk_view" where
  "example_tip_view =
     \<lparr>get_utxo = (\<lambda>_ _. None), get_tx = (\<lambda>_ _. None), list_unspent = (\<lambda>_. []), transactions = (\<lambda>_. []),
      wallet_balance = (\<lambda>_. balance_default), derivation_of_spk = (\<lambda>_ _. None), max_weight_to_satisfy = (\<lambda>_ _. None),
      is_mine = (\<lambda>_ _. False), calculate_fee = (\<lambda>_ _. None), wallet_sent_and_received = (\<lambda>_ _. (0, 0)),
      peek_script = (\<lambda>_ _ _. [])\<rparr>"

text \<open>Wallet 0 is behind height 5, wallet 1 is ahead of it on a sparse chain.\<close>

definition example_aggregate :: "(nat, u32 \<times> bool, nat) aggregate" where
  "example_aggregate = aggregate_new (4, False) 0 0 [(1, (9, False), 0)]"

lemma example_aggregate_inv: "agg_inv example_aggregate"
  unfolding example_aggregate_def by (rule agg_inv_new)

lemma example_apply_block:
  "apply_block example_tip_view example_ops example_aggregate () 5 =
     Some (\<lparr>agg_wallets = [(0, (5, True)), (1, (9, False))], agg_persisters = [(0, 1), (1, 0)], agg_primary = 0\<rparr>, Inr [])"
  by (simp add: apply_block_def example_aggregate_def aggregate_new_def primary_wallet_def for_each_wallet_def
      apply_block_step_def persist_step_def sparse_ahead_def example_ops_def example_tip_view_def wallet_txids_def)

theorem apply_block_outcome_witness:
  "\<exists>a'. apply_block example_tip_view example_ops example_aggregate () 5 = Some (a', Inr [])
     \<and> agg_keys a' = agg_keys example_aggregate"
  using apply_block_outcome [OF example_aggregate_inv example_apply_block] example_apply_block by blast

lemma current_best_block_oldest_witness:
  "agg_inv example_aggregate \<and> current_best_block example_ops example_aggregate = Some (BlockHash [], 4)
   \<and> (BlockHash [], 4) \<in> set (chain_tips example_ops example_aggregate)"
proof -
  have "current_best_block example_ops example_aggregate = Some (BlockHash [], 4)"
    by (simp add: current_best_block_def example_aggregate_def aggregate_new_def example_ops_def less_prod_def)
  with current_best_block_oldest [OF example_aggregate_inv, of example_ops] example_aggregate_inv show ?thesis
    by simp
qed

theorem aggregate_always_has_primary_witness:
  "(agg_step example_tip_view example_ops)\<^sup>*\<^sup>* example_aggregate (fst (persist_all example_ops example_aggregate))
   \<and> (\<exists>w. primary_wallet (fst (persist_all example_ops example_aggregate)) = Some w)
   \<and> (\<exists>a' r. add_wallet_and_persist example_ops (fst (persist_all example_ops example_aggregate)) 2 (0, False) 5
        = Some (a', r))"
proof -
  have run: "(agg_step example_tip_view example_ops)\<^sup>*\<^sup>* example_aggregate (fst (persist_all example_ops example_aggregate))"
    by (rule r_into_rtranclp, rule step_persist [of _ _ _ "snd (persist_all example_ops example_aggregate)"]) simp
  then show ?thesis
    using aggregate_always_has_primary [OF run [unfolded example_aggregate_def], folded example_aggregate_def]
    by blast
qed

end
