(* ===== verification/Agg_Build.thy ===== *)
theory Agg_Build
  imports Agg_Rbf Agg_Wallet
begin

text \<open>
  Building transactions over the aggregate: payments with one coin selection over all wallets,
  drains, fee bumping by replacement and by a child (\<open>crates/bdk-wallet-aggregate/src/lib.rs\<close>).
  BDK's transaction builder is a parameter: a value of type \<open>'b\<close> that borrows a wallet and gives
  it back, possibly changed, when it is finished.
\<close>

section \<open>Parameters\<close>

datatype create_tx_error = CreateCoinSelection | CreateOther

record ('w, 'b) builder_lib =
  input_ops :: "'b tx_builder_ops"
  build_tx :: "'w \<Rightarrow> 'b"
  build_fee_bump :: "'w \<Rightarrow> txid \<Rightarrow> 'b option"
  add_recipient :: "'b \<Rightarrow> script \<Rightarrow> u64 \<Rightarrow> 'b"
  set_fee_rate :: "'b \<Rightarrow> u64 \<Rightarrow> 'b"
  nlocktime :: "'b \<Rightarrow> u32 \<Rightarrow> 'b"
  manually_selected_only :: "'b \<Rightarrow> 'b"
  drain_wallet :: "'b \<Rightarrow> 'b"
  drain_to :: "'b \<Rightarrow> script \<Rightarrow> 'b"
  finish :: "'b \<Rightarrow> 'w \<times> (psbt, create_tx_error) result"

text \<open>Conversions of \<open>bitcoin::FeeRate\<close> and \<open>bitcoin::Weight\<close>.\<close>

record fee_rate_lib =
  to_sat_per_vb_ceil :: "u64 \<Rightarrow> u64"
  to_vbytes_ceil :: "u64 \<Rightarrow> u64"
  from_sat_per_vb :: "u64 \<Rightarrow> u64 option"

record ('w, 'p, 'u, 'ev, 'blk, 'b) agg_libs =
  lib_btc :: bitcoin_lib
  lib_rate :: fee_rate_lib
  lib_view :: "'w bdk_view"
  lib_sign :: "'w signing_lib"
  lib_ops :: "('w, 'p, 'u, 'ev, 'blk) bdk_ops"
  lib_build :: "('w, 'b) builder_lib"
  lib_select :: coin_select

section \<open>Definitions\<close>

definition map_tx_builder_error :: "create_tx_error \<Rightarrow> agg_error" where
  "map_tx_builder_error e =
     (case e of CreateCoinSelection \<Rightarrow> AggInsufficientFunds | CreateOther \<Rightarrow> AggOnchainTxCreationFailed)"

fun tx_fee_loop :: "'w bdk_view \<Rightarrow> ('k, 'w) wallets \<Rightarrow> u64 \<Rightarrow> tx_in list \<Rightarrow> (u64, agg_error) result" where
  "tx_fee_loop V ws acc [] = Inr acc"
| "tx_fee_loop V ws acc (i # is) =
     and_then (get_input_value V (previous_output i) ws) (\<lambda>v.
     and_then (ok_or AggWalletOperationFailed (checked_add acc v)) (\<lambda>acc.
     tx_fee_loop V ws acc is))"

definition calculate_tx_fee :: "'w bdk_view \<Rightarrow> ('k, 'w, 'p) aggregate \<Rightarrow> transaction \<Rightarrow> (u64, agg_error) result" where
  "calculate_tx_fee V a tx =
     (case find_map (\<lambda>(_, w). calculate_fee V w tx) (agg_wallets a) of
        Some fee \<Rightarrow> Inr fee
      | None \<Rightarrow>
          and_then (tx_fee_loop V (agg_wallets a) 0 (tx_input tx)) (\<lambda>total_in.
          and_then (try_sum AggWalletOperationFailed 0 (map to_value (tx_output tx))) (\<lambda>total_out.
          ok_or AggWalletOperationFailed (checked_sub total_in total_out))))"

definition select_utxos ::
    "('w, 'p, 'u, 'ev, 'blk, 'b) agg_libs \<Rightarrow> ('k, 'w, 'p) aggregate \<Rightarrow> u64 \<Rightarrow> local_output list \<Rightarrow> u64
       \<Rightarrow> coin_selection_algorithm \<Rightarrow> script \<Rightarrow> outpoint list \<Rightarrow> (outpoint list, agg_error) result" where
  "select_utxos X a target available fee_rate algorithm drain excluded =
     select_utxos_with_algorithm (lib_btc X) (lib_view X) (lib_select X)
       \<lparr>target_amount = target, available_utxos = available, sr_fee_rate = fee_rate,
        sr_algorithm = algorithm, drain_script = drain, excluded_outpoints = excluded,
        sr_wallets = agg_wallets a, recipient_script = None, include_payment_overhead = True\<rparr>"

text \<open>In the operations below a missing primary wallet is a panic (\<open>None\<close>).\<close>

definition non_primary_foreign_utxos ::
    "('w, 'p, 'u, 'ev, 'blk, 'b) agg_libs \<Rightarrow> ('k, 'w, 'p) aggregate \<Rightarrow> txid list
       \<Rightarrow> (utxo_psbt_info list, agg_error) result option" where
  "non_primary_foreign_utxos X a excluded_txids =
     map_option (\<lambda>primary.
       (let primary_outpoints = map lo_outpoint (list_unspent (lib_view X) primary);
            non_primary = filter (\<lambda>u. op_txid (lo_outpoint u) \<notin> set excluded_txids)
              (filter (\<lambda>u. lo_outpoint u \<notin> set primary_outpoints) (list_unspent_all (lib_view X) a))
        in if non_primary = [] then Inr []
           else prepare_utxos_for_psbt (lib_btc X) (lib_view X) non_primary (agg_wallets a) (agg_primary a)))
       (primary_wallet a)"

definition segwit_compatible :: "bitcoin_lib \<Rightarrow> local_output \<Rightarrow> bool" where
  "segwit_compatible B u \<longleftrightarrow> has_witness_version B (to_script (lo_txout u)) \<or> is_p2sh B (to_script (lo_txout u))"

definition select_non_primary_foreign_utxos ::
    "('w, 'p, 'u, 'ev, 'blk, 'b) agg_libs \<Rightarrow> ('k, 'w, 'p) aggregate \<Rightarrow> u64 \<Rightarrow> u64 \<Rightarrow> txid list \<Rightarrow> bool
       \<Rightarrow> coin_selection_algorithm \<Rightarrow> (utxo_psbt_info list, agg_error) result option" where
  "select_non_primary_foreign_utxos X a deficit fee_rate excluded_txids segwit_only algorithm =
     map_option (\<lambda>primary.
       (let primary_outpoints = map lo_outpoint (list_unspent (lib_view X) primary);
            non_primary = filter (\<lambda>u. lo_outpoint u \<notin> set primary_outpoints
                \<and> op_txid (lo_outpoint u) \<notin> set excluded_txids
                \<and> (\<not> segwit_only \<or> segwit_compatible (lib_btc X) u)) (list_confirmed_unspent (lib_view X) a)
        in if non_primary = [] then Inr []
           else
             and_then (select_utxos_for_deficit (lib_btc X) (lib_view X) (lib_select X) deficit non_primary fee_rate
                 algorithm (peek_script (lib_view X) primary Internal 0) [] (agg_wallets a)) (\<lambda>selected.
             prepare_outpoints_for_psbt (lib_btc X) (lib_view X) selected (agg_wallets a) (agg_primary a))))
       (primary_wallet a)"

text \<open>The inputs of a payment: one selection over the outputs of all wallets.\<close>

definition unified_inputs ::
    "('w, 'p, 'u, 'ev, 'blk, 'b) agg_libs \<Rightarrow> ('k, 'w, 'p) aggregate \<Rightarrow> 'k \<Rightarrow> script \<Rightarrow> u64 \<Rightarrow> u64 \<Rightarrow> txid list
       \<Rightarrow> coin_selection_algorithm \<Rightarrow> (local_output \<Rightarrow> bool) \<Rightarrow> (utxo_psbt_info list, agg_error) result" where
  "unified_inputs X a build_key output_script amount fee_rate excluded_txids algorithm utxo_filter =
     (let all_utxos = filter utxo_filter
            (filter (\<lambda>u. op_txid (lo_outpoint u) \<notin> set excluded_txids) (list_unspent_all (lib_view X) a))
      in if all_utxos = [] then Inl AggNoSpendableOutputs
         else
           and_then (ok_or AggWalletNotFound (map_of (agg_wallets a) build_key)) (\<lambda>w.
           and_then (select_utxos_with_algorithm (lib_btc X) (lib_view X) (lib_select X)
             \<lparr>target_amount = amount, available_utxos = all_utxos, sr_fee_rate = fee_rate,
              sr_algorithm = algorithm, drain_script = peek_script (lib_view X) w Internal 0,
              excluded_outpoints = [], sr_wallets = agg_wallets a, recipient_script = Some output_script,
              include_payment_overhead = True\<rparr>) (\<lambda>selected.
           and_then (prepare_outpoints_for_psbt (lib_btc X) (lib_view X) selected (agg_wallets a) (agg_primary a)) (\<lambda>infos.
           if infos = [] then Inl AggInsufficientFunds else Inr infos))))"

text \<open>Finish a builder that borrowed the wallet at \<open>key\<close>.\<close>

definition finish_on ::
    "('w, 'b) builder_lib \<Rightarrow> ('k, 'w, 'p) aggregate \<Rightarrow> 'k \<Rightarrow> 'b
       \<Rightarrow> ('k, 'w, 'p) aggregate \<times> (psbt, create_tx_error) result" where
  "finish_on T a key b =
     (case finish T b of (w, r) \<Rightarrow> (a\<lparr>agg_wallets := AList.update key w (agg_wallets a)\<rparr>, r))"

definition build_tx_unified ::
    "('w, 'p, 'u, 'ev, 'blk, 'b) agg_libs \<Rightarrow> ('k, 'w, 'p) aggregate \<Rightarrow> 'k \<Rightarrow> script \<Rightarrow> u64 \<Rightarrow> u64 \<Rightarrow> u32 option
       \<Rightarrow> txid list \<Rightarrow> coin_selection_algorithm \<Rightarrow> (local_output \<Rightarrow> bool)
       \<Rightarrow> ('k, 'w, 'p) aggregate \<times> (psbt, agg_error) result" where
  "build_tx_unified X a build_key output_script amount fee_rate locktime excluded_txids algorithm utxo_filter =
     (case unified_inputs X a build_key output_script amount fee_rate excluded_txids algorithm utxo_filter of
        Inl e \<Rightarrow> (a, Inl e)
      | Inr infos \<Rightarrow>
          (case map_of (agg_wallets a) build_key of
             None \<Rightarrow> (a, Inl AggWalletNotFound)
           | Some w \<Rightarrow>
               (let T = lib_build X;
                    b = set_fee_rate T (add_recipient T (build_tx T w) output_script amount) fee_rate;
                    b = (case locktime of Some lt \<Rightarrow> nlocktime T b lt | None \<Rightarrow> b)
                in case add_utxos_to_tx_builder (input_ops T) b infos of
                     Inl e \<Rightarrow> (a, Inl e)
                   | Inr b \<Rightarrow>
                       (case finish_on T a build_key (manually_selected_only T b) of
                          (a, Inl _) \<Rightarrow> (a, Inl AggInsufficientFunds)
                        | (a, Inr psbt) \<Rightarrow> (a, Inr psbt)))))"

definition sign_psbt_all ::
    "('w, 'p, 'u, 'ev, 'blk, 'b) agg_libs \<Rightarrow> ('k, 'w, 'p) aggregate \<Rightarrow> psbt \<Rightarrow> (transaction, agg_error) result" where
  "sign_psbt_all X a p = sign_psbt_all_wallets (lib_view X) (lib_sign X) p (agg_wallets a)"

text \<open>Sign, then persist every wallet.\<close>

definition sign_and_persist ::
    "('w, 'p, 'u, 'ev, 'blk, 'b) agg_libs \<Rightarrow> ('k, 'w, 'p) aggregate \<times> (psbt, agg_error) result
       \<Rightarrow> ('k, 'w, 'p) aggregate \<times> (transaction, agg_error) result" where
  "sign_and_persist X built =
     (case built of
        (a, Inl e) \<Rightarrow> (a, Inl e)
      | (a, Inr p) \<Rightarrow>
          (case sign_psbt_all X a p of
             Inl e \<Rightarrow> (a, Inl e)
           | Inr tx \<Rightarrow>
               (case persist_all (lib_ops X) a of
                  (a, Inl e) \<Rightarrow> (a, Inl e)
                | (a, Inr _) \<Rightarrow> (a, Inr tx))))"

definition build_and_sign_funding_tx ::
    "('w, 'p, 'u, 'ev, 'blk, 'b) agg_libs \<Rightarrow> ('k, 'w, 'p) aggregate \<Rightarrow> script \<Rightarrow> u64 \<Rightarrow> u64 \<Rightarrow> u32
       \<Rightarrow> ('k, 'w, 'p) aggregate \<times> (transaction, agg_error) result" where
  "build_and_sign_funding_tx X a output_script amount fee_rate locktime =
     sign_and_persist X (build_tx_unified X a (agg_primary a) output_script amount fee_rate (Some locktime) []
       BranchAndBound (segwit_compatible (lib_btc X)))"

definition spendable_of :: "'w bdk_view \<Rightarrow> ('k, 'w, 'p) aggregate \<Rightarrow> 'k \<Rightarrow> u64" where
  "spendable_of V a k =
     (case balance_for V a k of Inr b \<Rightarrow> bal_confirmed b + bal_trusted_pending b | Inl _ \<Rightarrow> 0)"

definition build_and_sign_tx_with_best_wallet ::
    "('w, 'p, 'u, 'ev, 'blk, 'b) agg_libs \<Rightarrow> ('k, 'w, 'p) aggregate \<Rightarrow> script \<Rightarrow> u64 \<Rightarrow> u64 \<Rightarrow> u32 \<Rightarrow> ('k \<Rightarrow> bool)
       \<Rightarrow> ('k, 'w, 'p) aggregate \<times> (transaction, agg_error) result" where
  "build_and_sign_tx_with_best_wallet X a output_script amount fee_rate locktime eligible =
     (case sort_key (\<lambda>k. - uint (spendable_of (lib_view X) a k)) (filter eligible (map fst (agg_wallets a))) of
        [] \<Rightarrow> (a, Inl AggInsufficientFunds)
      | build_key # _ \<Rightarrow>
          sign_and_persist X (build_tx_unified X a build_key output_script amount fee_rate (Some locktime) []
            BranchAndBound (segwit_compatible (lib_btc X))))"

definition build_psbt_with_cross_wallet_fallback ::
    "('w, 'p, 'u, 'ev, 'blk, 'b) agg_libs \<Rightarrow> ('k, 'w, 'p) aggregate \<Rightarrow> script \<Rightarrow> u64 \<Rightarrow> u64 \<Rightarrow> txid list
       \<Rightarrow> coin_selection_algorithm \<Rightarrow> ('k, 'w, 'p) aggregate \<times> (psbt, agg_error) result" where
  "build_psbt_with_cross_wallet_fallback X a output_script amount fee_rate excluded_txids algorithm =
     build_tx_unified X a (agg_primary a) output_script amount fee_rate None excluded_txids algorithm (\<lambda>_. True)"

text \<open>The foreign inputs of a drain or of a bump, added one by one.\<close>

fun add_foreign_inputs :: "'b tx_builder_ops \<Rightarrow> 'b \<Rightarrow> utxo_psbt_info list \<Rightarrow> ('b, agg_error) result" where
  "add_foreign_inputs T b [] = Inr b"
| "add_foreign_inputs T b (info # infos) =
     (case add_foreign_utxo_with_sequence T b (up_outpoint info) (up_psbt_input info) (up_weight info)
             ENABLE_RBF_NO_LOCKTIME of
        None \<Rightarrow> Inl AggOnchainTxCreationFailed
      | Some b' \<Rightarrow> add_foreign_inputs T b' infos)"

text \<open>\<open>Balance::total\<close> of BDK; adding amounts panics on overflow.\<close>

definition balance_total :: "balance \<Rightarrow> u64 option" where
  "balance_total b =
     Option.bind (checked_add (bal_confirmed b) (bal_trusted_pending b)) (\<lambda>t.
     Option.bind (checked_add t (bal_untrusted_pending b)) (\<lambda>t. checked_add t (bal_immature b)))"

definition build_and_sign_drain ::
    "('w, 'p, 'u, 'ev, 'blk, 'b) agg_libs \<Rightarrow> ('k, 'w, 'p) aggregate \<Rightarrow> script \<Rightarrow> u64
       \<Rightarrow> (('k, 'w, 'p) aggregate \<times> (transaction, agg_error) result) option" where
  "build_and_sign_drain X a destination fee_rate =
     (case non_primary_foreign_utxos X a [] of
        None \<Rightarrow> None
      | Some (Inl e) \<Rightarrow> Some (a, Inl e)
      | Some (Inr infos) \<Rightarrow>
          (case map_of (agg_wallets a) (agg_primary a) of
             None \<Rightarrow> Some (a, Inl AggWalletNotFound)
           | Some w \<Rightarrow>
               Option.bind (balance_total (wallet_balance (lib_view X) w)) (\<lambda>total_balance.
               if total_balance = 0 \<and> infos = [] then Some (a, Inl AggNoSpendableOutputs)
               else
                 (let T = lib_build X;
                      b = set_fee_rate T (drain_to T (drain_wallet T (build_tx T w)) destination) fee_rate
                  in case add_foreign_inputs (input_ops T) b infos of
                       Inl e \<Rightarrow> Some (a, Inl e)
                     | Inr b \<Rightarrow>
                         (case finish_on T a (agg_primary a) b of
                            (a, Inl _) \<Rightarrow> Some (a, Inl AggOnchainTxCreationFailed)
                          | (a, Inr p) \<Rightarrow> Some (a, sign_psbt_all X a p))))))"

section \<open>Child pays for parent\<close>

definition cpfp_parent ::
    "('w, 'p, 'u, 'ev, 'blk, 'b) agg_libs \<Rightarrow> ('k, 'w, 'p) aggregate \<Rightarrow> txid
       \<Rightarrow> (transaction \<times> u64 \<times> u64, agg_error) result" where
  "cpfp_parent X a parent_txid =
     and_then (ok_or AggTransactionNotFound (find_tx (lib_view X) a parent_txid)) (\<lambda>parent_tx.
     if is_tx_confirmed_in_any_wallet (lib_view X) a parent_txid then Inl AggTransactionAlreadyConfirmed
     else
       and_then (calculate_tx_fee (lib_view X) a parent_tx) (\<lambda>parent_fee.
       Inr (parent_tx, parent_fee, amount_div_weight (lib_btc X) parent_fee (tx_weight (lib_btc X) parent_tx))))"

definition build_cpfp ::
    "('w, 'p, 'u, 'ev, 'blk, 'b) agg_libs \<Rightarrow> ('k, 'w, 'p) aggregate \<Rightarrow> txid \<Rightarrow> u64 \<Rightarrow> script option
       \<Rightarrow> (('k, 'w, 'p) aggregate \<times> (transaction \<times> u64 \<times> u64, agg_error) result) option" where
  "build_cpfp X a parent_txid fee_rate destination_script =
     (case cpfp_parent X a parent_txid of
        Inl e \<Rightarrow> Some (a, Inl e)
      | Inr (parent_tx, parent_fee, parent_fee_rate) \<Rightarrow>
          (let utxos = filter (\<lambda>u. op_txid (lo_outpoint u) = parent_txid) (list_unspent_all (lib_view X) a)
           in if utxos = [] then Some (a, Inl AggNoSpendableOutputs)
              else
                (case prepare_utxos_for_psbt (lib_btc X) (lib_view X) utxos (agg_wallets a) (agg_primary a) of
                   Inl e \<Rightarrow> Some (a, Inl e)
                 | Inr infos \<Rightarrow>
                     Option.bind (primary_wallet a) (\<lambda>w.
                     let (w, drain) = (case destination_script of
                                         Some s \<Rightarrow> (w, s)
                                       | None \<Rightarrow> map_prod id ai_script (next_unused_address (lib_ops X) w Internal));
                         a = a\<lparr>agg_wallets := AList.update (agg_primary a) w (agg_wallets a)\<rparr>;
                         T = lib_build X
                     in case add_utxos_to_tx_builder (input_ops T) (build_tx T w) infos of
                          Inl _ \<Rightarrow> Some (a, Inl AggOnchainTxCreationFailed)
                        | Inr b \<Rightarrow>
                            (case finish_on T a (agg_primary a)
                                    (manually_selected_only T (drain_to T (set_fee_rate T b fee_rate) drain)) of
                               (a, Inl _) \<Rightarrow> Some (a, Inl AggOnchainTxCreationFailed)
                             | (a, Inr p) \<Rightarrow>
                                 Some (a, and_then (sign_psbt_all X a p) (\<lambda>tx. Inr (tx, parent_fee, parent_fee_rate))))))))"

definition calculate_cpfp_fee_rate ::
    "('w, 'p, 'u, 'ev, 'blk, 'b) agg_libs \<Rightarrow> ('k, 'w, 'p) aggregate \<Rightarrow> txid \<Rightarrow> u64 \<Rightarrow> (u64, agg_error) result" where
  "calculate_cpfp_fee_rate X a parent_txid target_fee_rate =
     and_then (cpfp_parent X a parent_txid) (\<lambda>(parent_tx, parent_fee, parent_fee_rate).
     if target_fee_rate \<le> parent_fee_rate then Inr (parent_fee_rate + 250)
     else
       (let R = lib_rate X;
            estimated_child_vbytes = 120;
            parent_vbytes = to_vbytes_ceil R (tx_weight (lib_btc X) parent_tx);
            parent_fee_deficit = (to_sat_per_vb_ceil R target_fee_rate - to_sat_per_vb_ceil R parent_fee_rate) * parent_vbytes;
            base_child_fee = to_sat_per_vb_ceil R target_fee_rate * estimated_child_vbytes;
            total_child_fee = base_child_fee + parent_fee_deficit;
            child_fee_rate_sat_vb = total_child_fee div estimated_child_vbytes
        in Inr (case from_sat_per_vb R child_fee_rate_sat_vb of
                  Some r \<Rightarrow> r
                | None \<Rightarrow> child_fee_rate_sat_vb * 250)))"

section \<open>Replacement\<close>

definition is_primary_only_tx :: "'w bdk_view \<Rightarrow> ('k, 'w, 'p) aggregate \<Rightarrow> txid \<Rightarrow> bool option" where
  "is_primary_only_tx V a i =
     map_option (\<lambda>primary.
       get_tx V primary i \<noteq> None \<and>
       (case find_tx V a i of
          None \<Rightarrow> False
        | Some tx \<Rightarrow>
            list_all (\<lambda>txin.
              get_utxo V primary (previous_output txin) \<noteq> None
              \<or> (case output_of V primary (previous_output txin) of
                   Some txout \<Rightarrow> is_mine V primary (to_script txout)
                 | None \<Rightarrow> False)) (tx_input tx))) (primary_wallet a)"

text \<open>The inputs added to a replacement when the change alone does not pay for it.\<close>

definition rbf_extra_inputs ::
    "('w, 'p, 'u, 'ev, 'blk, 'b) agg_libs \<Rightarrow> ('k, 'w, 'p) aggregate \<Rightarrow> transaction \<Rightarrow> u64 \<Rightarrow> u64
       \<Rightarrow> (utxo_psbt_info list, agg_error) result option" where
  "rbf_extra_inputs X a original_tx new_fee_rate deficit =
     (let original_outpoints = map previous_output (tx_input original_tx);
          original_txid = compute_txid (lib_btc X) original_tx;
          available = filter (\<lambda>u. op_txid (lo_outpoint u) \<noteq> original_txid)
            (filter (\<lambda>u. lo_outpoint u \<notin> set original_outpoints) (list_confirmed_unspent (lib_view X) a))
      in if available = [] then Some (Inl AggInsufficientFunds)
         else
           map_option (\<lambda>primary.
             and_then (select_utxos_for_deficit (lib_btc X) (lib_view X) (lib_select X) deficit available new_fee_rate
                 BranchAndBound (peek_script (lib_view X) primary Internal 0) [] (agg_wallets a)) (\<lambda>selected.
             and_then (prepare_outpoints_for_psbt (lib_btc X) (lib_view X) selected (agg_wallets a) (agg_primary a)) (\<lambda>infos.
             if infos = [] then Inl AggInsufficientFunds else Inr infos))) (primary_wallet a))"

definition build_cross_wallet_rbf_with_fallback ::
    "('w, 'p, 'u, 'ev, 'blk, 'b) agg_libs \<Rightarrow> ('k, 'w, 'p) aggregate \<Rightarrow> transaction \<Rightarrow> u64
       \<Rightarrow> (transaction, agg_error) result option" where
  "build_cross_wallet_rbf_with_fallback X a original_tx new_fee_rate =
     (let rbf = build_cross_wallet_rbf (lib_btc X) (lib_view X) (lib_sign X) (agg_wallets a) (agg_primary a)
            original_tx new_fee_rate
      in case rbf [] of
           Inr tx \<Rightarrow> Some (Inr tx)
         | Inl e \<Rightarrow>
             if e \<noteq> AggInsufficientFunds then Some (Inl e)
             else
               (case additional_input_value_needed (lib_btc X) (lib_view X) (agg_wallets a) (agg_primary a)
                       original_tx new_fee_rate of
                  Inl e \<Rightarrow> Some (Inl e)
                | Inr deficit \<Rightarrow>
                    map_option (\<lambda>extra. and_then extra rbf) (rbf_extra_inputs X a original_tx new_fee_rate deficit)))"

text \<open>The shortfall that foreign inputs have to cover when the primary wallet cannot bump alone.\<close>

definition primary_bump_deficit ::
    "('w, 'p, 'u, 'ev, 'blk, 'b) agg_libs \<Rightarrow> ('k, 'w, 'p) aggregate \<Rightarrow> txid \<Rightarrow> u64 \<Rightarrow> (u64, agg_error) result" where
  "primary_bump_deficit X a i fee_rate =
     and_then (ok_or AggTransactionNotFound (find_tx (lib_view X) a i)) (\<lambda>original_tx.
     and_then (calculate_tx_fee (lib_view X) a original_tx) (\<lambda>original_fee.
     and_then (ok_or AggInvalidFeeRate (fee_wu (lib_btc X) fee_rate (tx_weight (lib_btc X) original_tx))) (\<lambda>new_fee.
     let fee_increase = saturating_sub new_fee original_fee;
         absorbable = (case find_internal_change_output (lib_view X) (agg_wallets a) (agg_primary a) original_tx of
                         Some (_, out) \<Rightarrow> to_value out
                       | None \<Rightarrow> 0)
     in and_then (ok_or AggOnchainTxCreationFailed (checked_add fee_increase DUST_LIMIT_SATS)) (\<lambda>required_value.
        Inr (saturating_sub required_value absorbable)))))"

definition bump_with_foreign ::
    "('w, 'p, 'u, 'ev, 'blk, 'b) agg_libs \<Rightarrow> ('k, 'w, 'p) aggregate \<Rightarrow> txid \<Rightarrow> u64 \<Rightarrow> utxo_psbt_info list
       \<Rightarrow> ('k, 'w, 'p) aggregate \<times> (transaction, agg_error) result" where
  "bump_with_foreign X a i fee_rate infos =
     (let T = lib_build X in
      case map_of (agg_wallets a) (agg_primary a) of
        None \<Rightarrow> (a, Inl AggWalletNotFound)
      | Some w \<Rightarrow>
          (case build_fee_bump T w i of
             None \<Rightarrow> (a, Inl AggOnchainTxCreationFailed)
           | Some b \<Rightarrow>
               (case add_foreign_inputs (input_ops T) (set_fee_rate T b fee_rate) infos of
                  Inl e \<Rightarrow> (a, Inl e)
                | Inr b \<Rightarrow>
                    (case finish_on T a (agg_primary a) b of
                       (a, Inl _) \<Rightarrow> (a, Inl AggOnchainTxCreationFailed)
                     | (a, Inr p) \<Rightarrow> (a, sign_psbt_all X a p)))))"

definition bump_primary ::
    "('w, 'p, 'u, 'ev, 'blk, 'b) agg_libs \<Rightarrow> ('k, 'w, 'p) aggregate \<Rightarrow> txid \<Rightarrow> u64
       \<Rightarrow> ('k, 'w, 'p) aggregate \<times> (psbt, agg_error) result" where
  "bump_primary X a i fee_rate =
     (let T = lib_build X in
      case map_of (agg_wallets a) (agg_primary a) of
        None \<Rightarrow> (a, Inl AggWalletNotFound)
      | Some w \<Rightarrow>
          (case build_fee_bump T w i of
             None \<Rightarrow> (a, Inl AggOnchainTxCreationFailed)
           | Some b \<Rightarrow>
               (case finish_on T a (agg_primary a) (set_fee_rate T b fee_rate) of
                  (a, Inl e) \<Rightarrow> (a, Inl (map_tx_builder_error e))
                | (a, Inr p) \<Rightarrow> (a, Inr p))))"

definition build_rbf_primary_with_fallback ::
    "('w, 'p, 'u, 'ev, 'blk, 'b) agg_libs \<Rightarrow> ('k, 'w, 'p) aggregate \<Rightarrow> txid \<Rightarrow> u64
       \<Rightarrow> (('k, 'w, 'p) aggregate \<times> (transaction, agg_error) result) option" where
  "build_rbf_primary_with_fallback X a i fee_rate =
     (case bump_primary X a i fee_rate of
        (a, Inr p) \<Rightarrow> Some (a, sign_psbt_all X a p)
      | (a, Inl e) \<Rightarrow>
          if e \<noteq> AggInsufficientFunds then Some (a, Inl e)
          else
            (case primary_bump_deficit X a i fee_rate of
               Inl e \<Rightarrow> Some (a, Inl e)
             | Inr deficit \<Rightarrow>
                 (case select_non_primary_foreign_utxos X a deficit fee_rate [i] False BranchAndBound of
                    None \<Rightarrow> None
                  | Some (Inl e) \<Rightarrow> Some (a, Inl e)
                  | Some (Inr infos) \<Rightarrow>
                      if infos = [] then Some (a, Inl AggInsufficientFunds)
                      else Some (bump_with_foreign X a i fee_rate infos))))"

text \<open>The checks a transaction has to pass before it is replaced; its fee is returned with it.\<close>

definition rbf_original ::
    "('w, 'p, 'u, 'ev, 'blk, 'b) agg_libs \<Rightarrow> ('k, 'w, 'p) aggregate \<Rightarrow> txid \<Rightarrow> u64
       \<Rightarrow> (transaction \<times> u64, agg_error) result" where
  "rbf_original X a i new_fee_rate =
     and_then (ok_or AggTransactionNotFound (find_tx (lib_view X) a i)) (\<lambda>original_tx.
     if is_tx_confirmed_in_any_wallet (lib_view X) a i then Inl AggTransactionAlreadyConfirmed
     else
       and_then (calculate_tx_fee (lib_view X) a original_tx) (\<lambda>original_fee.
       and_then (minimum_replacement_fee_rate (lib_btc X) original_fee (tx_weight (lib_btc X) original_tx)) (\<lambda>minimum.
       if new_fee_rate < minimum then Inl AggInvalidFeeRate else Inr (original_tx, original_fee))))"

definition build_rbf ::
    "('w, 'p, 'u, 'ev, 'blk, 'b) agg_libs \<Rightarrow> ('k, 'w, 'p) aggregate \<Rightarrow> txid \<Rightarrow> u64
       \<Rightarrow> (('k, 'w, 'p) aggregate \<times> (transaction \<times> u64, agg_error) result) option" where
  "build_rbf X a i new_fee_rate =
     (case rbf_original X a i new_fee_rate of
        Inl e \<Rightarrow> Some (a, Inl e)
      | Inr (original_tx, original_fee) \<Rightarrow>
          (case is_primary_only_tx (lib_view X) a i of
             None \<Rightarrow> None
           | Some True \<Rightarrow>
               map_option (\<lambda>(a, r). (a, and_then r (\<lambda>tx. Inr (tx, original_fee))))
                 (build_rbf_primary_with_fallback X a i new_fee_rate)
           | Some False \<Rightarrow>
               map_option (\<lambda>r. (a, and_then r (\<lambda>tx. Inr (tx, original_fee))))
                 (build_cross_wallet_rbf_with_fallback X a original_tx new_fee_rate)))"

section \<open>Lemmas\<close>

lemma selected_available:
  assumes "\<forall>al ws r t d out. sel al ws r t d = Some out \<longrightarrow> set out \<subseteq> snd ` set ws"
    and "select_utxos_with_algorithm_inner B V sel req = Inr outpoints"
  shows "set outpoints \<subseteq> lo_outpoint ` set (available_utxos req)"
proof -
  let ?ws = "map (\<lambda>u. (utxo_weight B V (sr_wallets req) u, BdkLocal u))
    (filter (\<lambda>u. lo_outpoint u \<notin> set (excluded_outpoints req)) (available_utxos req))"
  obtain target out where out: "sel (sr_algorithm req) ?ws (sr_fee_rate req) target (drain_script req) = Some out"
      and res: "outpoints = map lo_outpoint (List.map_filter local_of out)"
    using assms(2)
    by (auto simp: select_utxos_with_algorithm_inner_def Let_def split: if_splits option.splits elim!: and_then.elims)
  have "set out \<subseteq> snd ` set ?ws"
    using assms(1) out by blast
  then show ?thesis
    unfolding res by (fastforce simp: map_filter_def elim!: local_of.elims)
qed

lemma prepared_among:
  assumes "\<forall>w op u. get_utxo V w op = Some u \<longrightarrow> lo_outpoint u = op"
    and "prepare_outpoints_for_psbt B V outpoints ws primary = Inr infos" and "info \<in> set infos"
  shows "up_outpoint info \<in> set outpoints"
proof -
  have all: "list_all2 (\<lambda>u info. prepare_utxo B V ws primary u = Inr info)
      (List.map_filter (find_unspent V ws) outpoints) infos"
    using assms(2)
    by (auto simp: prepare_outpoints_for_psbt_def prepare_utxos_for_psbt_def try_map_Inr Let_def split: if_splits)
  obtain u where u: "u \<in> set (List.map_filter (find_unspent V ws) outpoints)"
    and info: "prepare_utxo B V ws primary u = Inr info"
    using list_all2_right [OF all assms(3)] by blast
  then obtain op where op: "op \<in> set outpoints" "find_unspent V ws op = Some u"
    by (auto simp: map_filter_def)
  then have "lo_outpoint u = op"
    using find_unspent_Some [OF op(2)] assms(1) by auto
  with op prepare_utxo_Inr(1) [OF info] show ?thesis
    by simp
qed

definition confirmed_unspent :: "'w bdk_view \<Rightarrow> ('k, 'w, 'p) aggregate \<Rightarrow> outpoint \<Rightarrow> bool" where
  "confirmed_unspent V a op \<longleftrightarrow>
     (\<exists>(k, w) \<in> set (agg_wallets a). (\<exists>u \<in> set (list_unspent V w). lo_outpoint u = op)
        \<and> (\<exists>pos. (op_txid op, pos) \<in> set (transactions V w) \<and> cp_is_confirmed pos))"

lemma list_confirmed_unspent_iff:
  "op \<in> lo_outpoint ` set (list_confirmed_unspent V a) \<longleftrightarrow> confirmed_unspent V a op"
  by (fastforce simp: list_confirmed_unspent_def confirmed_unspent_def image_iff)

lemma rbf_extra_inputs_safe:
  assumes "\<forall>al ws r t d out. lib_select X al ws r t d = Some out \<longrightarrow> set out \<subseteq> snd ` set ws"
    and "\<forall>w op u. get_utxo (lib_view X) w op = Some u \<longrightarrow> lo_outpoint u = op"
    and "rbf_extra_inputs X a tx rate deficit = Some (Inr infos)" and "info \<in> set infos"
  shows "confirmed_unspent (lib_view X) a (up_outpoint info)
    \<and> up_outpoint info \<notin> previous_output ` set (tx_input tx)
    \<and> op_txid (up_outpoint info) \<noteq> compute_txid (lib_btc X) tx"
proof -
  let ?available = "filter (\<lambda>u. op_txid (lo_outpoint u) \<noteq> compute_txid (lib_btc X) tx)
    (filter (\<lambda>u. lo_outpoint u \<notin> set (map previous_output (tx_input tx))) (list_confirmed_unspent (lib_view X) a))"
  obtain drain selected where
    sel: "select_utxos_for_deficit (lib_btc X) (lib_view X) (lib_select X) deficit ?available rate BranchAndBound
      drain [] (agg_wallets a) = Inr selected"
    and prep: "prepare_outpoints_for_psbt (lib_btc X) (lib_view X) selected (agg_wallets a) (agg_primary a) = Inr infos"
    using assms(3) by (auto simp: rbf_extra_inputs_def Let_def and_then_eq_Inr split: if_splits)
  have "set selected \<subseteq> lo_outpoint ` set ?available"
    using selected_available [OF assms(1)] sel by (fastforce simp: select_utxos_for_deficit_def)
  then have "up_outpoint info \<in> lo_outpoint ` set ?available"
    using prepared_among [OF assms(2) prep assms(4)] by blast
  then obtain u where u: "u \<in> set (list_confirmed_unspent (lib_view X) a)" "up_outpoint info = lo_outpoint u"
    "lo_outpoint u \<notin> previous_output ` set (tx_input tx)" "op_txid (lo_outpoint u) \<noteq> compute_txid (lib_btc X) tx"
    by auto
  then have "up_outpoint info \<in> lo_outpoint ` set (list_confirmed_unspent (lib_view X) a)"
    by simp
  with u show ?thesis
    by (simp add: list_confirmed_unspent_iff)
qed

lemma cross_rbf_fallback_Inr:
  assumes "build_cross_wallet_rbf_with_fallback X a tx rate = Some (Inr stx)"
  obtains extra where "build_cross_wallet_rbf (lib_btc X) (lib_view X) (lib_sign X) (agg_wallets a) (agg_primary a)
      tx rate extra = Inr stx"
    and "extra = [] \<or> (\<exists>deficit. rbf_extra_inputs X a tx rate deficit = Some (Inr extra))"
  using assms
  by (auto simp: build_cross_wallet_rbf_with_fallback_def Let_def and_then_eq_Inr split: sum.splits if_splits)

lemma rbf_original_Inr:
  assumes "rbf_original X a i rate = Inr (tx, fee)"
  shows "find_tx (lib_view X) a i = Some tx \<and> \<not> is_tx_confirmed_in_any_wallet (lib_view X) a i
    \<and> calculate_tx_fee (lib_view X) a tx = Inr fee
    \<and> unat (amount_div_weight (lib_btc X) fee (tx_weight (lib_btc X) tx)) + unat (BROADCAST_MIN (lib_btc X)) \<le> unat rate"
  using assms
  by (auto simp: rbf_original_def minimum_replacement_fee_rate_def and_then_eq_Inr ok_or_eq_Inr checked_add_Some
      word_less_nat_alt split: if_splits)

section \<open>Properties\<close>

text \<open>
  C25: a cross-wallet replacement is only built for a known transaction that no wallet has seen
  confirmed, at a rate that exceeds the original one by the relay minimum. Every input it adds is a
  confirmed unspent output of one of the wallets, is not already an input of the original, and is
  not an output of the original itself, so the replacement cannot depend on what it replaces. The
  aggregate is unchanged. It relies on coin selection choosing among its candidates and on
  \<open>get_utxo\<close> returning the output it was asked for.
\<close>

theorem build_rbf_safe:
  assumes "\<forall>al ws r t d out. lib_select X al ws r t d = Some out \<longrightarrow> set out \<subseteq> snd ` set ws"
    and "\<forall>w op u. get_utxo (lib_view X) w op = Some u \<longrightarrow> lo_outpoint u = op"
    and "is_primary_only_tx (lib_view X) a i = Some False"
    and "build_rbf X a i rate = Some (a', Inr (stx, fee))"
  shows "\<exists>tx extra. find_tx (lib_view X) a i = Some tx \<and> a' = a
    \<and> \<not> is_tx_confirmed_in_any_wallet (lib_view X) a i
    \<and> calculate_tx_fee (lib_view X) a tx = Inr fee
    \<and> unat (amount_div_weight (lib_btc X) fee (tx_weight (lib_btc X) tx)) + unat (BROADCAST_MIN (lib_btc X)) \<le> unat rate
    \<and> build_cross_wallet_rbf (lib_btc X) (lib_view X) (lib_sign X) (agg_wallets a) (agg_primary a) tx rate extra = Inr stx
    \<and> (\<forall>info \<in> set extra. confirmed_unspent (lib_view X) a (up_outpoint info)
         \<and> up_outpoint info \<notin> previous_output ` set (tx_input tx)
         \<and> op_txid (up_outpoint info) \<noteq> compute_txid (lib_btc X) tx)"
proof -
  obtain tx where tx: "rbf_original X a i rate = Inr (tx, fee)"
    and rbf: "build_cross_wallet_rbf_with_fallback X a tx rate = Some (Inr stx)" and a': "a' = a"
    using assms(3,4) by (auto simp: build_rbf_def and_then_eq_Inr split: sum.splits)
  from rbf obtain extra where
    "build_cross_wallet_rbf (lib_btc X) (lib_view X) (lib_sign X) (agg_wallets a) (agg_primary a) tx rate extra = Inr stx"
    and extra: "extra = [] \<or> (\<exists>deficit. rbf_extra_inputs X a tx rate deficit = Some (Inr extra))"
    by (rule cross_rbf_fallback_Inr)
  moreover have "\<forall>info \<in> set extra. confirmed_unspent (lib_view X) a (up_outpoint info)
         \<and> up_outpoint info \<notin> previous_output ` set (tx_input tx)
         \<and> op_txid (up_outpoint info) \<noteq> compute_txid (lib_btc X) tx"
    using extra by (auto dest: rbf_extra_inputs_safe [OF assms(1,2)])
  ultimately show ?thesis
    using rbf_original_Inr [OF tx] a' by blast
qed

text \<open>The arithmetic of the child fee rate, with rates in satoshi per virtual byte.\<close>

lemma cpfp_child_rate:
  fixes T P V :: u64
  assumes "unat P \<le> unat T" and bound: "250 * (unat T * (120 + unat V)) < 2 ^ 64"
    and c_def: "c = (T * 120 + (T - P) * V) div 120"
  shows "unat T \<le> unat c \<and> 250 * unat c < 2 ^ 64
    \<and> unat T * (120 + unat V) \<le> unat c * 120 + unat P * unat V + 119"
proof -
  have TP: "unat (T - P) = unat T - unat P"
    using assms(1) by (simp add: unat_sub word_le_nat_alt)
  have le: "(unat T - unat P) * unat V \<le> unat T * unat V"
    by simp
  have "250 * (unat T * 120 + unat T * unat V) < 2 ^ 64"
    using bound by (simp only: distrib_left)
  moreover have "x + d < 2 ^ 64" if "250 * (x + e) < (2 ^ 64 :: nat)" "d \<le> e" for x d e
    using that by simp
  ultimately have fits: "unat T * 120 + (unat T - unat P) * unat V < 2 ^ 64"
    using le by blast
  have "unat (T * 120) = unat T * 120" "unat ((T - P) * V) = (unat T - unat P) * unat V"
    using fits by (simp_all add: unat_word_ariths TP)
  then have "unat (T * 120 + (T - P) * V) = unat T * 120 + (unat T - unat P) * unat V"
    using fits unat_word_ariths(1) [of "T * 120" "(T - P) * V"] by simp
  then have c: "unat c = (unat T * 120 + (unat T - unat P) * unat V) div 120"
    by (simp add: c_def unat_div)
  have "250 * unat c \<le> 250 * (unat T * (120 + unat V))"
    unfolding c using le by (simp add: algebra_simps)
  then have "250 * unat c < 2 ^ 64"
    using bound by linarith
  moreover have "unat T * (120 + unat V) \<le> unat c * 120 + unat P * unat V + 119"
  proof -
    have "x + e \<le> y + p + 119" if "x + d \<le> y + 119" "e = d + p" for x d e y p :: nat
      using that by simp
    moreover have "unat T * 120 + (unat T - unat P) * unat V \<le> unat c * 120 + 119"
      unfolding c by linarith
    moreover have "unat T * unat V = (unat T - unat P) * unat V + unat P * unat V"
      using assms(1) by (simp flip: add_mult_distrib)
    ultimately show ?thesis
      unfolding distrib_left by blast
  qed
  ultimately show ?thesis
    unfolding c by simp
qed

lemma ceil_rate_mono:
  assumes "\<forall>r. unat r \<le> 250 * unat (to_sat_per_vb_ceil R r) \<and> 250 * unat (to_sat_per_vb_ceil R r) < unat r + 250"
    and "p < t"
  shows "unat (to_sat_per_vb_ceil R p) \<le> unat (to_sat_per_vb_ceil R t)"
proof -
  have "250 * unat (to_sat_per_vb_ceil R p) < unat p + 250" "unat t \<le> 250 * unat (to_sat_per_vb_ceil R t)"
    using assms(1) by blast+
  with assms(2) show ?thesis
    by (simp add: word_less_nat_alt)
qed

text \<open>
  C26: the child fee rate suggested for a parent below the target is a whole number of satoshi per
  virtual byte, never below the target, and lets the estimated child of 120 virtual bytes make up
  for the parent, in rates rounded up to whole satoshi per virtual byte and up to less than 120
  satoshi. It relies on the documented rounding of the fee rate conversions and on the amounts
  staying below 64 bits.
\<close>

theorem cpfp_fee_rate_covers:
  assumes "\<forall>r. unat r \<le> 250 * unat (to_sat_per_vb_ceil (lib_rate X) r)
      \<and> 250 * unat (to_sat_per_vb_ceil (lib_rate X) r) < unat r + 250"
    and "\<forall>v. from_sat_per_vb (lib_rate X) v = (if 250 * unat v < 2 ^ 64 then Some (250 * v) else None)"
    and "cpfp_parent X a i = Inr (ptx, pfee, prate)" and "prate < target"
    and "250 * (unat (to_sat_per_vb_ceil (lib_rate X) target)
      * (120 + unat (to_vbytes_ceil (lib_rate X) (tx_weight (lib_btc X) ptx)))) < 2 ^ 64"
    and "calculate_cpfp_fee_rate X a i target = Inr r"
  shows "250 dvd unat r \<and> target \<le> r
    \<and> unat (to_sat_per_vb_ceil (lib_rate X) target) * (120 + unat (to_vbytes_ceil (lib_rate X) (tx_weight (lib_btc X) ptx)))
      \<le> (unat r div 250) * 120
        + unat (to_sat_per_vb_ceil (lib_rate X) prate) * unat (to_vbytes_ceil (lib_rate X) (tx_weight (lib_btc X) ptx)) + 119"
proof -
  define T P V where "T = to_sat_per_vb_ceil (lib_rate X) target" and "P = to_sat_per_vb_ceil (lib_rate X) prate"
    and "V = to_vbytes_ceil (lib_rate X) (tx_weight (lib_btc X) ptx)"
  note defs = T_def [symmetric] P_def [symmetric] V_def [symmetric]
  have PT: "unat P \<le> unat T"
    unfolding T_def P_def using ceil_rate_mono [OF assms(1,4)] .
  have bound: "250 * (unat T * (120 + unat V)) < 2 ^ 64"
    using assms(5) by (simp only: defs)
  define c where "c = (T * 120 + (T - P) * V) div 120"
  have c: "unat T \<le> unat c" "250 * unat c < 2 ^ 64"
    "unat T * (120 + unat V) \<le> unat c * 120 + unat P * unat V + 119"
    using cpfp_child_rate [OF PT bound c_def] by blast+
  have "r = (case from_sat_per_vb (lib_rate X) c of Some r \<Rightarrow> r | None \<Rightarrow> c * 250)"
    unfolding c_def T_def P_def V_def using assms(3,4,6)
    by (simp add: calculate_cpfp_fee_rate_def Let_def not_le [symmetric])
  then have "r = 250 * c"
    using c(2) assms(2) by simp
  then have rn: "unat r = 250 * unat c"
    using c(2) by (simp add: unat_word_ariths)
  have "unat target \<le> 250 * unat T"
    unfolding T_def using assms(1) by blast
  then have "target \<le> r"
    using rn c(1) by (simp add: word_le_nat_alt)
  with c(3) show ?thesis
    by (simp add: defs rn)
qed

section \<open>Examples\<close>

definition example_wallet_ops :: "(example_wallet, nat, unit, unit, unit) bdk_ops" where
  "example_wallet_ops =
     \<lparr>wallet_persist = (\<lambda>w p. (w, Suc p, True)), wallet_cancel_tx = (\<lambda>w _. w),
      apply_update_events = (\<lambda>w _. Some (w, [])), apply_unconfirmed_txs = (\<lambda>w _. w),
      apply_evicted_txs = (\<lambda>w _. w), wallet_apply_block = (\<lambda>w _ _. Some w), tip_height = (\<lambda>_. 0),
      tip_hash = (\<lambda>_. BlockHash []), checkpoint_at = (\<lambda>_ _. None),
      reveal_next_address = (\<lambda>w k. (w, \<lparr>ai_index = 0, ai_script = [], ai_keychain = k\<rparr>)),
      next_unused_address = (\<lambda>w k. (w, \<lparr>ai_index = 0, ai_script = [], ai_keychain = k\<rparr>)),
      wallet_reveal_addresses_to = (\<lambda>w _ _. w),
      peek_address = (\<lambda>w k i. \<lparr>ai_index = i, ai_script = [], ai_keychain = k\<rparr>),
      derivation_index = (\<lambda>_ _. None), lookahead = (\<lambda>_. 0), spk_at_index = (\<lambda>_ _ _. None),
      revealed_spks = (\<lambda>_. [])\<rparr>"

text \<open>A builder is the wallet it borrows.\<close>

definition example_builder :: "(example_wallet, example_wallet) builder_lib" where
  "example_builder =
     \<lparr>input_ops = \<lparr>add_utxo = (\<lambda>b _. Some b), add_foreign_utxo_with_sequence = (\<lambda>b _ _ _ _. Some b)\<rparr>,
      build_tx = (\<lambda>w. w), build_fee_bump = (\<lambda>w _. Some w), add_recipient = (\<lambda>b _ _. b), set_fee_rate = (\<lambda>b _. b),
      nlocktime = (\<lambda>b _. b), manually_selected_only = (\<lambda>b. b), drain_wallet = (\<lambda>b. b), drain_to = (\<lambda>b _. b),
      finish = (\<lambda>b. (b, Inl CreateOther))\<rparr>"

definition example_rates :: fee_rate_lib where
  "example_rates =
     \<lparr>to_sat_per_vb_ceil = (\<lambda>r. of_nat ((unat r + 249) div 250)),
      to_vbytes_ceil = (\<lambda>w. of_nat ((unat w + 3) div 4)),
      from_sat_per_vb = (\<lambda>v. if 250 * unat v < 2 ^ 64 then Some (250 * v) else None)\<rparr>"

definition example_libs :: "(example_wallet, nat, unit, unit, unit, example_wallet) agg_libs" where
  "example_libs =
     \<lparr>lib_btc = example_lib, lib_rate = example_rates, lib_view = example_view, lib_sign = example_signer,
      lib_ops = example_wallet_ops, lib_build = example_builder, lib_select = example_select\<rparr>"

text \<open>
  The primary wallet knows transaction 50, which spends the output 2 of the second wallet and pays
  change to the primary.
\<close>

definition example_cross :: "(nat, example_wallet, nat) aggregate" where
  "example_cross = \<lparr>agg_wallets = [(0, [], [(Txid [50], example_rbf)], [[9]]), (1, [example_output 2 5000], [], [])],
     agg_persisters = [(0, 0), (1, 0)], agg_primary = 0\<rparr>"

lemma example_laws:
  "\<forall>al ws r t d out. lib_select example_libs al ws r t d = Some out \<longrightarrow> set out \<subseteq> snd ` set ws"
  "\<forall>w op u. get_utxo (lib_view example_libs) w op = Some u \<longrightarrow> lo_outpoint u = op"
  by (auto simp: example_libs_def example_select_def example_view_def dest: find_Some_in_set split: if_splits)

lemmas cross_eval = rbf_eval example_cross_def example_libs_def is_primary_only_tx_def primary_wallet_def find_tx_def
  is_tx_confirmed_in_any_wallet_def calculate_tx_fee_def build_rbf_def rbf_original_def
  build_cross_wallet_rbf_with_fallback_def

lemma example_cross_rbf:
  "is_primary_only_tx (lib_view example_libs) example_cross (Txid [50]) = Some False"
  "\<exists>a' stx fee. build_rbf example_libs example_cross (Txid [50]) 3000 = Some (a', Inr (stx, fee))"
  by (simp_all add: cross_eval)

theorem build_rbf_safe_witness:
  "\<exists>a' stx fee. build_rbf example_libs example_cross (Txid [50]) 3000 = Some (a', Inr (stx, fee)) \<and> a' = example_cross
     \<and> \<not> is_tx_confirmed_in_any_wallet (lib_view example_libs) example_cross (Txid [50])"
proof -
  obtain a' stx fee where run: "build_rbf example_libs example_cross (Txid [50]) 3000 = Some (a', Inr (stx, fee))"
    using example_cross_rbf(2) by blast
  show ?thesis
    using build_rbf_safe [OF example_laws example_cross_rbf(1) run] run by blast
qed

lemma example_rate_laws:
  "\<forall>r. unat r \<le> 250 * unat (to_sat_per_vb_ceil (lib_rate example_libs) r)
     \<and> 250 * unat (to_sat_per_vb_ceil (lib_rate example_libs) r) < unat r + 250"
  "\<forall>v. from_sat_per_vb (lib_rate example_libs) v = (if 250 * unat v < 2 ^ 64 then Some (250 * v) else None)"
proof -
  have "unat (to_sat_per_vb_ceil example_rates r) = (unat r + 249) div 250" for r
  proof -
    have "(unat r + 249) div 250 < 2 ^ 64"
      using unsigned_less [of r, where 'a = nat] by simp
    then show ?thesis
      by (simp add: example_rates_def unsigned_of_nat take_bit_eq_mod)
  qed
  then show "\<forall>r. unat r \<le> 250 * unat (to_sat_per_vb_ceil (lib_rate example_libs) r)
     \<and> 250 * unat (to_sat_per_vb_ceil (lib_rate example_libs) r) < unat r + 250"
    by (auto simp: example_libs_def)
qed (simp add: example_libs_def example_rates_def)

lemma example_cpfp_parent: "cpfp_parent example_libs example_cross (Txid [50]) = Inr (example_rbf, 1000, 2500)"
  by (simp add: cross_eval cpfp_parent_def)

lemma example_cpfp:
  "250 * (unat (to_sat_per_vb_ceil (lib_rate example_libs) 5000)
     * (120 + unat (to_vbytes_ceil (lib_rate example_libs) (tx_weight (lib_btc example_libs) example_rbf)))) < 2 ^ 64"
  "calculate_cpfp_fee_rate example_libs example_cross (Txid [50]) 5000 = Inr 7000"
  unfolding calculate_cpfp_fee_rate_def example_cpfp_parent
  by (simp_all add: example_libs_def example_rates_def example_lib_def Let_def)

theorem cpfp_fee_rate_covers_witness:
  "calculate_cpfp_fee_rate example_libs example_cross (Txid [50]) 5000 = Inr 7000
   \<and> 250 dvd unat (7000 :: u64) \<and> (5000 :: u64) \<le> 7000"
  using cpfp_fee_rate_covers [OF example_rate_laws example_cpfp_parent _ example_cpfp] example_cpfp(2) by simp

end
