(* ===== verification/Connection.thy ===== *)
theory Connection
  imports Node_Error LN_Types
begin

text \<open>
  Connecting to peers (\<open>src/connection.rs\<close>). Several tasks may ask for the same peer: the first
  one drives the connection, the others subscribe to its result. Tasks are interleaved between
  their awaits, so the manager is a step relation over the shared table of pending connections,
  the phase of every task and the one-shot channels of the subscribers. What the network does
  (resolution of the address, the outcome of the dial, the peer turning up) is the choice of the
  step.
\<close>

section \<open>Definitions\<close>

type_synonym conn_result = "(unit, node_error) result"

text \<open>Where a task is inside \<open>do_connect_peer\<close>.\<close>

datatype phase =
    Awaiting public_key
  | Resolving public_key
  | Dialing public_key
  | Polling public_key
  | Returned conn_result

record connection_manager =
  pending_connections :: "public_key \<Rightarrow> nat list option"
  task_phase :: "nat \<Rightarrow> phase option"
  oneshot :: "nat \<Rightarrow> conn_result option"

definition ConnectionManager_new :: connection_manager where
  "ConnectionManager_new = \<lparr>pending_connections = (\<lambda>_. None), task_phase = (\<lambda>_. None), oneshot = (\<lambda>_. None)\<rparr>"

text \<open>
  \<open>register_or_subscribe_pending_connection\<close> of task \<open>t\<close>: \<open>True\<close> when it has subscribed, in which
  case the channel is identified with the task.
\<close>

definition register_or_subscribe :: "connection_manager \<Rightarrow> nat \<Rightarrow> public_key \<Rightarrow> connection_manager \<times> bool" where
  "register_or_subscribe cm t n =
     (case pending_connections cm n of
        Some senders \<Rightarrow> (cm\<lparr>pending_connections := (pending_connections cm)(n \<mapsto> senders @ [t])\<rparr>, True)
      | None \<Rightarrow> (cm\<lparr>pending_connections := (pending_connections cm)(n \<mapsto> [])\<rparr>, False))"

definition propagate_result_to_subscribers ::
    "connection_manager \<Rightarrow> public_key \<Rightarrow> conn_result \<Rightarrow> connection_manager" where
  "propagate_result_to_subscribers cm n res =
     (case pending_connections cm n of
        Some senders \<Rightarrow>
          cm\<lparr>pending_connections := (pending_connections cm)(n := None),
             oneshot := fold (\<lambda>s inbox. inbox(s \<mapsto> res)) senders (oneshot cm)\<rparr>
      | None \<Rightarrow> cm)"

definition set_phase :: "nat \<Rightarrow> phase \<Rightarrow> connection_manager \<Rightarrow> connection_manager" where
  "set_phase t ph cm = cm\<lparr>task_phase := (task_phase cm)(t \<mapsto> ph)\<rparr>"

text \<open>A task calls \<open>do_connect_peer\<close>.\<close>

definition start_connect :: "connection_manager \<Rightarrow> nat \<Rightarrow> public_key \<Rightarrow> connection_manager" where
  "start_connect cm t n =
     (case register_or_subscribe cm t n of
        (cm', True) \<Rightarrow> set_phase t (Awaiting n) cm'
      | (cm', False) \<Rightarrow> set_phase t (Resolving n) cm')"

text \<open>The driving task returns \<open>res\<close> after having passed it on.\<close>

definition finish_connect :: "connection_manager \<Rightarrow> nat \<Rightarrow> public_key \<Rightarrow> conn_result \<Rightarrow> connection_manager" where
  "finish_connect cm t n res = set_phase t (Returned res) (propagate_result_to_subscribers cm n res)"

text \<open>
  A new call of \<open>connect_peer_if_necessary\<close> returns at once when the peer is connected already. The
  other steps carry on with a call that is under way; an iteration of the polling loop that finds
  neither the peer nor a closed connection changes nothing and is not a step.
\<close>

inductive conn_call :: "connection_manager \<Rightarrow> connection_manager \<Rightarrow> bool" where
  already_connected: "task_phase cm t = None \<Longrightarrow> conn_call cm (set_phase t (Returned (Inr ())) cm)"
| start: "task_phase cm t = None \<Longrightarrow> conn_call cm (start_connect cm t n)"

inductive conn_progress :: "connection_manager \<Rightarrow> connection_manager \<Rightarrow> bool" where
  resolve_fails: "task_phase cm t = Some (Resolving n) \<Longrightarrow>
    conn_progress cm (finish_connect cm t n (Inl InvalidSocketAddress))"
| resolved: "task_phase cm t = Some (Resolving n) \<Longrightarrow> conn_progress cm (set_phase t (Dialing n) cm)"
| dial_fails: "task_phase cm t = Some (Dialing n) \<Longrightarrow>
    conn_progress cm (finish_connect cm t n (Inl ConnectionFailed))"
| dialed: "task_phase cm t = Some (Dialing n) \<Longrightarrow> conn_progress cm (set_phase t (Polling n) cm)"
| connection_closed: "task_phase cm t = Some (Polling n) \<Longrightarrow>
    conn_progress cm (finish_connect cm t n (Inl ConnectionFailed))"
| peer_connected: "task_phase cm t = Some (Polling n) \<Longrightarrow> conn_progress cm (finish_connect cm t n (Inr ()))"
| receive: "task_phase cm t = Some (Awaiting n) \<Longrightarrow> oneshot cm t = Some res \<Longrightarrow>
    conn_progress cm (set_phase t (Returned res) cm)"

inductive conn_reachable :: "connection_manager \<Rightarrow> bool" where
  reach_new: "conn_reachable ConnectionManager_new"
| reach_call: "conn_reachable cm \<Longrightarrow> conn_call cm cm' \<Longrightarrow> conn_reachable cm'"
| reach_progress: "conn_reachable cm \<Longrightarrow> conn_progress cm cm' \<Longrightarrow> conn_reachable cm'"

section \<open>Lemmas\<close>

fun drives :: "phase option \<Rightarrow> public_key \<Rightarrow> bool" where
  "drives (Some (Resolving m)) n = (m = n)"
| "drives (Some (Dialing m)) n = (m = n)"
| "drives (Some (Polling m)) n = (m = n)"
| "drives _ n = False"

text \<open>
  A peer has an entry exactly when one task drives its connection; the subscribers in the entry are
  the tasks that await this peer and have no result yet.
\<close>

definition conn_inv :: "connection_manager \<Rightarrow> bool" where
  "conn_inv cm \<longleftrightarrow>
     (\<forall>n t. drives (task_phase cm t) n \<longrightarrow> pending_connections cm n \<noteq> None)
     \<and> (\<forall>n t t'. drives (task_phase cm t) n \<longrightarrow> drives (task_phase cm t') n \<longrightarrow> t = t')
     \<and> (\<forall>n. pending_connections cm n \<noteq> None \<longrightarrow> (\<exists>t. drives (task_phase cm t) n))
     \<and> (\<forall>n t. task_phase cm t = Some (Awaiting n) \<longrightarrow> oneshot cm t = None \<longrightarrow>
          (\<exists>senders. pending_connections cm n = Some senders \<and> t \<in> set senders))
     \<and> (\<forall>n senders t. pending_connections cm n = Some senders \<longrightarrow> t \<in> set senders \<longrightarrow>
          task_phase cm t = Some (Awaiting n) \<and> oneshot cm t = None)
     \<and> (\<forall>t. task_phase cm t = None \<longrightarrow> oneshot cm t = None)"

lemma conn_invD:
  assumes "conn_inv cm"
  shows "drives (task_phase cm t) n \<Longrightarrow> \<exists>senders. pending_connections cm n = Some senders"
    and "drives (task_phase cm t) n \<Longrightarrow> drives (task_phase cm t') n \<Longrightarrow> t = t'"
    and "pending_connections cm n = Some senders \<Longrightarrow> \<exists>t. drives (task_phase cm t) n"
    and "task_phase cm t = Some (Awaiting n) \<Longrightarrow> oneshot cm t = None \<Longrightarrow>
      \<exists>senders. pending_connections cm n = Some senders \<and> t \<in> set senders"
    and "pending_connections cm n = Some senders \<Longrightarrow> t \<in> set senders \<Longrightarrow>
      task_phase cm t = Some (Awaiting n) \<and> oneshot cm t = None"
    and "task_phase cm t = None \<Longrightarrow> oneshot cm t = None"
  using assms unfolding conn_inv_def by blast+

lemma conn_inv_new: "conn_inv ConnectionManager_new"
  by (simp add: conn_inv_def ConnectionManager_new_def)

lemma fold_send: "fold (\<lambda>s inbox. inbox(s \<mapsto> res)) senders inbox t = (if t \<in> set senders then Some res else inbox t)"
  by (induction senders arbitrary: inbox) auto

lemma drives_unique: "drives p n \<Longrightarrow> drives p m \<Longrightarrow> n = m"
  by (cases p; simp) (rename_tac a, case_tac a; simp)

text \<open>Moving the driver of a peer to another phase in which it drives the same peer.\<close>

lemma conn_inv_drive:
  assumes "conn_inv cm" and "drives (task_phase cm t) n" and "drives (Some ph) n"
  shows "conn_inv (set_phase t ph cm)"
proof -
  have same: "drives (task_phase (set_phase t ph cm) s) m \<longleftrightarrow> drives (task_phase cm s) m" for s m
    using assms(2,3) drives_unique by (auto simp: set_phase_def)
  have awaiting: "task_phase (set_phase t ph cm) s = Some (Awaiting m) \<longleftrightarrow> task_phase cm s = Some (Awaiting m)" for s m
    using assms(2,3) by (auto simp: set_phase_def)
  have none: "task_phase (set_phase t ph cm) s = None \<longleftrightarrow> task_phase cm s = None" for s
    using assms(2) by (cases "task_phase cm t") (auto simp: set_phase_def)
  show ?thesis
    using assms(1) unfolding conn_inv_def same awaiting none by (simp add: set_phase_def)
qed

lemma finish_connect_fields:
  assumes "pending_connections cm n = Some senders"
  shows "pending_connections (finish_connect cm t n res) = (pending_connections cm)(n := None)"
    and "task_phase (finish_connect cm t n res) = (task_phase cm)(t \<mapsto> Returned res)"
    and "oneshot (finish_connect cm t n res) s = (if s \<in> set senders then Some res else oneshot cm s)"
  using assms by (simp_all add: finish_connect_def propagate_result_to_subscribers_def set_phase_def fold_send)

lemma conn_inv_finish:
  assumes inv: "conn_inv cm" and t: "drives (task_phase cm t) n"
  shows "conn_inv (finish_connect cm t n res)"
proof -
  obtain senders where n: "pending_connections cm n = Some senders"
    using conn_invD(1) [OF inv t] by blast
  have drives: "drives (((task_phase cm)(t \<mapsto> Returned res)) s) m \<longleftrightarrow> drives (task_phase cm s) m \<and> m \<noteq> n" for s m
  proof (cases "s = t")
    case True
    then show ?thesis
      using t drives_unique [of "task_phase cm t" n m] by auto
  next
    case False
    then show ?thesis
      using conn_invD(2) [OF inv t, of s] by auto
  qed
  have waiting: "((task_phase cm)(t \<mapsto> Returned res)) s = Some (Awaiting m) \<longleftrightarrow> task_phase cm s = Some (Awaiting m)" for s m
    using t by auto
  have none: "((task_phase cm)(t \<mapsto> Returned res)) s = None \<longleftrightarrow> task_phase cm s = None" for s
    using t by (cases "task_phase cm t") auto
  show ?thesis
    unfolding conn_inv_def finish_connect_fields(1,2) [OF n] finish_connect_fields(3) [OF n] drives waiting none
  proof (intro conjI allI impI)
    fix m s
    assume "drives (task_phase cm s) m \<and> m \<noteq> n"
    then show "((pending_connections cm)(n := None)) m \<noteq> None"
      using conn_invD(1) [OF inv, of s m] by auto
  next
    fix m s s'
    assume "drives (task_phase cm s) m \<and> m \<noteq> n" "drives (task_phase cm s') m \<and> m \<noteq> n"
    then show "s = s'"
      using conn_invD(2) [OF inv, of s m s'] by blast
  next
    fix m
    assume "((pending_connections cm)(n := None)) m \<noteq> None"
    then obtain ss where "m \<noteq> n" "pending_connections cm m = Some ss"
      by (auto split: if_splits)
    then show "\<exists>s. drives (task_phase cm s) m \<and> m \<noteq> n"
      using conn_invD(3) [OF inv, of m ss] by blast
  next
    fix m s
    assume "task_phase cm s = Some (Awaiting m)" and "(if s \<in> set senders then Some res else oneshot cm s) = None"
    then have s: "s \<notin> set senders" "oneshot cm s = None" "task_phase cm s = Some (Awaiting m)"
      by (auto split: if_splits)
    then obtain ss where ss: "pending_connections cm m = Some ss" "s \<in> set ss"
      using conn_invD(4) [OF inv] by blast
    with s(1) n have "m \<noteq> n"
      by auto
    with ss show "\<exists>ss. ((pending_connections cm)(n := None)) m = Some ss \<and> s \<in> set ss"
      by simp
  next
    fix m ss s
    assume "((pending_connections cm)(n := None)) m = Some ss" and s: "s \<in> set ss"
    then have m: "m \<noteq> n" "pending_connections cm m = Some ss"
      by (auto split: if_splits)
    have ph: "task_phase cm s = Some (Awaiting m)" "oneshot cm s = None"
      using conn_invD(5) [OF inv m(2) s] by simp_all
    then show "task_phase cm s = Some (Awaiting m)"
      by simp
    have "s \<notin> set senders"
      using conn_invD(5) [OF inv n, of s] ph m(1) by auto
    with ph show "(if s \<in> set senders then Some res else oneshot cm s) = None"
      by simp
  next
    fix s
    assume "task_phase cm s = None"
    then show "(if s \<in> set senders then Some res else oneshot cm s) = None"
      using conn_invD(5) [OF inv n, of s] conn_invD(6) [OF inv, of s] by auto
  qed
qed

lemma set_phase_fields:
  "pending_connections (set_phase t ph cm) = pending_connections cm"
  "task_phase (set_phase t ph cm) = (task_phase cm)(t \<mapsto> ph)"
  "oneshot (set_phase t ph cm) = oneshot cm"
  by (simp_all add: set_phase_def)

lemma start_connect_fields:
  "pending_connections (start_connect cm t n) =
     (pending_connections cm)(n \<mapsto> (case pending_connections cm n of None \<Rightarrow> [] | Some senders \<Rightarrow> senders @ [t]))"
  "task_phase (start_connect cm t n) =
     (task_phase cm)(t \<mapsto> (case pending_connections cm n of None \<Rightarrow> Resolving n | Some senders \<Rightarrow> Awaiting n))"
  "oneshot (start_connect cm t n) = oneshot cm"
  by (simp_all add: start_connect_def register_or_subscribe_def set_phase_def split: option.splits)

lemma conn_inv_return:
  assumes inv: "conn_inv cm" and t: "task_phase cm t = None \<or> (\<exists>n. task_phase cm t = Some (Awaiting n)) \<and> oneshot cm t \<noteq> None"
  shows "conn_inv (set_phase t (Returned res) cm)"
proof -
  have drives: "drives (((task_phase cm)(t \<mapsto> Returned res)) s) m \<longleftrightarrow> drives (task_phase cm s) m" for s m
    using t by auto
  have t': "t \<notin> set senders" if "pending_connections cm m = Some senders" for m senders
    using conn_invD(5) [OF inv that, of t] t by auto
  show ?thesis
    unfolding conn_inv_def set_phase_fields drives
  proof (intro conjI allI impI)
    fix m s
    assume "((task_phase cm)(t \<mapsto> Returned res)) s = Some (Awaiting m)" "oneshot cm s = None"
    then show "\<exists>senders. pending_connections cm m = Some senders \<and> s \<in> set senders"
      using conn_invD(4) [OF inv, of s m] by (auto split: if_splits)
  next
    fix m senders s
    assume "pending_connections cm m = Some senders" "s \<in> set senders"
    then have s: "((task_phase cm)(t \<mapsto> Returned res)) s = Some (Awaiting m)" "oneshot cm s = None"
      using conn_invD(5) [OF inv, of m senders s] t' [of m senders] by auto
    show "((task_phase cm)(t \<mapsto> Returned res)) s = Some (Awaiting m)"
      by (rule s)
    show "oneshot cm s = None"
      by (rule s)
  next
    fix s
    assume "((task_phase cm)(t \<mapsto> Returned res)) s = None"
    then show "oneshot cm s = None"
      using conn_invD(6) [OF inv, of s] by (auto split: if_splits)
  next
    fix m s s'
    assume "drives (task_phase cm s) m" "drives (task_phase cm s') m"
    then show "s = s'"
      using conn_invD(2) [OF inv] by blast
  qed (use conn_invD(1,3) [OF inv] in blast)+
qed

lemma conn_inv_start:
  assumes inv: "conn_inv cm" and t: "task_phase cm t = None"
  shows "conn_inv (start_connect cm t n)"
proof -
  have unused: "t \<notin> set senders" if "pending_connections cm m = Some senders" for m senders
    using conn_invD(5) [OF inv that, of t] t by auto
  have box: "oneshot cm t = None"
    using conn_invD(6) [OF inv t] .
  show ?thesis
  proof (cases "pending_connections cm n")
    case None
    then have free: "\<not> drives (task_phase cm s) n" for s
      using conn_invD(1) [OF inv, of s n] by auto
    have idle: False if "task_phase cm s = Some (Awaiting n)" "oneshot cm s = None" for s
      using conn_invD(4) [OF inv that] None by auto
    have drives: "drives (((task_phase cm)(t \<mapsto> Resolving n)) s) m \<longleftrightarrow> drives (task_phase cm s) m \<or> s = t \<and> m = n" for s m
      using t by auto
    show ?thesis
      unfolding conn_inv_def start_connect_fields None option.case drives
      using t unused box free idle None conn_invD [OF inv]
      by (intro conjI allI impI) (auto split: if_splits)
  next
    case (Some senders)
    have listed: "s \<in> set senders" if "task_phase cm s = Some (Awaiting n)" "oneshot cm s = None" for s
      using conn_invD(4) [OF inv that] Some by auto
    have drives: "drives (((task_phase cm)(t \<mapsto> Awaiting n)) s) m \<longleftrightarrow> drives (task_phase cm s) m" for s m
      using t by auto
    show ?thesis
      unfolding conn_inv_def start_connect_fields Some option.case drives
    proof (intro conjI allI impI)
      fix m s
      assume "((task_phase cm)(t \<mapsto> Awaiting n)) s = Some (Awaiting m)" "oneshot cm s = None"
      then show "\<exists>ss. ((pending_connections cm)(n \<mapsto> senders @ [t])) m = Some ss \<and> s \<in> set ss"
        using listed [of s] conn_invD(4) [OF inv, of s m] by (cases "m = n") (auto split: if_splits)
    next
      fix m ss s
      assume ss: "((pending_connections cm)(n \<mapsto> senders @ [t])) m = Some ss" "s \<in> set ss"
      have "s = t \<and> m = n \<or> s \<noteq> t \<and> task_phase cm s = Some (Awaiting m) \<and> oneshot cm s = None"
        using ss conn_invD(5) [OF inv, of m] Some t by (auto split: if_splits)
      then show "((task_phase cm)(t \<mapsto> Awaiting n)) s = Some (Awaiting m)" "oneshot cm s = None"
        using box by auto
    next
      fix m s s'
      assume "drives (task_phase cm s) m" "drives (task_phase cm s') m"
      then show "s = s'"
        using conn_invD(2) [OF inv] by blast
    next
      fix m s
      assume "drives (task_phase cm s) m"
      then show "((pending_connections cm)(n \<mapsto> senders @ [t])) m \<noteq> None"
        using conn_invD(1) [OF inv, of s m] by auto
    next
      fix m
      assume "((pending_connections cm)(n \<mapsto> senders @ [t])) m \<noteq> None"
      then obtain ss where "pending_connections cm m = Some ss"
        using Some by (auto split: if_splits)
      then show "\<exists>s. drives (task_phase cm s) m"
        using conn_invD(3) [OF inv] by blast
    next
      fix s
      assume "((task_phase cm)(t \<mapsto> Awaiting n)) s = None"
      then show "oneshot cm s = None"
        using conn_invD(6) [OF inv, of s] by (auto split: if_splits)
    qed
  qed
qed

lemma conn_progress_inv:
  assumes "conn_progress cm cm'" and "conn_inv cm"
  shows "conn_inv cm'"
  using assms
proof (cases rule: conn_progress.cases)
  case (resolved t n)
  then show ?thesis
    using conn_inv_drive [OF assms(2), of t n] by simp
next
  case (dialed t n)
  then show ?thesis
    using conn_inv_drive [OF assms(2), of t n] by simp
next
  case (receive t n res)
  then show ?thesis
    using conn_inv_return [OF assms(2), of t] by simp
qed (simp_all add: conn_inv_finish)

lemma finish_connect_phase: "task_phase (finish_connect cm t n res) = (task_phase cm)(t \<mapsto> Returned res)"
  by (simp add: finish_connect_def propagate_result_to_subscribers_def set_phase_def split: option.splits)

lemma dom_task_phase:
  "dom (task_phase (set_phase t ph cm)) = insert t (dom (task_phase cm))"
  "dom (task_phase (start_connect cm t n)) = insert t (dom (task_phase cm))"
  "dom (task_phase (finish_connect cm t n res)) = insert t (dom (task_phase cm))"
  by (simp_all only: set_phase_fields start_connect_fields finish_connect_phase dom_fun_upd option.simps if_False)

lemma conn_reachable_inv: "conn_reachable cm \<Longrightarrow> conn_inv cm \<and> finite (dom (task_phase cm))"
proof (induction rule: conn_reachable.induct)
  case reach_new
  show ?case
    by (simp add: conn_inv_new) (simp add: ConnectionManager_new_def)
next
  case (reach_call cm cm')
  then show ?case
    by (auto elim!: conn_call.cases simp: conn_inv_return conn_inv_start dom_task_phase)
next
  case (reach_progress cm cm')
  have "finite (dom (task_phase cm'))"
    using reach_progress.hyps(2) reach_progress.IH
    by (cases rule: conn_progress.cases) (simp_all add: dom_task_phase)
  then show ?case
    using conn_progress_inv reach_progress by blast
qed

text \<open>How much of a call is left.\<close>

fun phase_rank :: "phase \<Rightarrow> nat" where
  "phase_rank (Awaiting _) = 1"
| "phase_rank (Resolving _) = 3"
| "phase_rank (Dialing _) = 2"
| "phase_rank (Polling _) = 1"
| "phase_rank (Returned _) = 0"

definition conn_rank :: "connection_manager \<Rightarrow> nat" where
  "conn_rank cm = (\<Sum>t \<in> dom (task_phase cm). phase_rank (the (task_phase cm t)))"

lemma conn_rank_less:
  assumes "finite (dom (task_phase cm))" and "task_phase cm t = Some ph"
    and "task_phase cm' = (task_phase cm)(t \<mapsto> ph')" and "phase_rank ph' < phase_rank ph"
  shows "conn_rank cm' < conn_rank cm"
proof -
  have dom: "dom (task_phase cm') = dom (task_phase cm)"
    using assms(2,3) by auto
  show ?thesis
    unfolding conn_rank_def dom
    by (rule sum_strict_mono_ex1) (use assms in \<open>auto simp: dom_def intro!: bexI [of _ t]\<close>)
qed

section \<open>Properties\<close>

text \<open>
  C27: calls for the same peer share one attempt. In every reachable state at most one task drives
  the connection to a peer, and when it finishes, every task that awaits this peer has received
  exactly its result, while the table has no entry for the peer any more, so that the next call
  starts a new attempt.
\<close>

theorem connection_result_shared:
  assumes "conn_reachable cm" and "drives (task_phase cm t) n"
  shows "(\<forall>t'. drives (task_phase cm t') n \<longrightarrow> t' = t)
    \<and> (\<forall>s. task_phase cm s = Some (Awaiting n) \<longrightarrow> oneshot cm s = None \<longrightarrow>
         oneshot (finish_connect cm t n res) s = Some res)
    \<and> (\<forall>s. oneshot cm s \<noteq> None \<longrightarrow> oneshot (finish_connect cm t n res) s = oneshot cm s)
    \<and> pending_connections (finish_connect cm t n res) n = None"
proof -
  have inv: "conn_inv cm"
    using conn_reachable_inv [OF assms(1)] by blast
  obtain senders where n: "pending_connections cm n = Some senders"
    using conn_invD(1) [OF inv assms(2)] by blast
  have listed: "s \<in> set senders" if "task_phase cm s = Some (Awaiting n)" "oneshot cm s = None" for s
    using conn_invD(4) [OF inv that] n by auto
  have empty: "oneshot cm s = None" if "s \<in> set senders" for s
    using conn_invD(5) [OF inv n that] by simp
  show ?thesis
    using conn_invD(2) [OF inv assms(2)] listed empty
    by (auto simp: finish_connect_fields(1,3) [OF n])
qed


text \<open>Two tasks asking for the same peer: task 0 drives, task 1 awaits.\<close>

definition example_conn :: connection_manager where
  "example_conn = start_connect (start_connect ConnectionManager_new 0 (PublicKey [2])) 1 (PublicKey [2])"

lemma example_conn_reachable: "conn_reachable example_conn"
proof -
  have "conn_reachable (start_connect ConnectionManager_new 0 (PublicKey [2]))"
    by (rule reach_call [OF reach_new], rule start) (simp add: ConnectionManager_new_def)
  then show ?thesis
    unfolding example_conn_def
    by (rule reach_call, intro start) (simp add: start_connect_fields ConnectionManager_new_def)
qed

lemma example_conn_phases:
  "drives (task_phase example_conn 0) (PublicKey [2])" "task_phase example_conn 1 = Some (Awaiting (PublicKey [2]))"
  "oneshot example_conn 1 = None"
  by (simp_all add: example_conn_def start_connect_fields ConnectionManager_new_def)

theorem connection_result_shared_witness:
  "drives (task_phase example_conn 0) (PublicKey [2])
   \<and> oneshot (finish_connect example_conn 0 (PublicKey [2]) (Inr ())) 1 = Some (Inr ())"
  using connection_result_shared [OF example_conn_reachable example_conn_phases(1)] example_conn_phases by blast


end
