(* ===== verification/Node_Config.thy ===== *)
theory Node_Config
  imports LN_Types Wire
begin

text \<open>
  The configuration of the node (\<open>src/config.rs\<close>): address types and wallet accounts with the
  names they are stored under, the configuration record with its defaults, the test whether the
  node may announce channels and what follows for the channel manager, and the intervals of the
  background tasks. Socket addresses and routing parameters are types of the \<open>lightning\<close> crate
  and are type parameters. The configuration of the channel manager is a record of the fields the
  source sets; its other fields are the extension of the record and its defaults are an argument.
\<close>

section \<open>Address types and wallet accounts\<close>

datatype address_type = Legacy | NestedSegwit | NativeSegwit | Taproot

fun is_native_witness :: "address_type \<Rightarrow> bool" where
  "is_native_witness NativeSegwit = True"
| "is_native_witness Taproot = True"
| "is_native_witness _ = False"

fun AddressType_storage_suffix :: "address_type \<Rightarrow> string" where
  "AddressType_storage_suffix Legacy = ''legacy''"
| "AddressType_storage_suffix NestedSegwit = ''nested_segwit''"
| "AddressType_storage_suffix NativeSegwit = ''native_segwit''"
| "AddressType_storage_suffix Taproot = ''taproot''"

fun bip_purpose :: "address_type \<Rightarrow> u32" where
  "bip_purpose Legacy = 44"
| "bip_purpose NestedSegwit = 49"
| "bip_purpose NativeSegwit = 84"
| "bip_purpose Taproot = 86"

definition AddressType_default :: address_type where
  "AddressType_default = NativeSegwit"

fun AddressType_write :: "address_type \<Rightarrow> bytes" where
  "AddressType_write Legacy = [0]"
| "AddressType_write NestedSegwit = [1]"
| "AddressType_write NativeSegwit = [2]"
| "AddressType_write Taproot = [3]"

definition AddressType_read :: "address_type reader" where
  "AddressType_read bs =
     (case bs of
        [] \<Rightarrow> None
      | discriminant # rest \<Rightarrow>
          if discriminant = 0 then Some (Legacy, rest)
          else if discriminant = 1 then Some (NestedSegwit, rest)
          else if discriminant = 2 then Some (NativeSegwit, rest)
          else if discriminant = 3 then Some (Taproot, rest)
          else None)"

record wallet_account =
  wa_address_type :: address_type
  wa_account_index :: u32

definition MAX_ONCHAIN_WALLET_ACCOUNT_INDEX :: u32 where
  "MAX_ONCHAIN_WALLET_ACCOUNT_INDEX = push_bit 31 1 - 1"

definition account_zero :: "address_type \<Rightarrow> wallet_account" where
  "account_zero address_type = \<lparr>wa_address_type = address_type, wa_account_index = 0\<rparr>"

definition is_derived :: "wallet_account \<Rightarrow> bool" where
  "is_derived a \<longleftrightarrow> wa_account_index a \<ge> 1"

text \<open>Decimal formatting of an unsigned integer.\<close>

fun decimal :: "nat \<Rightarrow> string" where
  "decimal n = (if n < 10 then [char_of (48 + n)] else decimal (n div 10) @ [char_of (48 + n mod 10)])"

definition storage_suffix :: "wallet_account \<Rightarrow> string" where
  "storage_suffix a =
     (if wa_account_index a = 0 then AddressType_storage_suffix (wa_address_type a)
      else AddressType_storage_suffix (wa_address_type a) @ ''_'' @ decimal (unat (wa_account_index a)))"

record wallet_account_config =
  wac_address_type :: address_type
  wac_account_index :: u32
  wac_xpub :: string

section \<open>The configuration\<close>

datatype network = Bitcoin | Testnet | Signet | Regtest

record anchor_channels_config =
  trusted_peers_no_reserve :: "public_key list"
  per_channel_reserve_sats :: u64

definition DEFAULT_ANCHOR_PER_CHANNEL_RESERVE_SATS :: u64 where
  "DEFAULT_ANCHOR_PER_CHANNEL_RESERVE_SATS = 25000"

definition AnchorChannelsConfig_default :: anchor_channels_config where
  "AnchorChannelsConfig_default =
     \<lparr>trusted_peers_no_reserve = [], per_channel_reserve_sats = DEFAULT_ANCHOR_PER_CHANNEL_RESERVE_SATS\<rparr>"

record ('addr, 'route) config =
  cfg_storage_dir_path :: string
  cfg_network :: network
  cfg_listening_addresses :: "'addr list option"
  cfg_announcement_addresses :: "'addr list option"
  cfg_node_alias :: "bytes option"
  cfg_trusted_peers_0conf :: "public_key list"
  cfg_probing_liquidity_limit_multiplier :: u64
  cfg_anchor_channels_config :: "anchor_channels_config option"
  cfg_route_parameters :: "'route option"
  cfg_include_untrusted_pending_in_spendable :: bool
  cfg_address_type :: address_type
  cfg_address_types_to_monitor :: "address_type list"
  cfg_onchain_wallet_accounts :: "wallet_account_config list"

definition DEFAULT_STORAGE_DIR_PATH :: string where
  "DEFAULT_STORAGE_DIR_PATH = ''/tmp/ldk_node''"

definition DEFAULT_PROBING_LIQUIDITY_LIMIT_MULTIPLIER :: u64 where
  "DEFAULT_PROBING_LIQUIDITY_LIMIT_MULTIPLIER = 3"

definition Config_default :: "('addr, 'route) config" where
  "Config_default =
     \<lparr>cfg_storage_dir_path = DEFAULT_STORAGE_DIR_PATH, cfg_network = Bitcoin,
      cfg_listening_addresses = None, cfg_announcement_addresses = None, cfg_node_alias = None,
      cfg_trusted_peers_0conf = [],
      cfg_probing_liquidity_limit_multiplier = DEFAULT_PROBING_LIQUIDITY_LIMIT_MULTIPLIER,
      cfg_anchor_channels_config = Some AnchorChannelsConfig_default, cfg_route_parameters = None,
      cfg_include_untrusted_pending_in_spendable = False, cfg_address_type = AddressType_default,
      cfg_address_types_to_monitor = [], cfg_onchain_wallet_accounts = []\<rparr>"

text \<open>\<open>iter().filter(|at| seen.insert(at))\<close> keeps the first occurrence of every element.\<close>

fun first_occurrences :: "'a set \<Rightarrow> 'a list \<Rightarrow> 'a list" where
  "first_occurrences seen [] = []"
| "first_occurrences seen (x # xs) =
     (if x \<in> seen then first_occurrences seen xs else x # first_occurrences (insert x seen) xs)"

definition Config_additional_address_types :: "('addr, 'route) config \<Rightarrow> address_type list" where
  "Config_additional_address_types c =
     first_occurrences {} (filter (\<lambda>t. t \<noteq> cfg_address_type c) (cfg_address_types_to_monitor c))"

record address_type_runtime_config =
  rc_primary :: address_type
  rc_monitored :: "address_type list"
  rc_derived_accounts :: "wallet_account list"

definition runtime_config_from_config ::
    "('addr, 'route) config \<Rightarrow> wallet_account list \<Rightarrow> address_type_runtime_config" where
  "runtime_config_from_config c derived_accounts =
     \<lparr>rc_primary = cfg_address_type c,
      rc_monitored = filter (\<lambda>t. t \<noteq> cfg_address_type c) (cfg_address_types_to_monitor c),
      rc_derived_accounts = derived_accounts\<rparr>"

definition additional_address_types :: "address_type_runtime_config \<Rightarrow> address_type list" where
  "additional_address_types rc = first_occurrences {} (rc_monitored rc)"

definition additional_wallet_accounts :: "address_type_runtime_config \<Rightarrow> wallet_account list" where
  "additional_wallet_accounts rc =
     fold (\<lambda>account accounts. if account \<in> set accounts then accounts else accounts @ [account])
       (rc_derived_accounts rc) (map account_zero (additional_address_types rc))"

section \<open>Announcing channels\<close>

datatype announce_error = MissingNodeAlias | MissingListeningAddresses | MissingAliasAndAddresses

definition may_announce_channel :: "('addr, 'route) config \<Rightarrow> (unit, announce_error) result" where
  "may_announce_channel c =
     (let has_listening_addresses =
            (case cfg_listening_addresses c of None \<Rightarrow> False | Some addrs \<Rightarrow> addrs \<noteq> []) in
      case (cfg_node_alias c \<noteq> None, has_listening_addresses) of
        (True, True) \<Rightarrow> Inr ()
      | (True, False) \<Rightarrow> Inl MissingListeningAddresses
      | (False, True) \<Rightarrow> Inl MissingNodeAlias
      | (False, False) \<Rightarrow> Inl MissingAliasAndAddresses)"

record user_config =
  uc_force_announced_channel_preference :: bool
  uc_manually_accept_inbound_channels :: bool
  uc_negotiate_anchors_zero_fee_htlc_tx :: bool
  uc_reject_inbound_splices :: bool
  uc_accept_forwards_to_priv_channels :: bool
  uc_announce_for_forwarding :: bool
  uc_max_inbound_htlc_value_in_flight_percent :: u8

definition default_user_config :: "'m user_config_scheme \<Rightarrow> ('addr, 'route) config \<Rightarrow> 'm user_config_scheme" where
  "default_user_config UserConfig_default c =
     (let uc = UserConfig_default\<lparr>uc_force_announced_channel_preference := False,
            uc_manually_accept_inbound_channels := True,
            uc_negotiate_anchors_zero_fee_htlc_tx := (cfg_anchor_channels_config c \<noteq> None),
            uc_reject_inbound_splices := False\<rparr> in
      if isl (may_announce_channel c)
      then uc\<lparr>uc_accept_forwards_to_priv_channels := False, uc_announce_for_forwarding := False,
              uc_force_announced_channel_preference := True,
              uc_max_inbound_htlc_value_in_flight_percent := 100\<rparr>
      else uc)"

section \<open>Synchronisation intervals\<close>

record background_sync_config =
  onchain_wallet_sync_interval_secs :: u64
  lightning_wallet_sync_interval_secs :: u64
  fee_rate_cache_update_interval_secs :: u64

definition BackgroundSyncConfig_default :: background_sync_config where
  "BackgroundSyncConfig_default =
     \<lparr>onchain_wallet_sync_interval_secs = 80, lightning_wallet_sync_interval_secs = 30,
      fee_rate_cache_update_interval_secs = 60 * 10\<rparr>"

definition battery_saving :: background_sync_config where
  "battery_saving =
     \<lparr>onchain_wallet_sync_interval_secs = 300, lightning_wallet_sync_interval_secs = 120,
      fee_rate_cache_update_interval_secs = 1800\<rparr>"

definition WALLET_SYNC_INTERVAL_MINIMUM_SECS :: u64 where
  "WALLET_SYNC_INTERVAL_MINIMUM_SECS = 10"

section \<open>Lemmas\<close>

interpretation address_type_codec: codec AddressType_write AddressType_read
proof
  show "AddressType_read (AddressType_write t @ rest) = Some (t, rest)" for t rest
    by (cases t) (simp_all add: AddressType_read_def)
qed

declare decimal.simps [simp del]

definition is_digit :: "char \<Rightarrow> bool" where
  "is_digit c \<longleftrightarrow> 48 \<le> (of_char c :: nat) \<and> (of_char c :: nat) \<le> 57"

definition decimal_value :: "string \<Rightarrow> nat" where
  "decimal_value = foldl (\<lambda>n c. 10 * n + (of_char c - 48)) 0"

lemma digit_char: "n < 10 \<Longrightarrow> (of_char (char_of (48 + n) :: char) :: nat) = 48 + n"
  by (simp add: of_char_of)

lemma digit_char_is_digit: "(n :: nat) < 10 \<Longrightarrow> is_digit (char_of (48 + n))"
  by (simp only: is_digit_def digit_char) simp

lemma decimal_value_decimal [simp]: "decimal_value (decimal n) = n"
proof (induction n rule: decimal.induct)
  case (1 n)
  have split: "10 * (n div 10) + n mod 10 = n"
    by simp
  show ?case
  proof (cases "n < 10")
    case True
    then show ?thesis
      by (subst decimal.simps) (simp add: decimal_value_def digit_char)
  next
    case False
    then have "decimal_value (decimal (n div 10)) = n div 10"
      by (rule 1)
    then show ?thesis
      using False split by (subst decimal.simps) (simp add: decimal_value_def digit_char)
  qed
qed

lemma decimal_digits: "list_all is_digit (decimal n)"
proof (induction n rule: decimal.induct)
  case (1 n)
  show ?case
    using 1 by (subst decimal.simps) (auto simp: digit_char_is_digit)
qed

lemma decimal_inject: "decimal m = decimal n \<longleftrightarrow> m = n"
  using decimal_value_decimal by metis

text \<open>Removing the digits at the end of a name leaves the address type and the separator.\<close>

definition strip_digits :: "string \<Rightarrow> string" where
  "strip_digits s = rev (dropWhile is_digit (rev s))"

lemma strip_digits_append:
  assumes "list_all is_digit d"
  shows "strip_digits (s @ d) = strip_digits s"
proof -
  have "dropWhile is_digit (rev d @ rev s) = dropWhile is_digit (rev s)"
    by (rule dropWhile_append2) (use assms in \<open>auto simp: list_all_iff\<close>)
  then show ?thesis
    by (simp add: strip_digits_def)
qed

lemma strip_digits_storage_suffix:
  "strip_digits (storage_suffix a) =
     AddressType_storage_suffix (wa_address_type a) @ (if wa_account_index a = 0 then [] else ''_'')"
proof -
  have "strip_digits (AddressType_storage_suffix t) = AddressType_storage_suffix t"
    and "strip_digits (AddressType_storage_suffix t @ ''_'') = AddressType_storage_suffix t @ ''_''" for t
    by (cases t; simp add: strip_digits_def is_digit_def)+
  then show ?thesis
    using strip_digits_append [OF decimal_digits, of "AddressType_storage_suffix (wa_address_type a) @ ''_''"]
    by (simp add: storage_suffix_def)
qed

lemma storage_suffix_inject: "storage_suffix a = storage_suffix b \<longleftrightarrow> a = b"
proof
  assume same: "storage_suffix a = storage_suffix b"
  have stripped: "AddressType_storage_suffix (wa_address_type a) @ (if wa_account_index a = 0 then [] else ''_'')
      = AddressType_storage_suffix (wa_address_type b) @ (if wa_account_index b = 0 then [] else ''_'')"
    using arg_cong [OF same, of strip_digits] by (simp only: strip_digits_storage_suffix)
  have types: "wa_address_type a = wa_address_type b \<and> (wa_account_index a = 0 \<longleftrightarrow> wa_account_index b = 0)"
    using stripped by (cases "wa_address_type a"; cases "wa_address_type b") (simp_all split: if_splits)
  have "wa_account_index a = wa_account_index b"
    using same types by (auto simp: storage_suffix_def decimal_inject word_unat_eq_iff split: if_splits)
  with types show "a = b"
    by simp
qed simp

lemma set_first_occurrences: "set (first_occurrences seen xs) = set xs - seen"
  by (induction xs arbitrary: seen) auto

lemma distinct_first_occurrences: "distinct (first_occurrences seen xs)"
  by (induction xs arbitrary: seen) (auto simp: set_first_occurrences)

lemma account_zero_inject [simp]: "account_zero s = account_zero t \<longleftrightarrow> s = t"
  by (simp add: account_zero_def)

lemma add_missing_accounts:
  assumes "distinct accounts"
  shows "distinct (fold (\<lambda>account accounts. if account \<in> set accounts then accounts else accounts @ [account]) xs accounts)
    \<and> set (fold (\<lambda>account accounts. if account \<in> set accounts then accounts else accounts @ [account]) xs accounts)
        = set accounts \<union> set xs"
  using assms by (induction xs arbitrary: accounts) auto

lemma set_additional_wallet_accounts:
  "set (additional_wallet_accounts rc) = account_zero ` set (rc_monitored rc) \<union> set (rc_derived_accounts rc)"
  using add_missing_accounts [of "map account_zero (additional_address_types rc)" "rc_derived_accounts rc"]
  by (simp add: additional_wallet_accounts_def additional_address_types_def set_first_occurrences
      distinct_first_occurrences distinct_map inj_on_def)

lemma distinct_additional_wallet_accounts: "distinct (additional_wallet_accounts rc)"
  using add_missing_accounts [of "map account_zero (additional_address_types rc)" "rc_derived_accounts rc"]
  by (simp add: additional_wallet_accounts_def additional_address_types_def
      distinct_first_occurrences distinct_map inj_on_def)

end
