(* ===== verification/Node_Metrics.thy ===== *)
theory Node_Metrics
  imports Node_Config KV_Store Node_Error
begin

text \<open>
  \<open>NodeMetrics\<close> of \<open>src/lib.rs\<close>, the timestamps and balances the node keeps across restarts, and
  its persistence (\<open>read_node_metrics\<close> and \<open>write_node_metrics\<close> of \<open>src/io/utils.rs\<close>). The codec is
  generated by a macro of the \<open>lightning\<close> crate and is a parameter.
\<close>

record node_metrics =
  latest_lightning_wallet_sync_timestamp :: "u64 option"
  latest_onchain_wallet_sync_timestamp :: "u64 option"
  latest_fee_rate_cache_update_timestamp :: "u64 option"
  latest_rgs_snapshot_timestamp :: "u32 option"
  latest_pathfinding_scores_sync_timestamp :: "u64 option"
  latest_node_announcement_broadcast_timestamp :: "u64 option"
  latest_channel_monitor_archival_height :: "u32 option"
  last_known_spendable_onchain_balance_sats :: "u64 option"
  last_known_total_onchain_balance_sats :: "u64 option"
  last_known_total_lightning_balance_sats :: "u64 option"
  monitored_wallet_sync_timestamps :: "(address_type \<times> u64) list"

definition NodeMetrics_default :: node_metrics where
  "NodeMetrics_default =
     \<lparr>latest_lightning_wallet_sync_timestamp = None, latest_onchain_wallet_sync_timestamp = None,
      latest_fee_rate_cache_update_timestamp = None, latest_rgs_snapshot_timestamp = None,
      latest_pathfinding_scores_sync_timestamp = None,
      latest_node_announcement_broadcast_timestamp = None,
      latest_channel_monitor_archival_height = None,
      last_known_spendable_onchain_balance_sats = None,
      last_known_total_onchain_balance_sats = None,
      last_known_total_lightning_balance_sats = None, monitored_wallet_sync_timestamps = []\<rparr>"

definition get_wallet_sync_timestamp :: "node_metrics \<Rightarrow> wallet_account \<Rightarrow> u64 option" where
  "get_wallet_sync_timestamp m a =
     (if wa_account_index a \<noteq> 0 then None
      else map_option snd
        (List.find (\<lambda>(at, _). at = wa_address_type a) (monitored_wallet_sync_timestamps m)))"

text \<open>The first entry of the address type is overwritten in place; without one the pair is pushed.\<close>

fun set_first :: "'k \<Rightarrow> 'v \<Rightarrow> ('k \<times> 'v) list \<Rightarrow> ('k \<times> 'v) list" where
  "set_first k v [] = [(k, v)]"
| "set_first k v ((k', v') # rest) = (if k' = k then (k', v) # rest else (k', v') # set_first k v rest)"

definition set_wallet_sync_timestamp :: "node_metrics \<Rightarrow> wallet_account \<Rightarrow> u64 \<Rightarrow> node_metrics" where
  "set_wallet_sync_timestamp m a timestamp =
     (if wa_account_index a \<noteq> 0 then m
      else m\<lparr>monitored_wallet_sync_timestamps :=
               set_first (wa_address_type a) timestamp (monitored_wallet_sync_timestamps m)\<rparr>)"

definition NODE_METRICS_PRIMARY_NAMESPACE :: string where
  "NODE_METRICS_PRIMARY_NAMESPACE = []"

definition NODE_METRICS_SECONDARY_NAMESPACE :: string where
  "NODE_METRICS_SECONDARY_NAMESPACE = []"

definition NODE_METRICS_KEY :: string where
  "NODE_METRICS_KEY = ''node_metrics''"

abbreviation node_metrics_target :: kv_target where
  "node_metrics_target \<equiv> (NODE_METRICS_PRIMARY_NAMESPACE, NODE_METRICS_SECONDARY_NAMESPACE, NODE_METRICS_KEY)"

definition read_node_metrics ::
    "(bytes \<Rightarrow> node_metrics option) \<Rightarrow> 'kv kv_ops \<Rightarrow> 'kv \<Rightarrow> (node_metrics, io_error) result" where
  "read_node_metrics dec ops kv =
     and_then (kv_read ops kv node_metrics_target) (\<lambda>data. ok_or InvalidData (dec data))"

definition write_node_metrics ::
    "(node_metrics \<Rightarrow> bytes) \<Rightarrow> 'kv kv_ops \<Rightarrow> node_metrics \<Rightarrow> 'kv \<Rightarrow> (unit, node_error) result \<times> 'kv" where
  "write_node_metrics enc ops m kv =
     (case kv_write ops kv node_metrics_target (enc m) of
        (Inl e, kv') \<Rightarrow> (Inl PersistenceFailed, kv')
      | (Inr _, kv') \<Rightarrow> (Inr (), kv'))"

section \<open>Lemmas\<close>

lemma find_set_first:
  "List.find (\<lambda>(a, _). a = k) (set_first k' v xs) =
     (if k = k' then Some (k, v) else List.find (\<lambda>(a, _). a = k) xs)"
  by (induction k' v xs rule: set_first.induct) auto

text \<open>Account 0 of an address type reads back the last time that was set for it and no other's.\<close>

lemma get_set_wallet_sync_timestamp [simp]:
  "get_wallet_sync_timestamp (set_wallet_sync_timestamp m a t) b =
     (if a = b \<and> wa_account_index a = 0 then Some t else get_wallet_sync_timestamp m b)"
  by (auto simp: get_wallet_sync_timestamp_def set_wallet_sync_timestamp_def find_set_first)

end
