(* ===== verification/Fee_Estimator.thy ===== *)
theory Fee_Estimator
  imports Node_Metrics
begin

text \<open>
  Fee rates: the cached estimator of \<open>src/fee_estimator.rs\<close> and the three ways the cache is filled
  (\<open>update_fee_rate_estimates\<close> of \<open>src/chain/esplora.rs\<close>, \<open>electrum.rs\<close> and \<open>bitcoind.rs\<close>). A fee
  rate is a number of satoshis per 1000 weight units. The relay floor is a constant of the
  \<open>lightning\<close> crate and is a parameter. What a server answers is an argument; floating-point numbers
  are an abstract type with the three operations the code applies to them.
\<close>

section \<open>The estimator\<close>

datatype ldk_confirmation_target =
    MaximumFeeEstimate
  | UrgentOnChainSweep
  | MinAllowedAnchorChannelRemoteFee
  | MinAllowedNonAnchorChannelRemoteFee
  | AnchorChannelFee
  | NonAnchorChannelFee
  | ChannelCloseMinimum
  | OutputSpendingFee

datatype confirmation_target = OnchainPayment | ChannelFunding | Lightning ldk_confirmation_target

type_synonym fee_cache = "confirmation_target \<rightharpoonup> u64"

record onchain_fee_estimator =
  fee_rate_cache :: fee_cache

definition OnchainFeeEstimator_new :: onchain_fee_estimator where
  "OnchainFeeEstimator_new = \<lparr>fee_rate_cache = Map.empty\<rparr>"

definition set_fee_rate_cache :: "onchain_fee_estimator \<Rightarrow> fee_cache \<Rightarrow> onchain_fee_estimator \<times> bool" where
  "set_fee_rate_cache est update =
     (if update \<noteq> fee_rate_cache est then (est\<lparr>fee_rate_cache := update\<rparr>, True) else (est, False))"

fun get_num_block_defaults_for_target :: "confirmation_target \<Rightarrow> nat" where
  "get_num_block_defaults_for_target OnchainPayment = 6"
| "get_num_block_defaults_for_target ChannelFunding = 12"
| "get_num_block_defaults_for_target (Lightning ldk_target) =
     (case ldk_target of
        MaximumFeeEstimate \<Rightarrow> 1
      | UrgentOnChainSweep \<Rightarrow> 6
      | MinAllowedAnchorChannelRemoteFee \<Rightarrow> 1008
      | MinAllowedNonAnchorChannelRemoteFee \<Rightarrow> 144
      | AnchorChannelFee \<Rightarrow> 1008
      | NonAnchorChannelFee \<Rightarrow> 12
      | ChannelCloseMinimum \<Rightarrow> 144
      | OutputSpendingFee \<Rightarrow> 12)"

fun get_fallback_rate_for_ldk_target :: "u32 \<Rightarrow> ldk_confirmation_target \<Rightarrow> u32" where
  "get_fallback_rate_for_ldk_target FLOOR MaximumFeeEstimate = 8000"
| "get_fallback_rate_for_ldk_target FLOOR UrgentOnChainSweep = 5000"
| "get_fallback_rate_for_ldk_target FLOOR MinAllowedAnchorChannelRemoteFee = FLOOR"
| "get_fallback_rate_for_ldk_target FLOOR MinAllowedNonAnchorChannelRemoteFee = FLOOR"
| "get_fallback_rate_for_ldk_target FLOOR AnchorChannelFee = 500"
| "get_fallback_rate_for_ldk_target FLOOR NonAnchorChannelFee = 1000"
| "get_fallback_rate_for_ldk_target FLOOR ChannelCloseMinimum = 500"
| "get_fallback_rate_for_ldk_target FLOOR OutputSpendingFee = 1000"

fun get_fallback_rate_for_target :: "u32 \<Rightarrow> confirmation_target \<Rightarrow> u32" where
  "get_fallback_rate_for_target FLOOR OnchainPayment = 5000"
| "get_fallback_rate_for_target FLOOR ChannelFunding = 1000"
| "get_fallback_rate_for_target FLOOR (Lightning ldk_target) = get_fallback_rate_for_ldk_target FLOOR ldk_target"

definition estimate_fee_rate :: "u32 \<Rightarrow> onchain_fee_estimator \<Rightarrow> confirmation_target \<Rightarrow> u64" where
  "estimate_fee_rate FLOOR est tgt =
     (let fallback_rate = ucast (get_fallback_rate_for_target FLOOR tgt);
          estimate = (case fee_rate_cache est tgt of None \<Rightarrow> fallback_rate | Some r \<Rightarrow> r) in
      max estimate (ucast FLOOR))"

text \<open>\<open>try_into\<close> fails when the rate does not fit 32 bits.\<close>

definition get_est_sat_per_1000_weight :: "u32 \<Rightarrow> onchain_fee_estimator \<Rightarrow> ldk_confirmation_target \<Rightarrow> u32" where
  "get_est_sat_per_1000_weight FLOOR est tgt =
     (let rate = estimate_fee_rate FLOOR est (Lightning tgt) in
      if unat rate < 2 ^ 32 then ucast rate else get_fallback_rate_for_ldk_target FLOOR tgt)"

definition get_all_conf_targets :: "confirmation_target list" where
  "get_all_conf_targets =
     [OnchainPayment, ChannelFunding, Lightning MaximumFeeEstimate, Lightning UrgentOnChainSweep,
      Lightning MinAllowedAnchorChannelRemoteFee, Lightning MinAllowedNonAnchorChannelRemoteFee,
      Lightning AnchorChannelFee, Lightning NonAnchorChannelFee, Lightning ChannelCloseMinimum,
      Lightning OutputSpendingFee]"

definition apply_post_estimation_adjustments :: "u32 \<Rightarrow> confirmation_target \<Rightarrow> u64 \<Rightarrow> u64" where
  "apply_post_estimation_adjustments FLOOR tgt estimated_rate =
     (case tgt of
        Lightning MinAllowedNonAnchorChannelRemoteFee \<Rightarrow>
          max (saturating_sub estimated_rate 250) (ucast FLOOR)
      | Lightning MaximumFeeEstimate \<Rightarrow>
          saturating_add (saturating_mul estimated_rate 11 div 10) 2500
      | _ \<Rightarrow> estimated_rate)"

section \<open>Filling the cache\<close>

text \<open>The outcome of a call that is given a deadline.\<close>

datatype 'a reply = Elapsed | CallFailed | Answer 'a

text \<open>The floating-point operations: the lower bound, \<open>f64::max\<close>, and the scaled cast to \<open>u64\<close>.\<close>

record 'f rate_ops =
  least_rate :: 'f
  rate_max :: "'f \<Rightarrow> 'f \<Rightarrow> 'f"
  rate_as_kwu :: "'f \<Rightarrow> u64"

definition rate_or_least :: "'f rate_ops \<Rightarrow> 'f option \<Rightarrow> u64" where
  "rate_or_least fl converted =
     rate_as_kwu fl (case converted of None \<Rightarrow> least_rate fl | Some r \<Rightarrow> rate_max fl r (least_rate fl))"

text \<open>
  Esplora: \<open>convert\<close> is \<open>convert_fee_rate\<close> of the client crate on the estimates received; the flag tells
  whether there are none at all.
\<close>

definition esplora_fee_rate_cache ::
    "u32 \<Rightarrow> 'f rate_ops \<Rightarrow> network \<Rightarrow> (bool \<times> (nat \<Rightarrow> 'f option)) reply \<Rightarrow> (fee_cache, node_error) result" where
  "esplora_fee_rate_cache FLOOR fl net estimates =
     (case estimates of
        Elapsed \<Rightarrow> Inl FeerateEstimationUpdateTimeout
      | CallFailed \<Rightarrow> Inl FeerateEstimationUpdateFailed
      | Answer (no_estimates, convert) \<Rightarrow>
          if no_estimates \<and> net = Bitcoin then Inl FeerateEstimationUpdateFailed
          else Inr (fold (\<lambda>tgt cache.
                 let num_blocks = get_num_block_defaults_for_target tgt;
                     fee_rate = rate_or_least fl (convert num_blocks);
                     adjusted_fee_rate = apply_post_estimation_adjustments FLOOR tgt fee_rate in
                 cache(tgt \<mapsto> adjusted_fee_rate)) get_all_conf_targets Map.empty))"

text \<open>Electrum: the answers of the batch call in the order of the targets.\<close>

definition get_fee_rate_cache_update ::
    "u32 \<Rightarrow> 'f rate_ops \<Rightarrow> network \<Rightarrow> 'f option list reply \<Rightarrow> (fee_cache, node_error) result" where
  "get_fee_rate_cache_update FLOOR fl net raw_estimates =
     (case raw_estimates of
        Elapsed \<Rightarrow> Inl FeerateEstimationUpdateTimeout
      | CallFailed \<Rightarrow> Inl FeerateEstimationUpdateFailed
      | Answer estimates \<Rightarrow>
          if length estimates \<noteq> length get_all_conf_targets \<and> net = Bitcoin
          then Inl FeerateEstimationUpdateFailed
          else Inr (fold (\<lambda>(tgt, raw) cache.
                 let fee_rate = rate_or_least fl raw;
                     adjusted_fee_rate = apply_post_estimation_adjustments FLOOR tgt fee_rate in
                 cache(tgt \<mapsto> adjusted_fee_rate)) (zip get_all_conf_targets estimates) Map.empty))"

text \<open>
  Bitcoin Core: one request per target, and the loop may end the whole update early. \<open>None\<close> is the
  early \<open>return Ok(())\<close> that leaves the cache as it was.
\<close>

datatype estimation_mode = Economical | Conservative

datatype fee_request = MempoolMinimum | EstimateForTarget nat estimation_mode

fun bitcoind_fee_request :: "confirmation_target \<Rightarrow> fee_request" where
  "bitcoind_fee_request (Lightning MinAllowedAnchorChannelRemoteFee) = MempoolMinimum"
| "bitcoind_fee_request (Lightning MaximumFeeEstimate) =
     EstimateForTarget (get_num_block_defaults_for_target (Lightning MaximumFeeEstimate)) Conservative"
| "bitcoind_fee_request (Lightning UrgentOnChainSweep) =
     EstimateForTarget (get_num_block_defaults_for_target (Lightning UrgentOnChainSweep)) Conservative"
| "bitcoind_fee_request tgt = EstimateForTarget (get_num_block_defaults_for_target tgt) Economical"

fun bitcoind_fee_loop ::
    "u32 \<Rightarrow> network \<Rightarrow> (fee_request \<Rightarrow> u64 reply) \<Rightarrow> confirmation_target list \<Rightarrow> fee_cache
       \<Rightarrow> (fee_cache option, node_error) result" where
  "bitcoind_fee_loop FLOOR net api [] cache = Inr (Some cache)"
| "bitcoind_fee_loop FLOOR net api (tgt # targets) cache =
     (case api (bitcoind_fee_request tgt) of
        Elapsed \<Rightarrow> Inl FeerateEstimationUpdateTimeout
      | Answer rate \<Rightarrow>
          bitcoind_fee_loop FLOOR net api targets
            (cache(tgt \<mapsto> apply_post_estimation_adjustments FLOOR tgt rate))
      | CallFailed \<Rightarrow>
          if net = Bitcoin then Inl FeerateEstimationUpdateFailed
          else if net = Regtest \<or> net = Signet then
            bitcoind_fee_loop FLOOR net api targets
              (cache(tgt \<mapsto> apply_post_estimation_adjustments FLOOR tgt 250))
          else Inr None)"

definition bitcoind_fee_rate_cache ::
    "u32 \<Rightarrow> network \<Rightarrow> (fee_request \<Rightarrow> u64 reply) \<Rightarrow> (fee_cache option, node_error) result" where
  "bitcoind_fee_rate_cache FLOOR net api = bitcoind_fee_loop FLOOR net api get_all_conf_targets Map.empty"

text \<open>
  \<open>update_fee_rate_estimates\<close> of a chain source. Electrum has no client before it is started
  (\<open>None\<close>). \<open>now\<close> is the clock, \<open>None\<close> when it is before the epoch.
\<close>

datatype 'f fee_source =
    EsploraFees "(bool \<times> (nat \<Rightarrow> 'f option)) reply"
  | ElectrumFees "'f option list reply option"
  | BitcoindFees "fee_request \<Rightarrow> u64 reply"

fun new_fee_rate_cache ::
    "u32 \<Rightarrow> 'f rate_ops \<Rightarrow> network \<Rightarrow> 'f fee_source \<Rightarrow> (fee_cache option, node_error) result" where
  "new_fee_rate_cache FLOOR fl net (EsploraFees estimates) =
     and_then (esplora_fee_rate_cache FLOOR fl net estimates) (\<lambda>c. Inr (Some c))"
| "new_fee_rate_cache FLOOR fl net (ElectrumFees None) = Inl FeerateEstimationUpdateFailed"
| "new_fee_rate_cache FLOOR fl net (ElectrumFees (Some estimates)) =
     and_then (get_fee_rate_cache_update FLOOR fl net estimates) (\<lambda>c. Inr (Some c))"
| "new_fee_rate_cache FLOOR fl net (BitcoindFees api) = bitcoind_fee_rate_cache FLOOR net api"

record 'kv fee_state =
  fs_estimator :: onchain_fee_estimator
  fs_metrics :: node_metrics
  fs_kv :: 'kv

definition update_fee_rate_estimates ::
    "u32 \<Rightarrow> 'f rate_ops \<Rightarrow> (node_metrics \<Rightarrow> bytes) \<Rightarrow> 'kv kv_ops \<Rightarrow> network \<Rightarrow> u64 option \<Rightarrow> 'f fee_source
       \<Rightarrow> 'kv fee_state \<Rightarrow> (unit, node_error) result \<times> 'kv fee_state" where
  "update_fee_rate_estimates FLOOR fl enc ops net now src st =
     (case new_fee_rate_cache FLOOR fl net src of
        Inl e \<Rightarrow> (Inl e, st)
      | Inr None \<Rightarrow> (Inr (), st)
      | Inr (Some cache) \<Rightarrow>
          (let est = fst (set_fee_rate_cache (fs_estimator st) cache);
               metrics = (fs_metrics st)\<lparr>latest_fee_rate_cache_update_timestamp := now\<rparr>;
               (res, kv) = write_node_metrics enc ops metrics (fs_kv st) in
           (res, \<lparr>fs_estimator = est, fs_metrics = metrics, fs_kv = kv\<rparr>)))"

section \<open>Lemmas\<close>

lemma all_conf_targets: "set get_all_conf_targets = UNIV"
proof -
  have "tgt \<in> set get_all_conf_targets" for tgt
  proof (cases tgt)
    case (Lightning t)
    then show ?thesis
      by (cases t) (simp_all add: get_all_conf_targets_def)
  qed (simp_all add: get_all_conf_targets_def)
  then show ?thesis
    by blast
qed

lemma dom_fold_update: "dom (fold (\<lambda>x m. m(f x \<mapsto> g x)) xs m) = dom m \<union> f ` set xs"
  by (induction xs arbitrary: m) auto

lemma fee_cache_set [simp]: "fee_rate_cache (fst (set_fee_rate_cache est cache)) = cache"
  by (simp add: set_fee_rate_cache_def)

lemma esplora_cache_total:
  assumes "esplora_fee_rate_cache FLOOR fl net estimates = Inr cache"
  shows "dom cache = UNIV"
proof -
  obtain g where "cache = fold (\<lambda>t c. c(t \<mapsto> g t)) get_all_conf_targets Map.empty"
    using assms by (auto simp: esplora_fee_rate_cache_def Let_def split: reply.splits prod.splits if_splits)
  then show ?thesis
    using dom_fold_update [of "\<lambda>t. t" g get_all_conf_targets Map.empty] by (simp only: all_conf_targets) simp
qed

lemma electrum_cache_total:
  assumes "get_fee_rate_cache_update FLOOR fl Bitcoin raw = Inr cache"
  shows "dom cache = UNIV"
proof -
  obtain estimates where raw: "raw = Answer estimates"
      and len: "length estimates = length get_all_conf_targets"
    using assms by (auto simp: get_fee_rate_cache_update_def split: reply.splits if_splits)
  then have "fst ` set (zip get_all_conf_targets estimates) = set get_all_conf_targets"
    by (metis list.set_map map_fst_zip)
  moreover obtain g where "cache = fold (\<lambda>p c. c(fst p \<mapsto> g p)) (zip get_all_conf_targets estimates) Map.empty"
    using assms raw len by (auto simp: get_fee_rate_cache_update_def Let_def case_prod_unfold)
  ultimately show ?thesis
    using dom_fold_update [of fst g "zip get_all_conf_targets estimates" Map.empty]
    by (simp only: all_conf_targets) simp
qed

lemma bitcoind_loop_total:
  "bitcoind_fee_loop FLOOR Bitcoin api targets cache = Inr r \<Longrightarrow>
     \<exists>cache'. r = Some cache' \<and> dom cache' = dom cache \<union> set targets"
proof (induction targets arbitrary: cache)
  case (Cons t targets)
  then obtain rate where "api (bitcoind_fee_request t) = Answer rate"
    by (auto split: reply.splits)
  then have "bitcoind_fee_loop FLOOR Bitcoin api targets
      (cache(t \<mapsto> apply_post_estimation_adjustments FLOOR t rate)) = Inr r"
    using Cons.prems by simp
  from Cons.IH [OF this] show ?case
    by auto
qed auto

lemma mainnet_cache_total:
  assumes "new_fee_rate_cache FLOOR fl Bitcoin src = Inr r"
  shows "\<exists>cache. r = Some cache \<and> dom cache = UNIV"
  using assms esplora_cache_total electrum_cache_total bitcoind_loop_total
  by (cases "(FLOOR, fl, Bitcoin, src)" rule: new_fee_rate_cache.cases)
     (fastforce simp: bitcoind_fee_rate_cache_def all_conf_targets)+

lemma estimate_at_least_floor: "ucast FLOOR \<le> estimate_fee_rate FLOOR est tgt"
  by (simp add: estimate_fee_rate_def Let_def)

lemma ldk_fallback_at_least_floor: "FLOOR \<le> 500 \<Longrightarrow> FLOOR \<le> get_fallback_rate_for_ldk_target FLOOR tgt"
  by (cases tgt) (auto simp: word_le_nat_alt)

lemma unat_floor_rate: "unat (ucast (FLOOR :: u32) :: u64) = unat FLOOR"
  using unsigned_less [where 'a = nat, of FLOOR] by (simp add: unsigned_ucast_eq take_bit_nat_eq_self_iff)

lemma ldk_estimate_at_least_floor:
  assumes "FLOOR \<le> 500"
  shows "FLOOR \<le> get_est_sat_per_1000_weight FLOOR est tgt"
proof -
  let ?r = "estimate_fee_rate FLOOR est (Lightning tgt)"
  have "unat (ucast ?r :: u32) = unat ?r" if "unat ?r < 2 ^ 32"
    using that by (simp add: unsigned_ucast_eq take_bit_nat_eq_self_iff)
  moreover have "unat FLOOR \<le> unat ?r"
    using estimate_at_least_floor [of FLOOR est "Lightning tgt"] unat_floor_rate by (simp add: word_le_nat_alt)
  ultimately show ?thesis
    using ldk_fallback_at_least_floor [OF assms, of tgt]
    by (auto simp: get_est_sat_per_1000_weight_def Let_def word_le_nat_alt)
qed

section \<open>Properties\<close>

text \<open>
  C29: whatever the servers answer, the fee estimates stay usable. On the main network an update that
  succeeds has refreshed every target, an update that fails for another reason than persisting the
  metrics has changed nothing, and after either every estimate, also the 32-bit one handed to the
  Lightning implementation, is at least the relay floor.
\<close>

theorem fee_update_outcomes:
  assumes "update_fee_rate_estimates FLOOR fl enc ops net now src st = (res, st')" and "FLOOR \<le> 500"
  shows "(res = Inr () \<and> net = Bitcoin \<longrightarrow> dom (fee_rate_cache (fs_estimator st')) = UNIV)
    \<and> (res \<noteq> Inr () \<and> res \<noteq> Inl PersistenceFailed \<longrightarrow> st' = st)
    \<and> (\<forall>tgt. ucast FLOOR \<le> estimate_fee_rate FLOOR (fs_estimator st') tgt)
    \<and> (\<forall>tgt. FLOOR \<le> get_est_sat_per_1000_weight FLOOR (fs_estimator st') tgt)"
proof -
  have "dom (fee_rate_cache (fs_estimator st')) = UNIV" if "res = Inr ()" "net = Bitcoin"
    using assms(1) that mainnet_cache_total [of FLOOR fl src]
    by (fastforce simp: update_fee_rate_estimates_def Let_def split: sum.splits option.splits prod.splits)
  moreover have "st' = st" if "res \<noteq> Inr ()" "res \<noteq> Inl PersistenceFailed"
    using assms(1) that
    by (auto simp: update_fee_rate_estimates_def write_node_metrics_def Let_def
        split: sum.splits option.splits prod.splits)
  ultimately show ?thesis
    using estimate_at_least_floor ldk_estimate_at_least_floor [OF assms(2)] by blast
qed


definition example_rates :: "u64 rate_ops" where
  "example_rates = \<lparr>least_rate = 250, rate_max = max, rate_as_kwu = (\<lambda>r. r)\<rparr>"

abbreviation example_fee_update :: "(unit, node_error) result \<times> sqlite_store fee_state" where
  "example_fee_update \<equiv> update_fee_rate_estimates 253 example_rates (\<lambda>m. [1])
     (sqlite_ops ''node_metrics'' 120 (\<lambda>_. True)) Bitcoin (Some 7)
     (BitcoindFees (\<lambda>r. case r of MempoolMinimum \<Rightarrow> Answer 100 | EstimateForTarget n m \<Rightarrow> Answer 900))
     \<lparr>fs_estimator = OnchainFeeEstimator_new, fs_metrics = NodeMetrics_default,
      fs_kv = SqliteStore_new Map.empty\<rparr>"

theorem fee_update_outcomes_witness:
  "fst example_fee_update = Inr ()
   \<and> dom (fee_rate_cache (fs_estimator (snd example_fee_update))) = UNIV
   \<and> 253 \<le> get_est_sat_per_1000_weight 253 (fs_estimator (snd example_fee_update)) MinAllowedAnchorChannelRemoteFee"
proof -
  have written: "fst (write_node_metrics (\<lambda>m. [1]) (sqlite_ops ''node_metrics'' 120 (\<lambda>_. True))
      (NodeMetrics_default\<lparr>latest_fee_rate_cache_update_timestamp := Some 7\<rparr>) (SqliteStore_new Map.empty)) = Inr ()"
    by code_simp
  have ok: "fst example_fee_update = Inr ()"
    using written
    by (simp add: update_fee_rate_estimates_def bitcoind_fee_rate_cache_def get_all_conf_targets_def Let_def
        case_prod_unfold)
  have "example_fee_update = (fst example_fee_update, snd example_fee_update)"
    by simp
  from fee_update_outcomes [OF this] show ?thesis
    using ok by (simp only: simp_thms) (simp add: word_le_nat_alt)
qed

end
