(* ===== verification/Node_Event.thy ===== *)
theory Node_Event
  imports LN_Types Hex_Utils
begin

text \<open>
  The events the node hands to its user (\<open>Event\<close> of \<open>src/event.rs\<close>) and the transaction details
  inside them. Values of crate types that the sources only pass on, such as the reason of a failure,
  have the type parameter \<open>'x\<close>.
\<close>

section \<open>Transaction details\<close>

record tx_input =
  ti_txid :: txid
  ti_vout :: u32
  ti_scriptsig :: string
  ti_witness :: "string list"
  ti_sequence :: u32

text \<open>\<open>value\<close> is an \<open>i64\<close>, given by its bits; \<open>sint\<close> reads it.\<close>

record tx_output =
  to_scriptpubkey :: string
  to_scriptpubkey_type :: "string option"
  to_scriptpubkey_address :: "string option"
  to_value :: u64
  to_n :: u32

record transaction_details =
  td_amount_sats :: u64
  td_inputs :: "tx_input list"
  td_outputs :: "tx_output list"

text \<open>The parts of the input and output of the \<open>bitcoin\<close> crate that are read.\<close>

record btc_tx_in =
  in_previous_output :: outpoint
  in_script_sig :: bytes
  in_witness :: "bytes list"
  in_sequence :: u32

record btc_tx_out =
  out_value :: u64
  out_script_pubkey :: bytes

definition from_tx_input :: "btc_tx_in \<Rightarrow> tx_input" where
  "from_tx_input i =
     \<lparr>ti_txid = op_txid (in_previous_output i), ti_vout = op_vout (in_previous_output i),
      ti_scriptsig = to_string (in_script_sig i), ti_witness = map to_string (in_witness i),
      ti_sequence = in_sequence i\<rparr>"

text \<open>
  The address library: \<open>from_script\<close> decodes a script to an address of the network, of which
  \<open>address_type\<close> and \<open>to_string\<close> are known.
\<close>

datatype btc_address_type = P2pkh | P2sh | P2wpkh | P2wsh | P2tr | OtherAddressType

definition parse_script_type_and_address ::
    "(bytes \<Rightarrow> (btc_address_type option \<times> string) option) \<Rightarrow> bytes \<Rightarrow> string option \<times> string option" where
  "parse_script_type_and_address from_script script =
     (case from_script script of
        None \<Rightarrow> (None, None)
      | Some (address_type, printed) \<Rightarrow>
          ((case address_type of
              Some P2pkh \<Rightarrow> Some ''p2pkh''
            | Some P2sh \<Rightarrow> Some ''p2sh''
            | Some P2wpkh \<Rightarrow> Some ''p2wpkh''
            | Some P2wsh \<Rightarrow> Some ''p2wsh''
            | Some P2tr \<Rightarrow> Some ''p2tr''
            | _ \<Rightarrow> None), Some printed))"

definition from_tx_output ::
    "(bytes \<Rightarrow> (btc_address_type option \<times> string) option) \<Rightarrow> btc_tx_out \<Rightarrow> u32 \<Rightarrow> tx_output" where
  "from_tx_output from_script txo index =
     (let (scriptpubkey_type, scriptpubkey_address) =
            parse_script_type_and_address from_script (out_script_pubkey txo) in
      \<lparr>to_scriptpubkey = to_string (out_script_pubkey txo), to_scriptpubkey_type = scriptpubkey_type,
       to_scriptpubkey_address = scriptpubkey_address, to_value = out_value txo, to_n = index\<rparr>)"

section \<open>Events\<close>

datatype sync_type = OnchainWallet | LightningWallet | FeeRateCache

text \<open>
  The arguments are in the order of the source: \<open>PaymentSuccessful\<close> id, hash, preimage, fee;
  \<open>PaymentFailed\<close> id, hash, reason; \<open>PaymentReceived\<close> id, hash, amount, records;
  \<open>PaymentForwarded\<close> previous and next channel, their user identifiers, their nodes, fee earned,
  skimmed fee, claimed on chain, amount; \<open>PaymentClaimable\<close> id, hash, amount, deadline, records;
  \<open>ProbeSuccessful\<close> id, hash, fee; \<open>ProbeFailed\<close> id, hash, channel, fee; \<open>ChannelPending\<close> channel,
  user identifier, temporary identifier, counterparty, funding; and so on.
\<close>

datatype (plugins only: code) 'x node_event =
    PaymentSuccessful "payment_id option" payment_hash "payment_preimage option" "u64 option"
  | PaymentFailed "payment_id option" "payment_hash option" "'x option"
  | PaymentReceived "payment_id option" payment_hash u64 "custom_tlv_record list"
  | PaymentForwarded channel_id channel_id "user_channel_id option" "user_channel_id option"
      "public_key option" "public_key option" "u64 option" "u64 option" bool "u64 option"
  | PaymentClaimable payment_id payment_hash u64 "u32 option" "custom_tlv_record list"
  | ProbeSuccessful payment_id payment_hash "u64 option"
  | ProbeFailed payment_id payment_hash "u64 option" "u64 option"
  | ChannelPending channel_id user_channel_id channel_id public_key outpoint
  | ChannelReady channel_id user_channel_id "public_key option" "outpoint option"
  | ChannelClosed channel_id user_channel_id "public_key option" "'x option"
  | SplicePending channel_id user_channel_id public_key outpoint
  | SpliceFailed channel_id user_channel_id public_key "outpoint option"
  | OnchainTransactionConfirmed txid block_hash u32 u64 transaction_details
  | OnchainTransactionReceived txid transaction_details
  | OnchainTransactionReplaced txid "txid list"
  | OnchainTransactionReorged txid
  | OnchainTransactionEvicted txid
  | SyncProgress sync_type u8 u32 u32
  | SyncCompleted sync_type u32
  | BalanceChanged u64 u64 u64 u64 u64 u64

end
