(* ===== verification/Event_Handler.thy ===== *)
theory Event_Handler
  imports Node_Event Node_Config Event_Queue Payment_Store Peer_Store
    Om_Mailbox Static_Invoice_Store
begin

text \<open>
  \<open>EventHandler\<close> of \<open>src/event.rs\<close>, which turns the events of the Lightning implementation into
  changes of the payment store, the event queue, the peer store, the mailbox and the static invoices,
  and into calls of the channel manager and other components. There is one definition per branch of
  \<open>handle_event\<close> and the dispatch over them. The stores are the models of the other theories; calls of
  third-party components are recorded in the order in which they are made, and what such a component
  answers is a field of \<open>handler_env\<close>. Crate values that are only passed on have type \<open>'x\<close>. A branch
  ends normally, asks for a replay of the event, or panics at an \<open>unwrap\<close> or \<open>expect\<close>.
\<close>

section \<open>State\<close>

datatype handled = Handled | Replay | Panicked

text \<open>What the branches ask other components to do.\<close>

datatype (plugins only: code) ('x, 'addr) action =
    FailHtlcBackwards payment_hash
  | ClaimFunds payment_preimage
  | ForceClose channel_id public_key string
  | FundingGenerated channel_id public_key 'x
  | FundingGeneratedManualBroadcast channel_id public_key 'x
  | StoreFundingTransaction u128 public_key 'x
  | FundingTxBroadcastSafe u128 public_key
  | AcceptInboundChannel channel_id public_key u128 bool
  | AcceptInboundChannel0conf channel_id public_key u128 bool
  | LiquidityHtlcHandlingFailed 'x
  | LiquidityPaymentForwarded "channel_id option" u64
  | LiquidityChannelReady u128 channel_id public_key
  | LiquidityHtlcIntercepted u64 'x u64 payment_hash
  | TrackSpendableOutputs 'x "channel_id option"
  | SpawnConnect public_key "'addr list"
  | BumpTransaction 'x
  | ForwardOnionMessage 'x public_key
  | StaticInvoicePersisted 'x
  | RespondToStaticInvoiceRequest 'x 'x 'x 'x
  | FundingTransactionSigned channel_id public_key 'x

record ('x, 'addr, 'kv) handler_state =
  h_queue :: "'x node_event event_queue"
  h_payments :: "(payment_id, payment_details) data_store"
  h_peers :: "'addr peer_store"
  h_mailbox :: "'x mailbox option"
  h_invoices :: "static_invoice_store option"
  h_kv :: 'kv
  h_actions :: "('x, 'addr) action list"

text \<open>The codecs and the key-value store.\<close>

record ('x, 'addr, 'kv) handler_libs =
  hl_ops :: "'kv kv_ops"
  hl_event :: "'x node_event \<Rightarrow> bytes"
  hl_payment :: "payment_tlv \<Rightarrow> bytes"
  hl_peers :: "'addr peer_store \<Rightarrow> bytes"
  hl_sha256 :: "bytes \<Rightarrow> bytes"
  hl_invoice :: "'x \<times> 'x \<Rightarrow> bytes"
  hl_read_invoice :: "bytes \<Rightarrow> ('x \<times> 'x) option"

text \<open>The part of the channel details of the \<open>lightning\<close> crate that is read.\<close>

record ch_details =
  ch_id :: channel_id
  ch_counterparty :: public_key
  ch_is_outbound :: bool
  ch_shutdown_complete :: bool
  ch_requires_anchors :: bool
  ch_funding_txo :: "outpoint option"
  ch_funding_script_pubkey :: "bytes option"
  ch_value_satoshis :: u64

text \<open>
  The clock, the configuration, and what other components answer while the event is handled. There
  is a liquidity source when \<open>he_liquidity\<close> holds.
\<close>

record ('x, 'addr, 'route) handler_env =
  he_now :: u64
  he_clock :: clock
  he_config :: "('addr, 'route) config"
  he_height :: u32
  he_channels :: "ch_details list"
  he_create_funding :: "'x \<Rightarrow> u64 \<Rightarrow> u32 \<Rightarrow> ('x, node_error) result"
  he_liquidity :: bool
  he_needs_manual_broadcast :: "public_key \<Rightarrow> u128 \<Rightarrow> bool"
  he_lsp_node_id :: "public_key option"
  he_compute_opening_fee :: "u64 \<Rightarrow> u64 \<Rightarrow> u64 \<Rightarrow> u64 option"
  he_tracked :: bool
  he_spendable :: "u64 \<Rightarrow> (u64, node_error) result"
  he_random :: u128
  he_first_address :: "public_key \<Rightarrow> 'addr option"
  he_sign_owned_inputs :: "'x \<Rightarrow> (outpoint \<times> btc_tx_out) list \<Rightarrow> 'x option"
  he_cancel_tx :: "'x \<Rightarrow> (unit, node_error) result"

definition call :: "('x, 'addr) action \<Rightarrow> ('x, 'addr, 'kv) handler_state \<Rightarrow> ('x, 'addr, 'kv) handler_state" where
  "call a st = st\<lparr>h_actions := h_actions st @ [a]\<rparr>"

text \<open>The payment store with the clock and the codec it uses.\<close>

definition update_payment ::
    "('x, 'addr, 'kv) handler_libs \<Rightarrow> ('x, 'addr, 'route) handler_env \<Rightarrow> payment_details_update
       \<Rightarrow> ('x, 'addr, 'kv) handler_state
       \<Rightarrow> (DataStoreUpdateResult, node_error) result \<times> ('x, 'addr, 'kv) handler_state" where
  "update_payment L env up st =
     (case DataStore_update (payment_storable (he_now env) (hl_payment L)) (hl_ops L) (h_payments st) (h_kv st) up of
        (res, ds, kv) \<Rightarrow> (res, st\<lparr>h_payments := ds, h_kv := kv\<rparr>))"

definition insert_payment ::
    "('x, 'addr, 'kv) handler_libs \<Rightarrow> ('x, 'addr, 'route) handler_env \<Rightarrow> payment_details
       \<Rightarrow> ('x, 'addr, 'kv) handler_state \<Rightarrow> ('x, 'addr, 'kv) handler_state" where
  "insert_payment L env payment st =
     (case DataStore_insert (payment_storable (he_now env) (hl_payment L)) (hl_ops L) (h_payments st) (h_kv st) payment of
        (res, ds, kv) \<Rightarrow> st\<lparr>h_payments := ds, h_kv := kv\<rparr>)"

text \<open>\<open>add_event\<close> at the end of a branch, and the refusal of an inbound payment.\<close>

definition add_event_or_replay ::
    "('x, 'addr, 'kv) handler_libs \<Rightarrow> 'x node_event \<Rightarrow> ('x, 'addr, 'kv) handler_state
       \<Rightarrow> handled \<times> ('x, 'addr, 'kv) handler_state" where
  "add_event_or_replay L ev st =
     (case EventQueue_add_event (hl_event L) (hl_ops L) (h_queue st) (h_kv st) ev of
        (res, q, kv) \<Rightarrow> (if isl res then Replay else Handled, st\<lparr>h_queue := q, h_kv := kv\<rparr>))"

definition fail_payment ::
    "('x, 'addr, 'kv) handler_libs \<Rightarrow> ('x, 'addr, 'route) handler_env \<Rightarrow> payment_hash \<Rightarrow> payment_details_update
       \<Rightarrow> ('x, 'addr, 'kv) handler_state \<Rightarrow> handled \<times> ('x, 'addr, 'kv) handler_state" where
  "fail_payment L env payment_hash up st =
     (case update_payment L env up (call (FailHtlcBackwards payment_hash) st) of
        (Inr _, st') \<Rightarrow> (Handled, st')
      | (Inl e, st') \<Rightarrow> (Replay, st'))"

section \<open>Funding\<close>

definition channel_funding_prevout :: "('x, 'addr, 'route) handler_env \<Rightarrow> channel_id \<Rightarrow> (outpoint \<times> btc_tx_out) list" where
  "channel_funding_prevout env channel_id =
     (case List.find (\<lambda>c. ch_id c = channel_id) (he_channels env) of
        None \<Rightarrow> []
      | Some channel \<Rightarrow>
          (case (ch_funding_txo channel, ch_funding_script_pubkey channel) of
             (Some outpoint, Some script_pubkey) \<Rightarrow>
               [(outpoint, \<lparr>out_value = ch_value_satoshis channel, out_script_pubkey = script_pubkey\<rparr>)]
           | _ \<Rightarrow> []))"

text \<open>\<open>LockTime::from_height\<close> accepts heights below 500 million.\<close>

definition handle_funding_generation_ready ::
    "('x, 'addr, 'route) handler_env \<Rightarrow> channel_id \<Rightarrow> public_key \<Rightarrow> u64 \<Rightarrow> 'x \<Rightarrow> u128
       \<Rightarrow> ('x, 'addr, 'kv) handler_state \<Rightarrow> handled \<times> ('x, 'addr, 'kv) handler_state" where
  "handle_funding_generation_ready env temporary_channel_id counterparty_node_id channel_value_satoshis
     output_script user_channel_id st =
     (let cur_height = he_height env;
          locktime = (if cur_height < 500000000 then cur_height else 0) in
      case he_create_funding env output_script channel_value_satoshis locktime of
        Inr final_tx \<Rightarrow>
          if he_liquidity env \<and> he_needs_manual_broadcast env counterparty_node_id user_channel_id
          then (Handled,
                call (FundingGeneratedManualBroadcast temporary_channel_id counterparty_node_id final_tx)
                  (call (StoreFundingTransaction user_channel_id counterparty_node_id final_tx) st))
          else (Handled, call (FundingGenerated temporary_channel_id counterparty_node_id final_tx) st)
      | Inl e \<Rightarrow>
          (Handled, call (ForceClose temporary_channel_id counterparty_node_id
                            ''Failed to create funding transaction'') st))"

definition handle_funding_tx_broadcast_safe ::
    "('x, 'addr, 'route) handler_env \<Rightarrow> u128 \<Rightarrow> public_key
       \<Rightarrow> ('x, 'addr, 'kv) handler_state \<Rightarrow> handled \<times> ('x, 'addr, 'kv) handler_state" where
  "handle_funding_tx_broadcast_safe env user_channel_id counterparty_node_id st =
     (Handled, if he_liquidity env then call (FundingTxBroadcastSafe user_channel_id counterparty_node_id) st else st)"

definition handle_funding_transaction_ready_for_signing ::
    "('x, 'addr, 'route) handler_env \<Rightarrow> channel_id \<Rightarrow> public_key \<Rightarrow> 'x
       \<Rightarrow> ('x, 'addr, 'kv) handler_state \<Rightarrow> handled \<times> ('x, 'addr, 'kv) handler_state" where
  "handle_funding_transaction_ready_for_signing env channel_id counterparty_node_id unsigned_transaction st =
     (case he_sign_owned_inputs env unsigned_transaction (channel_funding_prevout env channel_id) of
        Some partially_signed_tx \<Rightarrow>
          (Handled, call (FundingTransactionSigned channel_id counterparty_node_id partially_signed_tx) st)
      | None \<Rightarrow> (Handled, st))"

section \<open>Inbound payments\<close>

text \<open>
  \<open>PaymentPurpose\<close>: \<open>Bolt11InvoicePayment\<close> preimage, secret; \<open>Bolt12OfferPayment\<close> preimage, secret,
  offer, payer note, quantity; \<open>Bolt12RefundPayment\<close> preimage, secret; \<open>SpontaneousPayment\<close> preimage.
\<close>

datatype payment_purpose =
    Bolt11InvoicePayment "payment_preimage option" payment_secret
  | Bolt12OfferPayment "payment_preimage option" payment_secret offer_id "string option" "u64 option"
  | Bolt12RefundPayment "payment_preimage option" payment_secret
  | SpontaneousPayment payment_preimage

fun purpose_preimage :: "payment_purpose \<Rightarrow> payment_preimage option" where
  "purpose_preimage (Bolt11InvoicePayment p s) = p"
| "purpose_preimage (Bolt12OfferPayment p s off n q) = p"
| "purpose_preimage (Bolt12RefundPayment p s) = p"
| "purpose_preimage (SpontaneousPayment p) = Some p"

type_synonym onion_fields = "(u64 \<times> bytes) list option"

definition custom_records :: "onion_fields \<Rightarrow> custom_tlv_record list" where
  "custom_records onion_fields =
     (case onion_fields of
        None \<Rightarrow> []
      | Some tlvs \<Rightarrow> map (\<lambda>(t, v). \<lparr>type_num = t, tlv_value = v\<rparr>) tlvs)"

text \<open>The most the counterparty may withhold from a known payment.\<close>

definition max_total_opening_fee ::
    "('x, 'addr, 'route) handler_env \<Rightarrow> payment_details \<Rightarrow> u64 \<Rightarrow> u64" where
  "max_total_opening_fee env info amount_msat =
     (case pd_kind info of
        Bolt11Jit h p s c lsp_fee_limits d b \<Rightarrow>
          (case max_total_opening_fee_msat lsp_fee_limits of
             Some fee \<Rightarrow> fee
           | None \<Rightarrow>
               (case max_proportional_opening_fee_ppm_msat lsp_fee_limits of
                  None \<Rightarrow> 0
                | Some max_prop_fee \<Rightarrow>
                    (case he_compute_opening_fee env amount_msat 0 max_prop_fee of None \<Rightarrow> 0 | Some fee \<Rightarrow> fee)))
      | _ \<Rightarrow> 0)"

definition is_spontaneous :: "payment_kind \<Rightarrow> bool" where
  "is_spontaneous k = (case k of Spontaneous h p \<Rightarrow> True | _ \<Rightarrow> False)"

definition is_jit :: "payment_kind \<Rightarrow> bool" where
  "is_jit k = (case k of Bolt11Jit h p s c l d b \<Rightarrow> True | _ \<Rightarrow> False)"

definition is_bolt11_or_jit :: "payment_kind \<Rightarrow> bool" where
  "is_bolt11_or_jit k = (case k of Bolt11 h p s d b \<Rightarrow> True | Bolt11Jit h p s c l d b \<Rightarrow> True | _ \<Rightarrow> False)"

text \<open>
  The part of the branch \<open>PaymentClaimable\<close> for a payment that is in the store; \<open>None\<close> when it goes on
  to claiming.
\<close>

definition claimable_known ::
    "('x, 'addr, 'kv) handler_libs \<Rightarrow> ('x, 'addr, 'route) handler_env \<Rightarrow> payment_hash \<Rightarrow> payment_purpose \<Rightarrow> u64
       \<Rightarrow> u32 option \<Rightarrow> onion_fields \<Rightarrow> u64 \<Rightarrow> payment_details \<Rightarrow> ('x, 'addr, 'kv) handler_state
       \<Rightarrow> handled option \<times> ('x, 'addr, 'kv) handler_state" where
  "claimable_known L env payment_hash purpose amount_msat claim_deadline onion_fields skimmed_fee_msat info st =
     (let payment_id = id_of_hash payment_hash;
          failed = (PaymentDetailsUpdate_new payment_id)\<lparr>pu_status := Some Failed\<rparr>;
          failed_hash = failed\<lparr>pu_hash := Some (Some payment_hash)\<rparr>;
          skimmed = (PaymentDetailsUpdate_new payment_id)
                      \<lparr>pu_counterparty_skimmed_fee_msat := Some (Some skimmed_fee_msat)\<rparr> in
      if pd_direction info = Outbound then
        (case fail_payment L env payment_hash failed st of (r, st') \<Rightarrow> (Some r, st'))
      else if pd_status info = Succeeded \<or> is_spontaneous (pd_kind info) then
        (case fail_payment L env payment_hash failed st of (r, st') \<Rightarrow> (Some r, st'))
      else if max_total_opening_fee env info amount_msat < skimmed_fee_msat then
        (case fail_payment L env payment_hash failed_hash st of (r, st') \<Rightarrow> (Some r, st'))
      else
        (case (if 0 < skimmed_fee_msat \<and> is_jit (pd_kind info) then update_payment L env skimmed st
               else (Inr Unchanged, st)) of
           (Inl e, st') \<Rightarrow> (Some Replay, st')
         | (Inr _, st') \<Rightarrow>
             if is_bolt11_or_jit (pd_kind info) \<and> purpose_preimage purpose = None then
               (case add_event_or_replay L
                       (PaymentClaimable payment_id payment_hash amount_msat claim_deadline
                          (custom_records onion_fields)) st' of
                  (r, st'') \<Rightarrow> (Some r, st''))
             else (None, st')))"

text \<open>Registering a payment that is not announced by an invoice; errors are only logged.\<close>

definition register_inbound ::
    "('x, 'addr, 'kv) handler_libs \<Rightarrow> ('x, 'addr, 'route) handler_env \<Rightarrow> payment_hash \<Rightarrow> payment_purpose \<Rightarrow> u64
       \<Rightarrow> ('x, 'addr, 'kv) handler_state \<Rightarrow> ('x, 'addr, 'kv) handler_state" where
  "register_inbound L env payment_hash purpose amount_msat st =
     (let payment_id = id_of_hash payment_hash in
      case purpose of
        Bolt12OfferPayment payment_preimage payment_secret offer_id payer_note quantity \<Rightarrow>
          insert_payment L env
            (PaymentDetails_new (he_now env) payment_id
               (Bolt12Offer (Some payment_hash) payment_preimage (Some payment_secret) offer_id payer_note quantity)
               (Some amount_msat) None Inbound Pending) st
      | SpontaneousPayment preimage \<Rightarrow>
          insert_payment L env
            (PaymentDetails_new (he_now env) payment_id (Spontaneous payment_hash (Some preimage))
               (Some amount_msat) None Inbound Pending) st
      | _ \<Rightarrow> st)"

definition handle_payment_claimable ::
    "('x, 'addr, 'kv) handler_libs \<Rightarrow> ('x, 'addr, 'route) handler_env \<Rightarrow> payment_hash \<Rightarrow> payment_purpose \<Rightarrow> u64
       \<Rightarrow> u32 option \<Rightarrow> onion_fields \<Rightarrow> u64 \<Rightarrow> ('x, 'addr, 'kv) handler_state
       \<Rightarrow> handled \<times> ('x, 'addr, 'kv) handler_state" where
  "handle_payment_claimable L env payment_hash purpose amount_msat claim_deadline onion_fields skimmed_fee_msat st =
     (let payment_id = id_of_hash payment_hash in
      case (case DataStore_get (h_payments st) payment_id of
              None \<Rightarrow> (None, st)
            | Some info \<Rightarrow>
                claimable_known L env payment_hash purpose amount_msat claim_deadline onion_fields
                  skimmed_fee_msat info st) of
        (Some r, st') \<Rightarrow> (r, st')
      | (None, st') \<Rightarrow>
          (let st'' = register_inbound L env payment_hash purpose amount_msat st' in
           case purpose_preimage purpose of
             Some preimage \<Rightarrow> (Handled, call (ClaimFunds preimage) st'')
           | None \<Rightarrow>
               fail_payment L env payment_hash
                 ((PaymentDetailsUpdate_new payment_id)
                    \<lparr>pu_hash := Some (Some payment_hash), pu_status := Some Failed\<rparr>) st''))"

section \<open>Settled payments\<close>

text \<open>The update of the store and, when it changed the record, the event for the user.\<close>

definition update_and_notify ::
    "('x, 'addr, 'kv) handler_libs \<Rightarrow> ('x, 'addr, 'route) handler_env \<Rightarrow> payment_details_update
       \<Rightarrow> 'x node_event \<Rightarrow> ('x, 'addr, 'kv) handler_state \<Rightarrow> handled \<times> ('x, 'addr, 'kv) handler_state" where
  "update_and_notify L env up ev st =
     (case update_payment L env up st of
        (Inr Updated, st') \<Rightarrow> add_event_or_replay L ev st'
      | (Inr Unchanged, st') \<Rightarrow> (Handled, st')
      | (Inr UpdateNotFound, st') \<Rightarrow> (Handled, st')
      | (Inl e, st') \<Rightarrow> (Replay, st'))"

definition claimed_update :: "payment_hash \<Rightarrow> payment_purpose \<Rightarrow> u64 \<Rightarrow> payment_details_update" where
  "claimed_update payment_hash purpose amount_msat =
     (let u = (PaymentDetailsUpdate_new (id_of_hash payment_hash))
                \<lparr>pu_amount_msat := Some (Some amount_msat), pu_status := Some Succeeded\<rparr> in
      case purpose of
        Bolt11InvoicePayment payment_preimage payment_secret \<Rightarrow>
          u\<lparr>pu_preimage := Some payment_preimage, pu_secret := Some (Some payment_secret)\<rparr>
      | Bolt12OfferPayment payment_preimage payment_secret off n q \<Rightarrow>
          u\<lparr>pu_preimage := Some payment_preimage, pu_secret := Some (Some payment_secret)\<rparr>
      | Bolt12RefundPayment payment_preimage payment_secret \<Rightarrow>
          u\<lparr>pu_preimage := Some payment_preimage, pu_secret := Some (Some payment_secret)\<rparr>
      | SpontaneousPayment preimage \<Rightarrow> u\<lparr>pu_preimage := Some (Some preimage)\<rparr>)"

definition handle_payment_claimed ::
    "('x, 'addr, 'kv) handler_libs \<Rightarrow> ('x, 'addr, 'route) handler_env \<Rightarrow> payment_hash \<Rightarrow> payment_purpose \<Rightarrow> u64
       \<Rightarrow> onion_fields \<Rightarrow> ('x, 'addr, 'kv) handler_state \<Rightarrow> handled \<times> ('x, 'addr, 'kv) handler_state" where
  "handle_payment_claimed L env payment_hash purpose amount_msat onion_fields st =
     update_and_notify L env (claimed_update payment_hash purpose amount_msat)
       (PaymentReceived (Some (id_of_hash payment_hash)) payment_hash amount_msat (custom_records onion_fields)) st"

definition sent_update ::
    "payment_id \<Rightarrow> payment_preimage \<Rightarrow> payment_hash \<Rightarrow> u64 option \<Rightarrow> payment_details_update" where
  "sent_update payment_id payment_preimage payment_hash fee_paid_msat =
     (PaymentDetailsUpdate_new payment_id)
       \<lparr>pu_hash := Some (Some payment_hash), pu_preimage := Some (Some payment_preimage),
        pu_fee_paid_msat := Some fee_paid_msat, pu_status := Some Succeeded\<rparr>"

text \<open>The message logged for a sent payment unwraps the amount of the stored record.\<close>

definition handle_payment_sent ::
    "('x, 'addr, 'kv) handler_libs \<Rightarrow> ('x, 'addr, 'route) handler_env \<Rightarrow> payment_id option \<Rightarrow> payment_preimage
       \<Rightarrow> payment_hash \<Rightarrow> u64 option \<Rightarrow> ('x, 'addr, 'kv) handler_state
       \<Rightarrow> handled \<times> ('x, 'addr, 'kv) handler_state" where
  "handle_payment_sent L env payment_id payment_preimage payment_hash fee_paid_msat st =
     (case payment_id of
        None \<Rightarrow> (Handled, st)
      | Some i \<Rightarrow>
          (case update_payment L env (sent_update i payment_preimage payment_hash fee_paid_msat) st of
             (Inr Updated, st') \<Rightarrow>
               (if (case DataStore_get (h_payments st') i of
                      None \<Rightarrow> False
                    | Some payment \<Rightarrow> pd_amount_msat payment = None)
                then (Panicked, st')
                else add_event_or_replay L
                       (PaymentSuccessful (Some i) payment_hash (Some payment_preimage) fee_paid_msat) st')
           | (Inr Unchanged, st') \<Rightarrow> (Handled, st')
           | (Inr UpdateNotFound, st') \<Rightarrow> (Handled, st')
           | (Inl e, st') \<Rightarrow> (Replay, st')))"

definition failed_update :: "payment_id \<Rightarrow> payment_hash option \<Rightarrow> payment_details_update" where
  "failed_update payment_id payment_hash =
     (PaymentDetailsUpdate_new payment_id)\<lparr>pu_hash := Some payment_hash, pu_status := Some Failed\<rparr>"

definition handle_payment_failed ::
    "('x, 'addr, 'kv) handler_libs \<Rightarrow> ('x, 'addr, 'route) handler_env \<Rightarrow> payment_id \<Rightarrow> payment_hash option
       \<Rightarrow> 'x option \<Rightarrow> ('x, 'addr, 'kv) handler_state \<Rightarrow> handled \<times> ('x, 'addr, 'kv) handler_state" where
  "handle_payment_failed L env payment_id payment_hash reason st =
     update_and_notify L env (failed_update payment_id payment_hash)
       (PaymentFailed (Some payment_id) payment_hash reason) st"

definition handle_probe_successful ::
    "('x, 'addr, 'kv) handler_libs \<Rightarrow> payment_id \<Rightarrow> payment_hash \<Rightarrow> u64
       \<Rightarrow> ('x, 'addr, 'kv) handler_state \<Rightarrow> handled \<times> ('x, 'addr, 'kv) handler_state" where
  "handle_probe_successful L payment_id payment_hash path_fee_msat st =
     add_event_or_replay L (ProbeSuccessful payment_id payment_hash (Some path_fee_msat)) st"

definition handle_probe_failed ::
    "('x, 'addr, 'kv) handler_libs \<Rightarrow> payment_id \<Rightarrow> payment_hash \<Rightarrow> u64 option \<Rightarrow> u64
       \<Rightarrow> ('x, 'addr, 'kv) handler_state \<Rightarrow> handled \<times> ('x, 'addr, 'kv) handler_state" where
  "handle_probe_failed L payment_id payment_hash short_channel_id path_fee_msat st =
     add_event_or_replay L (ProbeFailed payment_id payment_hash short_channel_id (Some path_fee_msat)) st"

definition handle_payment_forwarded_event ::
    "('x, 'addr, 'kv) handler_libs \<Rightarrow> ('x, 'addr, 'route) handler_env \<Rightarrow> channel_id option \<Rightarrow> channel_id option
       \<Rightarrow> u128 option \<Rightarrow> u128 option \<Rightarrow> public_key option \<Rightarrow> public_key option \<Rightarrow> u64 option \<Rightarrow> u64 option \<Rightarrow> bool
       \<Rightarrow> u64 option \<Rightarrow> ('x, 'addr, 'kv) handler_state \<Rightarrow> handled \<times> ('x, 'addr, 'kv) handler_state" where
  "handle_payment_forwarded_event L env prev_channel_id next_channel_id prev_user_channel_id next_user_channel_id
     prev_node_id next_node_id total_fee_earned_msat skimmed_fee_msat claim_from_onchain_tx
     outbound_amount_forwarded_msat st =
     (let st' = (if he_liquidity env
                 then call (LiquidityPaymentForwarded next_channel_id
                        (case skimmed_fee_msat of None \<Rightarrow> 0 | Some fee \<Rightarrow> fee)) st
                 else st) in
      case (prev_channel_id, next_channel_id) of
        (Some prev, Some nxt) \<Rightarrow>
          add_event_or_replay L
            (PaymentForwarded prev nxt (map_option UserChannelId prev_user_channel_id)
               (map_option UserChannelId next_user_channel_id) prev_node_id next_node_id total_fee_earned_msat
               skimmed_fee_msat claim_from_onchain_tx outbound_amount_forwarded_msat) st'
      | _ \<Rightarrow> (Panicked, st'))"

section \<open>Channels\<close>

definition total_anchor_channels_reserve_sats :: "ch_details list \<Rightarrow> ('addr, 'route) config \<Rightarrow> u64" where
  "total_anchor_channels_reserve_sats channels c =
     (case cfg_anchor_channels_config c of
        None \<Rightarrow> 0
      | Some anchor_channels_config \<Rightarrow>
          word_of_nat (length (filter (\<lambda>ch.
              ch_counterparty ch \<notin> set (trusted_peers_no_reserve anchor_channels_config)
              \<and> \<not> ch_shutdown_complete ch \<and> ch_requires_anchors ch) channels))
          * per_channel_reserve_sats anchor_channels_config)"

definition reject_channel ::
    "channel_id \<Rightarrow> public_key \<Rightarrow> ('x, 'addr, 'kv) handler_state \<Rightarrow> handled \<times> ('x, 'addr, 'kv) handler_state" where
  "reject_channel temporary_channel_id counterparty_node_id st =
     (Handled, call (ForceClose temporary_channel_id counterparty_node_id ''Channel request rejected'') st)"

text \<open>
  The override for channels opened by our LSP, which allows underpaying HTLCs and the full channel
  in flight, is a flag of the accepting call.
\<close>

definition handle_open_channel_request ::
    "('x, 'addr, 'route) handler_env \<Rightarrow> channel_id \<Rightarrow> public_key \<Rightarrow> bool \<Rightarrow> bool
       \<Rightarrow> ('x, 'addr, 'kv) handler_state \<Rightarrow> handled \<times> ('x, 'addr, 'kv) handler_state" where
  "handle_open_channel_request env temporary_channel_id counterparty_node_id anchor_channel is_announced st =
     (let c = he_config env;
          insufficient =
            (case cfg_anchor_channels_config c of
               None \<Rightarrow> True
             | Some anchor_channels_config \<Rightarrow>
                 (let cur_anchor_reserve_sats = total_anchor_channels_reserve_sats (he_channels env) c;
                      spendable_amount_sats =
                        (case he_spendable env cur_anchor_reserve_sats of Inl e \<Rightarrow> 0 | Inr sats \<Rightarrow> sats);
                      required_amount_sats =
                        (if counterparty_node_id \<in> set (trusted_peers_no_reserve anchor_channels_config) then 0
                         else per_channel_reserve_sats anchor_channels_config)
                  in spendable_amount_sats < required_amount_sats)) in
      if is_announced \<and> isl (may_announce_channel c) then reject_channel temporary_channel_id counterparty_node_id st
      else if anchor_channel \<and> insufficient then reject_channel temporary_channel_id counterparty_node_id st
      else
        (let user_channel_id = he_random env;
             channel_override = (he_liquidity env \<and> he_lsp_node_id env = Some counterparty_node_id) in
         if counterparty_node_id \<in> set (cfg_trusted_peers_0conf c)
         then (Handled, call (AcceptInboundChannel0conf temporary_channel_id counterparty_node_id user_channel_id
                                channel_override) st)
         else (Handled, call (AcceptInboundChannel temporary_channel_id counterparty_node_id user_channel_id
                                channel_override) st)))"

definition handle_channel_pending ::
    "('x, 'addr, 'kv) handler_libs \<Rightarrow> ('x, 'addr, 'route) handler_env \<Rightarrow> channel_id \<Rightarrow> u128 \<Rightarrow> channel_id option
       \<Rightarrow> public_key \<Rightarrow> outpoint \<Rightarrow> ('x, 'addr, 'kv) handler_state \<Rightarrow> handled \<times> ('x, 'addr, 'kv) handler_state" where
  "handle_channel_pending L env channel_id user_channel_id former_temporary_channel_id counterparty_node_id
     funding_txo st =
     (case former_temporary_channel_id of
        None \<Rightarrow> (Panicked, st)
      | Some former \<Rightarrow>
          (case add_event_or_replay L
                  (ChannelPending channel_id (UserChannelId user_channel_id) former counterparty_node_id funding_txo) st of
             (Handled, st') \<Rightarrow>
               (case List.find (\<lambda>c. ch_counterparty c = counterparty_node_id \<and> ch_id c = channel_id) (he_channels env) of
                  Some pending_channel \<Rightarrow>
                    if \<not> ch_is_outbound pending_channel then
                      (case persist_missing_channel_peers (hl_peers L) (hl_ops L) (he_first_address env)
                              (h_peers st') (h_kv st') [counterparty_node_id] of
                         (ps, kv) \<Rightarrow> (Handled, st'\<lparr>h_peers := ps, h_kv := kv\<rparr>))
                    else (Handled, st')
                | None \<Rightarrow> (Handled, st'))
           | (r, st') \<Rightarrow> (r, st')))"

definition handle_channel_ready_event ::
    "('x, 'addr, 'kv) handler_libs \<Rightarrow> ('x, 'addr, 'route) handler_env \<Rightarrow> channel_id \<Rightarrow> u128 \<Rightarrow> public_key
       \<Rightarrow> outpoint option \<Rightarrow> ('x, 'addr, 'kv) handler_state \<Rightarrow> handled \<times> ('x, 'addr, 'kv) handler_state" where
  "handle_channel_ready_event L env channel_id user_channel_id counterparty_node_id funding_txo st =
     (let st' = (if he_liquidity env
                 then call (LiquidityChannelReady user_channel_id channel_id counterparty_node_id) st else st) in
      add_event_or_replay L
        (ChannelReady channel_id (UserChannelId user_channel_id) (Some counterparty_node_id) funding_txo) st')"

definition handle_channel_closed ::
    "('x, 'addr, 'kv) handler_libs \<Rightarrow> channel_id \<Rightarrow> 'x \<Rightarrow> u128 \<Rightarrow> public_key option
       \<Rightarrow> ('x, 'addr, 'kv) handler_state \<Rightarrow> handled \<times> ('x, 'addr, 'kv) handler_state" where
  "handle_channel_closed L channel_id reason user_channel_id counterparty_node_id st =
     add_event_or_replay L
       (ChannelClosed channel_id (UserChannelId user_channel_id) counterparty_node_id (Some reason)) st"

definition handle_splice_pending ::
    "('x, 'addr, 'kv) handler_libs \<Rightarrow> channel_id \<Rightarrow> u128 \<Rightarrow> public_key \<Rightarrow> outpoint
       \<Rightarrow> ('x, 'addr, 'kv) handler_state \<Rightarrow> handled \<times> ('x, 'addr, 'kv) handler_state" where
  "handle_splice_pending L channel_id user_channel_id counterparty_node_id new_funding_txo st =
     add_event_or_replay L
       (SplicePending channel_id (UserChannelId user_channel_id) counterparty_node_id new_funding_txo) st"

definition handle_splice_failed ::
    "('x, 'addr, 'kv) handler_libs \<Rightarrow> ('x, 'addr, 'route) handler_env \<Rightarrow> channel_id \<Rightarrow> u128 \<Rightarrow> public_key
       \<Rightarrow> outpoint option \<Rightarrow> 'x \<Rightarrow> ('x, 'addr, 'kv) handler_state \<Rightarrow> handled \<times> ('x, 'addr, 'kv) handler_state" where
  "handle_splice_failed L env channel_id user_channel_id counterparty_node_id abandoned_funding_txo
     contributed_outputs st =
     (case he_cancel_tx env contributed_outputs of
        Inl e \<Rightarrow> (Replay, st)
      | Inr _ \<Rightarrow>
          add_event_or_replay L
            (SpliceFailed channel_id (UserChannelId user_channel_id) counterparty_node_id abandoned_funding_txo) st)"

section \<open>Other components\<close>

definition handle_spendable_outputs ::
    "('x, 'addr, 'route) handler_env \<Rightarrow> 'x \<Rightarrow> channel_id option
       \<Rightarrow> ('x, 'addr, 'kv) handler_state \<Rightarrow> handled \<times> ('x, 'addr, 'kv) handler_state" where
  "handle_spendable_outputs env outputs channel_id st =
     (if he_tracked env then (Handled, call (TrackSpendableOutputs outputs channel_id) st) else (Replay, st))"

definition handle_bump_transaction ::
    "('x, 'addr, 'route) handler_env \<Rightarrow> 'x \<Rightarrow> public_key option
       \<Rightarrow> ('x, 'addr, 'kv) handler_state \<Rightarrow> handled \<times> ('x, 'addr, 'kv) handler_state" where
  "handle_bump_transaction env bte channel_close_counterparty st =
     (case (channel_close_counterparty, cfg_anchor_channels_config (he_config env)) of
        (Some counterparty_node_id, Some anchor_channels_config) \<Rightarrow>
          if counterparty_node_id \<in> set (trusted_peers_no_reserve anchor_channels_config) then (Handled, st)
          else (Handled, call (BumpTransaction bte) st)
      | _ \<Rightarrow> (Handled, call (BumpTransaction bte) st))"

definition handle_onion_message_intercepted ::
    "public_key \<Rightarrow> 'x \<Rightarrow> ('x, 'addr, 'kv) handler_state \<Rightarrow> handled \<times> ('x, 'addr, 'kv) handler_state" where
  "handle_onion_message_intercepted peer_node_id message st =
     (case h_mailbox st of
        Some om_mailbox \<Rightarrow>
          (Handled, st\<lparr>h_mailbox := Some (onion_message_intercepted om_mailbox peer_node_id message)\<rparr>)
      | None \<Rightarrow> (Handled, st))"

definition handle_onion_message_peer_connected ::
    "public_key \<Rightarrow> ('x, 'addr, 'kv) handler_state \<Rightarrow> handled \<times> ('x, 'addr, 'kv) handler_state" where
  "handle_onion_message_peer_connected peer_node_id st =
     (case h_mailbox st of
        Some om_mailbox \<Rightarrow>
          (case onion_message_peer_connected om_mailbox peer_node_id of
             (messages, om_mailbox') \<Rightarrow>
               (Handled, fold (\<lambda>message. call (ForwardOnionMessage message peer_node_id)) messages
                           (st\<lparr>h_mailbox := Some om_mailbox'\<rparr>)))
      | None \<Rightarrow> (Handled, st))"

definition handle_persist_static_invoice_event ::
    "('x, 'addr, 'kv) handler_libs \<Rightarrow> ('x, 'addr, 'route) handler_env \<Rightarrow> 'x \<Rightarrow> 'x \<Rightarrow> u16 \<Rightarrow> bytes \<Rightarrow> 'x
       \<Rightarrow> ('x, 'addr, 'kv) handler_state \<Rightarrow> handled \<times> ('x, 'addr, 'kv) handler_state" where
  "handle_persist_static_invoice_event L env invoice invoice_request_path invoice_slot recipient_id
     invoice_persisted_path st =
     (case h_invoices st of
        None \<Rightarrow> (Handled, st)
      | Some store \<Rightarrow>
          (case handle_persist_static_invoice (hl_sha256 L) (hl_invoice L) (hl_ops L) (he_clock env) store (h_kv st)
                  invoice invoice_request_path invoice_slot recipient_id of
             (res, store', kv) \<Rightarrow>
               (let st' = st\<lparr>h_invoices := Some store', h_kv := kv\<rparr> in
                if isl res then (Replay, st')
                else (Handled, call (StaticInvoicePersisted invoice_persisted_path) st'))))"

definition handle_static_invoice_requested_event ::
    "('x, 'addr, 'kv) handler_libs \<Rightarrow> ('x, 'addr, 'route) handler_env \<Rightarrow> bytes \<Rightarrow> u16 \<Rightarrow> 'x \<Rightarrow> 'x
       \<Rightarrow> ('x, 'addr, 'kv) handler_state \<Rightarrow> handled \<times> ('x, 'addr, 'kv) handler_state" where
  "handle_static_invoice_requested_event L env recipient_id invoice_slot reply_path invoice_request st =
     (case h_invoices st of
        None \<Rightarrow> (Handled, st)
      | Some store \<Rightarrow>
          (case handle_static_invoice_requested (hl_sha256 L) (hl_read_invoice L) (hl_ops L) (he_clock env) store
                  (h_kv st) recipient_id invoice_slot of
             (res, store') \<Rightarrow>
               (let st' = st\<lparr>h_invoices := Some store'\<rparr> in
                case res of
                  Inr (Some (invoice, invoice_request_path)) \<Rightarrow>
                    (Handled, call (RespondToStaticInvoiceRequest invoice reply_path invoice_request
                                      invoice_request_path) st')
                | Inr None \<Rightarrow> (Handled, st')
                | Inl e \<Rightarrow> (Replay, st'))))"

section \<open>Dispatch\<close>

text \<open>
  The events of the Lightning implementation with the fields that are read, in the order of the
  arguments of the branches. \<open>IgnoredEvent\<close> stands for \<open>PaymentPathSuccessful\<close>, \<open>PaymentPathFailed\<close>,
  \<open>DiscardFunding\<close> and \<open>InvoiceReceived\<close>, whose branches are empty.
\<close>

datatype (plugins only: code) ('x, 'addr) ldk_event =
    LdkFundingGenerationReady channel_id public_key u64 'x u128
  | LdkFundingTxBroadcastSafe u128 public_key
  | LdkPaymentClaimable payment_hash payment_purpose u64 "u32 option" onion_fields u64
  | LdkPaymentClaimed payment_hash payment_purpose u64 onion_fields
  | LdkPaymentSent "payment_id option" payment_preimage payment_hash "u64 option"
  | LdkPaymentFailed payment_id "payment_hash option" "'x option"
  | LdkProbeSuccessful payment_id payment_hash u64
  | LdkProbeFailed payment_id payment_hash "u64 option" u64
  | LdkHTLCHandlingFailed 'x
  | LdkSpendableOutputs 'x "channel_id option"
  | LdkOpenChannelRequest channel_id public_key bool bool
  | LdkPaymentForwarded "channel_id option" "channel_id option" "u128 option" "u128 option"
      "public_key option" "public_key option" "u64 option" "u64 option" bool "u64 option"
  | LdkChannelPending channel_id u128 "channel_id option" public_key outpoint
  | LdkChannelReady channel_id u128 public_key "outpoint option"
  | LdkChannelClosed channel_id 'x u128 "public_key option"
  | LdkHTLCIntercepted u64 'x u64 payment_hash
  | LdkConnectionNeeded public_key "'addr list"
  | LdkBumpTransaction 'x "public_key option"
  | LdkOnionMessageIntercepted public_key 'x
  | LdkOnionMessagePeerConnected public_key
  | LdkPersistStaticInvoice 'x 'x u16 bytes 'x
  | LdkStaticInvoiceRequested bytes u16 'x 'x
  | LdkFundingTransactionReadyForSigning channel_id public_key 'x
  | LdkSplicePending channel_id u128 public_key outpoint
  | LdkSpliceFailed channel_id u128 public_key "outpoint option" 'x
  | IgnoredEvent

fun handle_event ::
    "('x, 'addr, 'kv) handler_libs \<Rightarrow> ('x, 'addr, 'route) handler_env \<Rightarrow> ('x, 'addr) ldk_event
       \<Rightarrow> ('x, 'addr, 'kv) handler_state \<Rightarrow> handled \<times> ('x, 'addr, 'kv) handler_state" where
  "handle_event L env (LdkFundingGenerationReady a b c d e) st = handle_funding_generation_ready env a b c d e st"
| "handle_event L env (LdkFundingTxBroadcastSafe a b) st = handle_funding_tx_broadcast_safe env a b st"
| "handle_event L env (LdkPaymentClaimable a b c d e f) st = handle_payment_claimable L env a b c d e f st"
| "handle_event L env (LdkPaymentClaimed a b c d) st = handle_payment_claimed L env a b c d st"
| "handle_event L env (LdkPaymentSent a b c d) st = handle_payment_sent L env a b c d st"
| "handle_event L env (LdkPaymentFailed a b c) st = handle_payment_failed L env a b c st"
| "handle_event L env (LdkProbeSuccessful a b c) st = handle_probe_successful L a b c st"
| "handle_event L env (LdkProbeFailed a b c d) st = handle_probe_failed L a b c d st"
| "handle_event L env (LdkHTLCHandlingFailed a) st =
     (Handled, if he_liquidity env then call (LiquidityHtlcHandlingFailed a) st else st)"
| "handle_event L env (LdkSpendableOutputs a b) st = handle_spendable_outputs env a b st"
| "handle_event L env (LdkOpenChannelRequest a b c d) st = handle_open_channel_request env a b c d st"
| "handle_event L env (LdkPaymentForwarded a b c d e f g h i j) st =
     handle_payment_forwarded_event L env a b c d e f g h i j st"
| "handle_event L env (LdkChannelPending a b c d e) st = handle_channel_pending L env a b c d e st"
| "handle_event L env (LdkChannelReady a b c d) st = handle_channel_ready_event L env a b c d st"
| "handle_event L env (LdkChannelClosed a b c d) st = handle_channel_closed L a b c d st"
| "handle_event L env (LdkHTLCIntercepted a b c d) st =
     (Handled, if he_liquidity env then call (LiquidityHtlcIntercepted a b c d) st else st)"
| "handle_event L env (LdkConnectionNeeded a b) st = (Handled, call (SpawnConnect a b) st)"
| "handle_event L env (LdkBumpTransaction a b) st = handle_bump_transaction env a b st"
| "handle_event L env (LdkOnionMessageIntercepted a b) st = handle_onion_message_intercepted a b st"
| "handle_event L env (LdkOnionMessagePeerConnected a) st = handle_onion_message_peer_connected a st"
| "handle_event L env (LdkPersistStaticInvoice a b c d e) st = handle_persist_static_invoice_event L env a b c d e st"
| "handle_event L env (LdkStaticInvoiceRequested a b c d) st = handle_static_invoice_requested_event L env a b c d st"
| "handle_event L env (LdkFundingTransactionReadyForSigning a b c) st =
     handle_funding_transaction_ready_for_signing env a b c st"
| "handle_event L env (LdkSplicePending a b c d) st = handle_splice_pending L a b c d st"
| "handle_event L env (LdkSpliceFailed a b c d e) st = handle_splice_failed L env a b c d e st"
| "handle_event L env IgnoredEvent st = (Handled, st)"

end
