(* ===== verification/Event_Safety.thy ===== *)
theory Event_Safety
  imports Event_Handler
begin

text \<open>
  Properties of the event handler: which inbound payments are claimed, what the user hears about
  settled payments when events are replayed, that a handled event survives a restart, how the status
  of a payment moves, and when an inbound channel is accepted.
\<close>

section \<open>What the building blocks change\<close>

lemma call_fields [simp]:
  "h_queue (call a st) = h_queue st" "h_payments (call a st) = h_payments st" "h_peers (call a st) = h_peers st"
  "h_mailbox (call a st) = h_mailbox st" "h_invoices (call a st) = h_invoices st" "h_kv (call a st) = h_kv st"
  "h_actions (call a st) = h_actions st @ [a]"
  by (simp_all add: call_def)

lemma update_payment_fields:
  assumes "update_payment L env up st = (r, st')"
  shows "h_queue st' = h_queue st" "h_peers st' = h_peers st" "h_mailbox st' = h_mailbox st"
    "h_invoices st' = h_invoices st" "h_actions st' = h_actions st"
  using assms by (auto simp: update_payment_def split: prod.splits)

lemma insert_payment_fields [simp]:
  "h_queue (insert_payment L env d st) = h_queue st" "h_peers (insert_payment L env d st) = h_peers st"
  "h_mailbox (insert_payment L env d st) = h_mailbox st" "h_invoices (insert_payment L env d st) = h_invoices st"
  "h_actions (insert_payment L env d st) = h_actions st"
  by (simp_all add: insert_payment_def split: prod.splits)

lemma register_inbound_fields [simp]:
  "h_queue (register_inbound L env h p a st) = h_queue st"
  "h_actions (register_inbound L env h p a st) = h_actions st"
  by (simp_all add: register_inbound_def Let_def split: payment_purpose.splits)

lemma add_event_fields:
  assumes "add_event_or_replay L ev st = (r, st')"
  shows "queue (h_queue st') = queue (h_queue st) @ [ev]" "h_payments st' = h_payments st"
    "h_peers st' = h_peers st" "h_mailbox st' = h_mailbox st" "h_invoices st' = h_invoices st"
    "h_actions st' = h_actions st" "r \<noteq> Panicked"
  using assms
  by (auto simp: add_event_or_replay_def EventQueue_add_event_def push_and_encode_def persist_and_wake_def Let_def
      split: prod.splits sum.splits if_splits)

lemma fail_payment_fields:
  assumes "fail_payment L env h up st = (r, st')"
  shows "h_queue st' = h_queue st" "h_actions st' = h_actions st @ [FailHtlcBackwards h]" "r \<noteq> Panicked"
  using assms update_payment_fields [of L env up "call (FailHtlcBackwards h) st"]
  by (auto simp: fail_payment_def split: prod.splits sum.splits)

lemmas event_branch_defs =
  handle_funding_generation_ready_def handle_funding_tx_broadcast_safe_def
  handle_funding_transaction_ready_for_signing_def handle_payment_claimed_def handle_payment_failed_def
  handle_probe_successful_def handle_probe_failed_def handle_payment_forwarded_event_def
  handle_open_channel_request_def reject_channel_def handle_channel_ready_event_def handle_channel_closed_def
  handle_splice_pending_def handle_splice_failed_def handle_spendable_outputs_def handle_bump_transaction_def
  handle_onion_message_intercepted_def handle_onion_message_peer_connected_def
  handle_static_invoice_requested_event_def

section \<open>Claiming\<close>

text \<open>The conditions under which a payment in the store may still be claimed.\<close>

definition claim_allowed :: "('x, 'addr, 'route) handler_env \<Rightarrow> payment_details \<Rightarrow> u64 \<Rightarrow> u64 \<Rightarrow> bool" where
  "claim_allowed env info amount_msat skimmed_fee_msat \<longleftrightarrow>
     pd_direction info = Inbound \<and> pd_status info \<noteq> Succeeded \<and> \<not> is_spontaneous (pd_kind info)
     \<and> skimmed_fee_msat \<le> max_total_opening_fee env info amount_msat"

lemma claimable_known_run:
  assumes "claimable_known L env h purpose amt dl onion skim info st = (r, st')"
  obtains (refuse) up q where "fail_payment L env h up st = (q, st')" "r = Some q"
      "pu_id up = id_of_hash h" "pu_status up = Some Failed"
    | (store_fee) q st1 where "claim_allowed env info amt skim"
      "(if 0 < skim \<and> is_jit (pd_kind info)
        then update_payment L env ((PaymentDetailsUpdate_new (id_of_hash h))
          \<lparr>pu_counterparty_skimmed_fee_msat := Some (Some skim)\<rparr>) st
        else (Inr Unchanged, st)) = (q, st1)"
      "isl q \<and> r = Some Replay \<and> st' = st1 \<or> r = None \<and> st' = st1
       \<or> purpose_preimage purpose = None \<and> r \<noteq> None \<and> add_event_or_replay L
           (PaymentClaimable (id_of_hash h) h amt dl (custom_records onion)) st1 = (the r, st')"
proof (cases "claim_allowed env info amt skim")
  case False
  let ?u = "(PaymentDetailsUpdate_new (id_of_hash h))\<lparr>pu_status := Some Failed\<rparr>"
  have "(\<exists>q. fail_payment L env h ?u st = (q, st') \<and> r = Some q)
      \<or> (\<exists>q. fail_payment L env h (?u\<lparr>pu_hash := Some (Some h)\<rparr>) st = (q, st') \<and> r = Some q)"
    using assms False
    by (cases "pd_direction info")
      (auto simp: claimable_known_def Let_def claim_allowed_def split: prod.splits if_splits)
  then show ?thesis
    using refuse [of ?u] refuse [of "?u\<lparr>pu_hash := Some (Some h)\<rparr>"] by (auto simp: PaymentDetailsUpdate_new_def)
next
  case True
  obtain q st1 where q: "(if 0 < skim \<and> is_jit (pd_kind info)
        then update_payment L env ((PaymentDetailsUpdate_new (id_of_hash h))
          \<lparr>pu_counterparty_skimmed_fee_msat := Some (Some skim)\<rparr>) st
        else (Inr Unchanged, st)) = (q, st1)"
    by fastforce
  show ?thesis
    using assms True
    by (intro store_fee [OF True q])
      (auto simp: claimable_known_def Let_def claim_allowed_def not_less q split: sum.splits prod.splits if_splits)
qed

lemma claimable_known_cases:
  assumes "claimable_known L env h purpose amt dl onion skim info st = (r, st')"
  obtains (refused) "r \<noteq> None" "h_actions st' = h_actions st @ [FailHtlcBackwards h]"
      "h_queue st' = h_queue st"
    | (fee_not_stored) "r = Some Replay" "h_actions st' = h_actions st" "h_queue st' = h_queue st"
    | (asked) "r \<noteq> None" "h_actions st' = h_actions st" "purpose_preimage purpose = None"
      "queue (h_queue st') = queue (h_queue st) @ [PaymentClaimable (id_of_hash h) h amt dl (custom_records onion)]"
    | (go_on) "r = None" "h_actions st' = h_actions st" "h_queue st' = h_queue st"
      "claim_allowed env info amt skim"
  using assms
proof (cases rule: claimable_known_run)
  case (refuse up q)
  then show ?thesis
    using fail_payment_fields [OF refuse(1)] refused by simp
next
  case (store_fee q st1)
  have same: "h_queue st1 = h_queue st" "h_actions st1 = h_actions st"
    using store_fee(2) update_payment_fields by (auto split: if_splits)
  from store_fee(3) show ?thesis
  proof (elim disjE conjE)
    assume "r = Some Replay" "st' = st1"
    then show ?thesis
      using same fee_not_stored by simp
  next
    assume "r = None" "st' = st1"
    then show ?thesis
      using same go_on store_fee(1) by simp
  next
    assume "purpose_preimage purpose = None" "r \<noteq> None" and e: "add_event_or_replay L
        (PaymentClaimable (id_of_hash h) h amt dl (custom_records onion)) st1 = (the r, st')"
    then show ?thesis
      using same asked add_event_fields [OF e] by simp
  qed
qed

section \<open>Updates of the payment store\<close>

abbreviation status_map :: "(payment_id, payment_details) data_store \<Rightarrow> payment_id \<rightharpoonup> payment_status" where
  "status_map ds \<equiv> map_option pd_status \<circ> objects ds"

text \<open>An update changes the record in memory whether or not it could be written.\<close>

definition updated_record :: "u64 \<Rightarrow> payment_details_update \<Rightarrow> payment_details \<Rightarrow> payment_details" where
  "updated_record now up d =
     (if details_overwrite up d = d then d else (details_overwrite up d)\<lparr>pd_latest_update_timestamp := now\<rparr>)"

lemma update_payment_none:
  "objects (h_payments st) (pu_id up) = None \<Longrightarrow> update_payment L env up st = (Inr UpdateNotFound, st)"
  by (cases "h_payments st"; cases st)
     (simp add: update_payment_def DataStore_update_def payment_storable_def)

lemma update_payment_some:
  assumes "objects (h_payments st) (pu_id up) = Some d"
  shows "update_payment L env up st =
    (let d' = updated_record (he_now env) up d;
         ds = (h_payments st)\<lparr>objects := (objects (h_payments st))(pu_id up \<mapsto> d')\<rparr> in
     if details_overwrite up d = d then (Inr Unchanged, st\<lparr>h_payments := ds\<rparr>)
     else (case DataStore_persist (payment_storable (he_now env) (hl_payment L)) (hl_ops L) (h_payments st)
             (h_kv st) d' of
             (Inl e, kv) \<Rightarrow> (Inl e, st\<lparr>h_payments := ds, h_kv := kv\<rparr>)
           | (Inr _, kv) \<Rightarrow> (Inr Updated, st\<lparr>h_payments := ds, h_kv := kv\<rparr>)))"
proof -
  have S: "up_id (payment_storable now enc) = pu_id"
    "so_update (payment_storable now enc) = PaymentDetails_update now" for now enc
    by (simp_all add: payment_storable_def)
  show ?thesis
    using assms
    by (cases "h_payments st")
       (auto simp: update_payment_def DataStore_update_def S PaymentDetails_update_overwrite updated_record_def Let_def
          split: prod.splits sum.splits)
qed

lemma updated_record_fixed: "details_overwrite up (updated_record now up d) = updated_record now up d"
  by (simp add: updated_record_def details_overwrite_twice)

text \<open>After an update of any outcome the same update finds nothing to change.\<close>

definition settled :: "payment_details_update \<Rightarrow> (payment_id, payment_details) data_store \<Rightarrow> bool" where
  "settled up ds \<longleftrightarrow> (case objects ds (pu_id up) of None \<Rightarrow> True | Some d \<Rightarrow> details_overwrite up d = d)"

lemma update_payment_settled:
  assumes "settled up (h_payments st)"
  shows "\<exists>q. update_payment L env up st = (Inr q, st) \<and> q \<noteq> Updated"
proof (cases "objects (h_payments st) (pu_id up)")
  case None
  then show ?thesis
    by (simp add: update_payment_none)
next
  case (Some d)
  then have "(h_payments st)\<lparr>objects := (objects (h_payments st))(pu_id up \<mapsto> d)\<rparr> = h_payments st"
    by (cases "h_payments st") (simp add: map_upd_triv)
  moreover have "st\<lparr>h_payments := h_payments st\<rparr> = st"
    by simp
  ultimately show ?thesis
    using assms Some
    by (simp add: settled_def update_payment_some [OF Some] updated_record_def Let_def)
qed

lemma update_payment_settles:
  assumes "update_payment L env up st = (r, st')"
  shows "settled up (h_payments st')"
proof (cases "objects (h_payments st) (pu_id up)")
  case None
  then show ?thesis
    using assms by (auto simp: update_payment_none settled_def)
next
  case (Some d)
  then have "objects (h_payments st') (pu_id up) = Some (updated_record (he_now env) up d)"
    using assms by (auto simp: update_payment_some [OF Some] Let_def split: if_splits prod.splits sum.splits)
  then show ?thesis
    by (simp add: settled_def updated_record_fixed)
qed

section \<open>The event queue on disk\<close>

lemma read_items_elements:
  assumes "\<forall>x \<in> set xs. \<forall>rest. dec (enc x @ rest) = Some (x, rest)"
  shows "read_items dec (length xs) (concat (map enc xs) @ rest) = Some (xs, rest)"
  using assms by (induction xs) simp_all

lemma EventQueue_read_written:
  assumes "\<forall>ev \<in> set q. \<forall>rest. dec (enc ev @ rest) = Some (ev, rest)" "length q < 65536"
  shows "EventQueue_read dec (EventQueueSerWrapper_write enc q) = Some \<lparr>queue = q, waker = False\<rparr>"
proof -
  have "unat (word_of_nat (length q) :: u16) = length q"
    using assms(2) by (simp add: unat_of_nat)
  then show ?thesis
    using read_items_elements [OF assms(1), of "[]"] codec_write_u16 [of _ "concat (map enc q)"]
    by (simp add: EventQueue_read_def EventQueueDeserWrapper_read_def EventQueueSerWrapper_write_def
        read_counted_def write_counted_def)
qed

text \<open>The disk holds the queue in memory, and payments are stored in their own namespace.\<close>

definition queue_persisted ::
    "('kv \<Rightarrow> kv_target \<rightharpoonup> bytes) \<Rightarrow> ('kv \<Rightarrow> bool) \<Rightarrow> ('x, 'addr, 'kv) handler_libs \<Rightarrow> ('x, 'addr, 'kv) handler_state \<Rightarrow> bool" where
  "queue_persisted contents invar L st \<longleftrightarrow>
     invar (h_kv st) \<and> primary_namespace (h_payments st) = PAYMENT_INFO_PERSISTENCE_PRIMARY_NAMESPACE
     \<and> contents (h_kv st) event_queue_target = Some (EventQueueSerWrapper_write (hl_event L) (queue (h_queue st)))"

locale event_handling = kv_store ops contents invar
  for ops :: "'kv kv_ops" and contents and invar +
  fixes L :: "('x, 'addr, 'kv) handler_libs"
  assumes handler_ops: "hl_ops L = ops"
begin

abbreviation persisted :: "('x, 'addr, 'kv) handler_state \<Rightarrow> bool" where
  "persisted \<equiv> queue_persisted contents invar L"

lemma persisted_frame:
  assumes "persisted st" "h_queue st' = h_queue st" "primary_namespace (h_payments st') = primary_namespace (h_payments st)"
    and "invar (h_kv st')" "contents (h_kv st') event_queue_target = contents (h_kv st) event_queue_target"
  shows "persisted st'"
  using assms by (simp add: queue_persisted_def)

lemma persisted_call [simp]: "persisted (call a st) \<longleftrightarrow> persisted st"
  by (simp add: queue_persisted_def)

lemma write_frame:
  "invar kv \<Longrightarrow> kv_write ops kv t v = (q, kv') \<Longrightarrow> t \<noteq> event_queue_target \<Longrightarrow>
     invar kv' \<and> contents kv' event_queue_target = contents kv event_queue_target"
  using contents_write [of kv t v q kv'] invar_write [of kv t v q kv'] by auto

lemma persist_payment_frame:
  assumes "invar kv" "primary_namespace ds \<noteq> []"
    and "DataStore_persist (payment_storable now enc) (hl_ops L) ds kv d = (r, kv')"
  shows "invar kv' \<and> contents kv' event_queue_target = contents kv event_queue_target"
proof -
  let ?S = "payment_storable now enc"
  obtain q where w: "kv_write ops kv (store_target ?S ds (so_id ?S d)) (so_encode ?S d) = (q, kv')"
    using assms(3) by (auto simp: DataStore_persist_def handler_ops split: prod.splits sum.splits)
  have "store_target ?S ds (so_id ?S d) \<noteq> event_queue_target"
    using assms(2) by (simp add: store_target_def EVENT_QUEUE_PERSISTENCE_PRIMARY_NAMESPACE_def)
  then show ?thesis
    using write_frame [OF assms(1) w] by blast
qed

lemma update_payment_persisted:
  assumes "persisted st" "update_payment L env up st = (r, st')"
  shows "persisted st'"
proof (cases "objects (h_payments st) (pu_id up)")
  case None
  then show ?thesis
    using assms by (simp add: update_payment_none)
next
  case (Some d)
  let ?S = "payment_storable (he_now env) (hl_payment L)"
  obtain q kv where p: "DataStore_persist ?S (hl_ops L) (h_payments st) (h_kv st) (updated_record (he_now env) up d) = (q, kv)"
    by fastforce
  have "invar kv \<and> contents kv event_queue_target = contents (h_kv st) event_queue_target"
    using persist_payment_frame [OF _ _ p] assms(1)
    by (simp add: queue_persisted_def PAYMENT_INFO_PERSISTENCE_PRIMARY_NAMESPACE_def)
  then show ?thesis
    using assms p
    by (auto simp: update_payment_some [OF Some] queue_persisted_def Let_def split: if_splits sum.splits)
qed

lemma insert_payment_persisted:
  assumes "persisted st"
  shows "persisted (insert_payment L env d st)"
proof -
  let ?S = "payment_storable (he_now env) (hl_payment L)"
  obtain q kv where p: "DataStore_persist ?S (hl_ops L) (h_payments st) (h_kv st) d = (q, kv)"
    by fastforce
  have "invar kv \<and> contents kv event_queue_target = contents (h_kv st) event_queue_target"
    using persist_payment_frame [OF _ _ p] assms
    by (simp add: queue_persisted_def PAYMENT_INFO_PERSISTENCE_PRIMARY_NAMESPACE_def)
  then show ?thesis
    using assms p by (auto simp: insert_payment_def DataStore_insert_def queue_persisted_def split: sum.splits)
qed

lemma add_event_persisted:
  assumes "persisted st" "add_event_or_replay L ev st = (Handled, st')"
  shows "persisted st'"
proof -
  obtain r q kv where e: "eq_exec (hl_event L) ops (h_queue st) (h_kv st) (AddEvent ev) = (r, q, kv)"
    by (metis prod_cases3)
  then have "st' = st\<lparr>h_queue := q, h_kv := kv\<rparr> \<and> \<not> isl r"
    using assms(2) by (auto simp: add_event_or_replay_def handler_ops split: if_splits)
  then show ?thesis
    using assms(1) eq_exec_contents [OF _ e] by (simp add: queue_persisted_def)
qed

lemma fail_payment_persisted:
  assumes "persisted st" "fail_payment L env h up st = (r, st')"
  shows "persisted st'"
proof -
  obtain q where "update_payment L env up (call (FailHtlcBackwards h) st) = (q, st')"
    using assms(2) by (auto simp: fail_payment_def split: prod.splits sum.splits)
  then show ?thesis
    using update_payment_persisted assms(1) persisted_call by blast
qed

lemma update_and_notify_persisted:
  assumes "persisted st" "update_and_notify L env up ev st = (Handled, st')"
  shows "persisted st'"
proof -
  obtain q st1 where u: "update_payment L env up st = (q, st1)"
    by fastforce
  have "st' = st1 \<or> add_event_or_replay L ev st1 = (Handled, st')"
    using assms(2) u by (auto simp: update_and_notify_def split: sum.splits DataStoreUpdateResult.splits)
  then show ?thesis
    using update_payment_persisted [OF assms(1) u] add_event_persisted [of st1 ev st'] by blast
qed

lemma add_missing_peers_frame:
  "invar kv \<Longrightarrow> add_missing_peers enc ops ps kv infos = (ps', kv') \<Longrightarrow>
     invar kv' \<and> contents kv' event_queue_target = contents kv event_queue_target"
proof (induction infos arbitrary: ps kv)
  case (Cons info infos)
  show ?case
  proof (cases "PeerStore_get_peer ps (node_id info)")
    case None
    obtain r ps1 kv1 where a: "PeerStore_add_peer enc ops ps kv info = (r, ps1, kv1)"
      by (metis prod_cases3)
    then have "kv1 = kv \<or> (\<exists>data q. persist_peers ops kv data = (q, kv1))"
      by (auto simp: PeerStore_add_peer_def Let_def split: if_splits prod.splits sum.splits option.splits)
    moreover have "peer_store_target \<noteq> event_queue_target"
      by (simp add: PEER_INFO_PERSISTENCE_KEY_def EVENT_QUEUE_PERSISTENCE_KEY_def)
    ultimately have "invar kv1 \<and> contents kv1 event_queue_target = contents kv event_queue_target"
      using persist_peers_contents [OF Cons.prems(1)] Cons.prems(1) by (auto split: if_splits)
    then show ?thesis
      using Cons.IH [of kv1 ps1] Cons.prems a None by simp
  next
    case (Some x)
    then show ?thesis
      using Cons by simp
  qed
qed simp

lemma claimable_known_persisted:
  assumes "persisted st" "claimable_known L env h purpose amt dl onion skim info st = (r, st')" "r = None \<or> r = Some Handled"
  shows "persisted st'"
  using assms(2)
proof (cases rule: claimable_known_run)
  case (refuse up q)
  then show ?thesis
    using fail_payment_persisted [OF assms(1)] by blast
next
  case (store_fee q st1)
  have "persisted st1"
    using store_fee(2) assms(1) update_payment_persisted by (auto split: if_splits)
  then show ?thesis
    using store_fee(3) assms(3) add_event_persisted by auto
qed

lemma register_inbound_persisted: "persisted st \<Longrightarrow> persisted (register_inbound L env h purpose amt st)"
  by (simp add: register_inbound_def Let_def insert_payment_persisted split: payment_purpose.splits)

lemma claimable_persisted:
  assumes "persisted st" "handle_payment_claimable L env h purpose amt dl onion skim st = (Handled, st')"
  shows "persisted st'"
proof -
  obtain q st1 where q: "(case DataStore_get (h_payments st) (id_of_hash h) of None \<Rightarrow> (None, st)
      | Some info \<Rightarrow> claimable_known L env h purpose amt dl onion skim info st) = (q, st1)"
    by fastforce
  have st1: "persisted st1" if "q = None \<or> q = Some Handled"
    using q that assms(1) claimable_known_persisted [of st env h purpose amt dl onion skim _ q st1]
    by (auto split: option.splits)
  have "q = Some Handled \<and> st' = st1 \<or> q = None \<and>
      ((\<exists>p. st' = call (ClaimFunds p) (register_inbound L env h purpose amt st1))
       \<or> (\<exists>up. fail_payment L env h up (register_inbound L env h purpose amt st1) = (Handled, st')))"
    using assms(2) by (auto simp: handle_payment_claimable_def Let_def q split: option.splits)
  then show ?thesis
    using st1 register_inbound_persisted [of st1 env h purpose amt]
      fail_payment_persisted [of "register_inbound L env h purpose amt st1" env h _ Handled st'] by auto
qed

lemma payment_sent_persisted:
  assumes "persisted st" "handle_payment_sent L env i p h fee st = (Handled, st')"
  shows "persisted st'"
proof (cases i)
  case (Some pid)
  obtain q st1 where u: "update_payment L env (sent_update pid p h fee) st = (q, st1)"
    by fastforce
  have "st' = st1 \<or> add_event_or_replay L (PaymentSuccessful i h (Some p) fee) st1 = (Handled, st')"
    using assms(2) Some u
    by (auto simp: handle_payment_sent_def split: sum.splits DataStoreUpdateResult.splits if_splits)
  then show ?thesis
    using update_payment_persisted [OF assms(1) u] add_event_persisted by blast
qed (use assms in \<open>simp add: handle_payment_sent_def\<close>)

lemma channel_pending_persisted:
  assumes "persisted st" "handle_channel_pending L env c u f n txo st = (Handled, st')"
  shows "persisted st'"
proof -
  obtain t st1 where f: "f = Some t"
      and e: "add_event_or_replay L (ChannelPending c (UserChannelId u) t n txo) st = (Handled, st1)"
    using assms(2) by (auto simp: handle_channel_pending_def split: option.splits prod.splits handled.splits)
  have st1: "persisted st1"
    using add_event_persisted [OF assms(1) e] .
  obtain ps kv where p: "persist_missing_channel_peers (hl_peers L) ops (he_first_address env) (h_peers st1) (h_kv st1) [n] = (ps, kv)"
    by fastforce
  have "invar kv \<and> contents kv event_queue_target = contents (h_kv st1) event_queue_target"
    using p st1
    unfolding persist_missing_channel_peers_def persist_missing_channel_peers_excluding_def queue_persisted_def
    by (intro add_missing_peers_frame) auto
  moreover have "st' = st1 \<or> st' = st1\<lparr>h_peers := ps, h_kv := kv\<rparr>"
    using assms(2) f e p by (auto simp: handle_channel_pending_def handler_ops split: option.splits if_splits)
  ultimately show ?thesis
    using st1 by (auto simp: queue_persisted_def)
qed

lemma static_invoice_persisted:
  assumes "persisted st" "handle_persist_static_invoice_event L env invo path slot rid pp st = (Handled, st')"
  shows "persisted st'"
proof (cases "h_invoices st")
  case (Some store)
  obtain r store' kv where p: "handle_persist_static_invoice (hl_sha256 L) (hl_invoice L) ops (he_clock env) store
      (h_kv st) invo path slot rid = (r, store', kv)"
    by (metis prod_cases3)
  then have "kv = h_kv st \<or> (\<exists>q. kv_write ops (h_kv st) (invoice_target (hl_sha256 L) slot rid)
      (hl_invoice L (invo, path)) = (q, kv))"
    by (auto simp: handle_persist_static_invoice_def split: prod.splits sum.splits)
  moreover have "invoice_target (hl_sha256 L) slot rid \<noteq> event_queue_target"
    by (simp add: STATIC_INVOICE_STORE_PRIMARY_NAMESPACE_def EVENT_QUEUE_PERSISTENCE_PRIMARY_NAMESPACE_def)
  ultimately have "invar kv \<and> contents kv event_queue_target = contents (h_kv st) event_queue_target"
    using assms(1) write_frame [of "h_kv st"] unfolding queue_persisted_def by metis
  moreover have "st' = call (StaticInvoicePersisted pp) (st\<lparr>h_invoices := Some store', h_kv := kv\<rparr>)"
    using assms(2) Some p
    by (auto simp: handle_persist_static_invoice_event_def handler_ops Let_def split: if_splits)
  ultimately show ?thesis
    using assms(1) by (simp add: queue_persisted_def)
qed (use assms in \<open>simp add: handle_persist_static_invoice_event_def\<close>)

lemma fold_call_persisted: "persisted (fold (\<lambda>x. call (f x)) xs st) \<longleftrightarrow> persisted st"
  by (induction xs arbitrary: st) simp_all

lemma handle_event_persisted:
  assumes "persisted st" "handle_event L env e st = (Handled, st')"
  shows "persisted st'"
proof -
  have frame: "persisted (st\<lparr>h_mailbox := mb\<rparr>)" "persisted (st\<lparr>h_invoices := si\<rparr>)" for mb si
    using assms(1) by (simp_all add: queue_persisted_def)
  have added: "persisted st'" if "add_event_or_replay L ev st1 = (Handled, st')" "persisted st1" for ev st1
    using add_event_persisted [OF that(2,1)] .
  have pure: "persisted st'" if "st' = st \<or> (\<exists>a. st' = call a st) \<or> (\<exists>a b. st' = call b (call a st))"
    using that assms(1) by auto
  show ?thesis
  proof (cases e)
    case LdkFundingGenerationReady
    then show ?thesis
      using assms(2) by (intro pure) (auto simp: event_branch_defs Let_def split: sum.splits if_splits)
  next
    case (LdkPaymentClaimable a b c d e f)
    then show ?thesis
      using assms claimable_persisted by simp
  next
    case (LdkPaymentClaimed a b c d)
    then show ?thesis
      using assms update_and_notify_persisted by (simp add: handle_payment_claimed_def)
  next
    case (LdkPaymentSent a b c d)
    then show ?thesis
      using assms payment_sent_persisted by simp
  next
    case (LdkPaymentFailed a b c)
    then show ?thesis
      using assms update_and_notify_persisted by (simp add: handle_payment_failed_def)
  next
    case LdkPaymentForwarded
    then show ?thesis
      using assms added by (auto simp: event_branch_defs Let_def split: option.splits if_splits)
  next
    case (LdkChannelPending a b c d e)
    then show ?thesis
      using assms channel_pending_persisted by simp
  next
    case LdkChannelReady
    then show ?thesis
      using assms added by (auto simp: event_branch_defs Let_def split: if_splits)
  next
    case (LdkPersistStaticInvoice a b c d e)
    then show ?thesis
      using assms static_invoice_persisted by simp
  next
    case (LdkOnionMessagePeerConnected a)
    then show ?thesis
      using assms frame
      by (auto simp: event_branch_defs fold_call_persisted split: option.splits prod.splits)
  next
    case (LdkOpenChannelRequest a b c d)
    then show ?thesis
      using assms(2) by (intro pure) (auto simp: handle_open_channel_request_def reject_channel_def Let_def split: if_splits)
  qed (use assms frame added in \<open>auto simp: event_branch_defs Let_def split: option.splits sum.splits prod.splits if_splits\<close>)
qed

end

interpretation sqlite_handler: event_handling "sqlite_ops alphabet max_len db" kv_table sqlite_fresh
    "L\<lparr>hl_ops := sqlite_ops alphabet max_len db\<rparr>" for alphabet max_len db L
  by (intro event_handling.intro sqlite.kv_store_axioms event_handling_axioms.intro) simp

section \<open>The status of payments\<close>

text \<open>
  The specification: what an event may do to the status of payments. A payment that is not in the
  store is not touched by \<open>set_known\<close>.
\<close>

definition set_known :: "payment_id \<Rightarrow> payment_status \<Rightarrow> (payment_id \<rightharpoonup> payment_status) \<Rightarrow> (payment_id \<rightharpoonup> payment_status)" where
  "set_known i s m = (if m i = None then m else m(i \<mapsto> s))"

fun registers :: "payment_purpose \<Rightarrow> bool" where
  "registers (Bolt12OfferPayment p s off n q) = True"
| "registers (SpontaneousPayment p) = True"
| "registers _ = False"

fun status_spec :: "('x, 'addr) ldk_event \<Rightarrow> (payment_id \<rightharpoonup> payment_status) \<Rightarrow> (payment_id \<rightharpoonup> payment_status) set" where
  "status_spec (LdkPaymentClaimable h purpose a d onion f) m =
     (let i = id_of_hash h in
      if m i = Some Succeeded then {m(i \<mapsto> Failed)}
      else {m, set_known i Failed m} \<union> (if registers purpose then {m(i \<mapsto> Pending), m(i \<mapsto> Failed)} else {}))"
| "status_spec (LdkPaymentClaimed h purpose a onion) m = {set_known (id_of_hash h) Succeeded m}"
| "status_spec (LdkPaymentSent (Some i) p h f) m = {set_known i Succeeded m}"
| "status_spec (LdkPaymentFailed i h r) m = {set_known i Failed m}"
| "status_spec _ m = {m}"

lemma pd_status_updated_record: "pd_status (updated_record now up d) = overwrite (pu_status up) (pd_status d)"
proof -
  have "pd_status (details_overwrite up d) = overwrite (pu_status up) (pd_status d)"
    by (simp add: details_overwrite_def)
  then show ?thesis
    by (auto simp: updated_record_def)
qed

lemma update_payment_status:
  assumes "update_payment L env up st = (r, st')"
  shows "status_map (h_payments st') = (case pu_status up of None \<Rightarrow> status_map (h_payments st)
    | Some s \<Rightarrow> set_known (pu_id up) s (status_map (h_payments st)))"
proof (cases "objects (h_payments st) (pu_id up)")
  case None
  then show ?thesis
    using assms by (auto simp: update_payment_none set_known_def split: option.splits)
next
  case (Some d)
  then have "objects (h_payments st') = (objects (h_payments st))(pu_id up \<mapsto> updated_record (he_now env) up d)"
    using assms by (auto simp: update_payment_some [OF Some] Let_def split: if_splits prod.splits sum.splits)
  then show ?thesis
    using Some by (auto simp: set_known_def pd_status_updated_record split: option.splits)
qed

lemma insert_payment_status:
  "status_map (h_payments (insert_payment L env d st))
     \<in> {status_map (h_payments st), (status_map (h_payments st))(pd_id d \<mapsto> pd_status d)}"
proof -
  have "objects (h_payments (insert_payment L env d st)) \<in> {objects (h_payments st), (objects (h_payments st))(pd_id d \<mapsto> d)}"
    by (auto simp: insert_payment_def DataStore_insert_def payment_storable_def split: prod.splits sum.splits)
  then show ?thesis
    by auto
qed

lemma fail_payment_status:
  "fail_payment L env h up st = (r, st') \<Longrightarrow> pu_status up = Some s \<Longrightarrow>
     status_map (h_payments st') = set_known (pu_id up) s (status_map (h_payments st))"
  using update_payment_status [of L env up "call (FailHtlcBackwards h) st"]
  by (auto simp: fail_payment_def split: prod.splits sum.splits)

lemma update_and_notify_status:
  assumes "update_and_notify L env up ev st = (r, st')" "pu_status up = Some s"
  shows "status_map (h_payments st') = set_known (pu_id up) s (status_map (h_payments st))"
proof -
  obtain q st1 where u: "update_payment L env up st = (q, st1)"
    by fastforce
  have "h_payments st' = h_payments st1"
    using assms(1) u add_event_fields(2) [of L ev st1 r st']
    by (auto simp: update_and_notify_def split: sum.splits DataStoreUpdateResult.splits)
  then show ?thesis
    using update_payment_status [OF u] assms(2) by simp
qed

lemma payment_sent_status:
  assumes "handle_payment_sent L env (Some i) p h f st = (r, st')"
  shows "status_map (h_payments st') = set_known i Succeeded (status_map (h_payments st))"
proof -
  obtain q st1 where u: "update_payment L env (sent_update i p h f) st = (q, st1)"
    by fastforce
  have "h_payments st' = h_payments st1"
    using assms(1) u add_event_fields(2) [of L "PaymentSuccessful (Some i) h (Some p) f" st1 r st']
    by (auto simp: handle_payment_sent_def split: sum.splits DataStoreUpdateResult.splits if_splits)
  then show ?thesis
    using update_payment_status [OF u] by (simp add: sent_update_def PaymentDetailsUpdate_new_def)
qed

lemma claimable_known_status:
  assumes "claimable_known L env h purpose amt dl onion skim info st = (r, st')"
  shows "status_map (h_payments st') = status_map (h_payments st) \<and> pd_status info \<noteq> Succeeded
    \<or> r \<noteq> None \<and> status_map (h_payments st') = set_known (id_of_hash h) Failed (status_map (h_payments st))"
  using assms
proof (cases rule: claimable_known_run)
  case (refuse up q)
  then show ?thesis
    using fail_payment_status [OF refuse(1,4)] by simp
next
  case (store_fee q st1)
  have "status_map (h_payments st1) = status_map (h_payments st)"
    using store_fee(2) update_payment_status by (fastforce simp: PaymentDetailsUpdate_new_def split: if_splits)
  moreover have "h_payments st' = h_payments st1"
    using store_fee(3) add_event_fields(2) by auto
  ultimately show ?thesis
    using store_fee(1) by (simp add: claim_allowed_def)
qed

lemma register_inbound_status:
  "status_map (h_payments (register_inbound L env h purpose amt st)) \<in>
     {status_map (h_payments st)}
     \<union> (if registers purpose then {(status_map (h_payments st))(id_of_hash h \<mapsto> Pending)} else {})"
  using insert_payment_status [of L env _ st]
  by (cases purpose) (fastforce simp: register_inbound_def Let_def PaymentDetails_new_def)+

lemma claimable_status:
  assumes "handle_payment_claimable L env h purpose amt dl onion skim st = (r, st')"
  shows "status_map (h_payments st') \<in> status_spec (LdkPaymentClaimable h purpose amt dl onion skim) (status_map (h_payments st))"
proof -
  let ?m = "status_map (h_payments st)"
  let ?i = "id_of_hash h"
  define info where "info = objects (h_payments st) ?i"
  obtain q st1 where q: "(case DataStore_get (h_payments st) ?i of None \<Rightarrow> (None, st)
      | Some info \<Rightarrow> claimable_known L env h purpose amt dl onion skim info st) = (q, st1)"
    by fastforce
  have st1: "status_map (h_payments st1) = ?m \<and> ?m ?i \<noteq> Some Succeeded
      \<or> q \<noteq> None \<and> status_map (h_payments st1) = set_known ?i Failed ?m"
  proof (cases info)
    case None
    then show ?thesis
      using q by (simp add: info_def DataStore_get_def)
  next
    case (Some d)
    then have "claimable_known L env h purpose amt dl onion skim d st = (q, st1)"
      using q by (simp add: info_def DataStore_get_def)
    from claimable_known_status [OF this] show ?thesis
      using Some by (auto simp: info_def)
  qed
  let ?st2 = "register_inbound L env h purpose amt st1"
  have "q \<noteq> None \<and> st' = st1
      \<or> q = None \<and> (h_payments st' = h_payments ?st2
          \<or> (\<exists>up. fail_payment L env h up ?st2 = (r, st') \<and> pu_id up = ?i \<and> pu_status up = Some Failed))"
    using assms
    by (auto simp: handle_payment_claimable_def Let_def q PaymentDetailsUpdate_new_def split: option.splits)
  then consider "q \<noteq> None" "st' = st1"
    | "q = None" "status_map (h_payments st') = status_map (h_payments ?st2)"
    | "q = None" "status_map (h_payments st') = set_known ?i Failed (status_map (h_payments ?st2))"
    using fail_payment_status by metis
  then show ?thesis
  proof cases
    case 1
    then show ?thesis
      using st1 by (auto simp: Let_def set_known_def)
  next
    case 2
    then show ?thesis
      using st1 register_inbound_status [of L env h purpose amt st1] by (auto simp: Let_def split: if_splits)
  next
    case 3
    define m m2 where "m = ?m" and "m2 = status_map (h_payments ?st2)"
    have "m2 \<in> {m} \<union> (if registers purpose then {m(?i \<mapsto> Pending)} else {})" "m ?i \<noteq> Some Succeeded"
      using st1 3(1) register_inbound_status [of L env h purpose amt st1]
      by (auto simp: m_def m2_def split: if_splits)
    then have "set_known ?i Failed m2 \<in> status_spec (LdkPaymentClaimable h purpose amt dl onion skim) m"
      by (auto simp: Let_def set_known_def split: if_splits)
    then show ?thesis
      using 3(2) by (simp only: m_def m2_def)
  qed
qed

lemma fold_call_payments [simp]: "h_payments (fold (\<lambda>x. call (f x)) xs st) = h_payments st"
  by (induction xs arbitrary: st) simp_all

lemma channel_pending_payments:
  assumes "handle_channel_pending L env c u f n txo st = (r, st')"
  shows "h_payments st' = h_payments st"
proof (cases f)
  case (Some t)
  obtain x st1 where e: "add_event_or_replay L (ChannelPending c (UserChannelId u) t n txo) st = (x, st1)"
    by fastforce
  have "h_payments st' = h_payments st1"
    using assms Some e
    by (auto simp: handle_channel_pending_def split: option.splits handled.splits if_splits prod.splits)
  then show ?thesis
    using add_event_fields(2) [OF e] by simp
qed (use assms in \<open>simp add: handle_channel_pending_def\<close>)

section \<open>Properties\<close>

text \<open>
  C30: an inbound payment is decided once and safely. A handled \<open>PaymentClaimable\<close> has claimed the
  funds, failed the HTLC back, or queued the question for the user, and has done exactly one of these.
  The funds of a payment that is in the store are only claimed with the preimage of the event, and
  only if the payment is inbound, has not succeeded before, is not spontaneous, and the fee the
  counterparty withheld is within the limit agreed for it.
\<close>

theorem inbound_payment_decided:
  assumes "handle_payment_claimable L env h purpose amt dl onion skim st = (r, st')"
  shows "\<exists>acts. h_actions st' = h_actions st @ acts
    \<and> (r = Handled \<longrightarrow>
         (acts = [FailHtlcBackwards h] \<or> (\<exists>p. acts = [ClaimFunds p])) \<and> queue (h_queue st') = queue (h_queue st)
         \<or> acts = [] \<and> queue (h_queue st') = queue (h_queue st)
             @ [PaymentClaimable (id_of_hash h) h amt dl (custom_records onion)])
    \<and> (\<forall>p. ClaimFunds p \<in> set acts \<longrightarrow> purpose_preimage purpose = Some p
         \<and> (\<forall>info. DataStore_get (h_payments st) (id_of_hash h) = Some info \<longrightarrow> claim_allowed env info amt skim))"
proof -
  define ds where "ds = DataStore_get (h_payments st) (id_of_hash h)"
  define first where "first = (case ds of None \<Rightarrow> (None, st)
    | Some info \<Rightarrow> claimable_known L env h purpose amt dl onion skim info st)"
  obtain q st1 where q: "first = (q, st1)"
    by fastforce
  have go_on: "h_actions st1 = h_actions st \<and> h_queue st1 = h_queue st
      \<and> (\<forall>info. ds = Some info \<longrightarrow> claim_allowed env info amt skim)" if "q = None"
    using q that by (cases ds) (auto simp: first_def elim: claimable_known_cases)
  show ?thesis
  proof (cases q)
    case None
    let ?st = "register_inbound L env h purpose amt st1"
    show ?thesis
    proof (cases "purpose_preimage purpose")
      case (Some p)
      then have "r = Handled \<and> st' = call (ClaimFunds p) ?st"
        using assms q None by (simp add: handle_payment_claimable_def first_def ds_def)
      then show ?thesis
        using go_on [OF None] Some by (auto simp: ds_def)
    next
      case none: None
      then have "fail_payment L env h ((PaymentDetailsUpdate_new (id_of_hash h))
          \<lparr>pu_hash := Some (Some h), pu_status := Some Failed\<rparr>) ?st = (r, st')"
        using assms q None by (simp add: handle_payment_claimable_def first_def ds_def)
      from fail_payment_fields [OF this] show ?thesis
        using go_on [OF None] by auto
    qed
  next
    case (Some x)
    then obtain info where "ds = Some info"
      using q by (cases ds) (auto simp: first_def)
    moreover have "r = x \<and> st' = st1"
      using assms q Some by (simp add: handle_payment_claimable_def first_def ds_def)
    ultimately have "claimable_known L env h purpose amt dl onion skim info st = (Some r, st')"
      using q Some by (simp add: first_def)
    then show ?thesis
      by (cases rule: claimable_known_cases) auto
  qed
qed

text \<open>
  C31: a claimed payment is reported at most once, and exactly when its record could be written. The
  first handling of \<open>PaymentClaimed\<close> for a payment that is known and not yet successful queues one
  \<open>PaymentReceived\<close> if the new record was written and nothing otherwise, and any later replay of the
  event changes nothing and reports success. A failed write of the record therefore loses the
  notification for good: the replay that it asks for finds the record already changed in memory.
\<close>

theorem claimed_payment_notification:
  fixes env :: "('x, 'addr, 'route) handler_env"
  assumes "handle_payment_claimed L env h purpose amt onion st = (r, st1)"
    and "DataStore_get (h_payments st) (id_of_hash h) = Some d" and "pd_status d \<noteq> Succeeded"
    and "written = (\<not> isl (fst (DataStore_persist (payment_storable (he_now env) (hl_payment L)) (hl_ops L)
           (h_payments st) (h_kv st) (updated_record (he_now env) (claimed_update h purpose amt) d))))"
  shows "queue (h_queue st1) = queue (h_queue st) @
      (if written then [PaymentReceived (Some (id_of_hash h)) h amt (custom_records onion)] else [])
    \<and> (\<not> written \<longrightarrow> r = Replay)
    \<and> (\<forall>env' :: ('x, 'addr, 'route) handler_env. handle_payment_claimed L env' h purpose amt onion st1 = (Handled, st1))"
proof -
  let ?up = "claimed_update h purpose amt"
  let ?ev = "PaymentReceived (Some (id_of_hash h)) h amt (custom_records onion)"
  have up: "pu_id ?up = id_of_hash h" "pu_status ?up = Some Succeeded"
    by (auto simp: claimed_update_def Let_def PaymentDetailsUpdate_new_def split: payment_purpose.splits)
  have changed: "details_overwrite ?up d \<noteq> d"
    using assms(3) up by (auto simp: details_overwrite_eq)
  have d: "objects (h_payments st) (pu_id ?up) = Some d"
    using assms(2) up by (simp add: DataStore_get_def)
  obtain q st2 where u: "update_payment L env ?up st = (q, st2)"
    by fastforce
  have q: "if written then q = Inr Updated else isl q"
    using u changed assms(4)
    by (auto simp: update_payment_some [OF d] Let_def split: prod.splits sum.splits)
  have quiet: "handle_payment_claimed L env' h purpose amt onion s = (Handled, s)"
    if "settled ?up (h_payments s)" for env' :: "('x, 'addr, 'route) handler_env" and s
    using update_payment_settled [OF that, of L env']
    by (auto simp: handle_payment_claimed_def update_and_notify_def split: DataStoreUpdateResult.splits)
  show ?thesis
  proof (cases written)
    case True
    then have ev: "add_event_or_replay L ?ev st2 = (r, st1)"
      using assms(1) u q by (simp add: handle_payment_claimed_def update_and_notify_def)
    then show ?thesis
      using True quiet update_payment_settles [OF u] add_event_fields(1,2) [OF ev] update_payment_fields(1) [OF u]
      by simp
  next
    case False
    then have "r = Replay" "st1 = st2"
      using assms(1) u q by (auto simp: handle_payment_claimed_def update_and_notify_def split: sum.splits)
    then show ?thesis
      using False quiet update_payment_settles [OF u] update_payment_fields(1) [OF u] by simp
  qed
qed


text \<open>
  C33: the status of payments follows the specification \<open>status_spec\<close>, whatever writes fail. A payment
  that is known becomes successful when it is sent or claimed, and failed when sending fails; a
  claimable payment may be registered as pending or failed, and no other event touches any status.
  In particular a payment that has succeeded is marked as failed by every later \<open>PaymentClaimable\<close>
  for the same hash.
\<close>

theorem payment_status_refines:
  assumes "handle_event L env e st = (r, st')"
  shows "status_map (h_payments st') \<in> status_spec e (status_map (h_payments st))"
proof -
  have claimed: "pu_id (claimed_update h p a) = id_of_hash h" "pu_status (claimed_update h p a) = Some Succeeded" for h p a
    by (auto simp: claimed_update_def Let_def PaymentDetailsUpdate_new_def split: payment_purpose.splits)
  have added: "h_payments st' = h_payments st1" if "add_event_or_replay L ev st1 = (r, st')" for ev st1
    using add_event_fields(2) [OF that] .
  show ?thesis
  proof (cases e)
    case (LdkPaymentClaimable h p a d onion f)
    then show ?thesis
      using claimable_status [of L env h p a d onion f st r st'] assms by (simp del: status_spec.simps)
  next
    case (LdkPaymentClaimed h p a onion)
    then show ?thesis
      using update_and_notify_status [of L env "claimed_update h p a" _ st r st'] assms claimed
      by (simp add: handle_payment_claimed_def)
  next
    case (LdkPaymentSent i p h f)
    then show ?thesis
      using payment_sent_status [of L env _ p h f st r st'] assms
      by (cases i) (auto simp: handle_payment_sent_def)
  next
    case (LdkPaymentFailed i h x)
    then show ?thesis
      using update_and_notify_status [of L env "failed_update i h" _ st r st'] assms
      by (simp add: handle_payment_failed_def failed_update_def PaymentDetailsUpdate_new_def)
  next
    case (LdkChannelPending c u f n txo)
    then show ?thesis
      using channel_pending_payments [of L env c u f n txo st r st'] assms by simp
  next
    case (LdkOpenChannelRequest a b c d)
    then show ?thesis
      using assms by (auto simp: handle_open_channel_request_def reject_channel_def Let_def split: if_splits)
  next
    case (LdkPersistStaticInvoice a b c d f)
    then show ?thesis
      using assms
      by (auto simp: handle_persist_static_invoice_event_def Let_def split: option.splits prod.splits if_splits)
  qed (use assms added in \<open>auto simp: event_branch_defs Let_def split: option.splits sum.splits prod.splits if_splits\<close>)
qed

text \<open>
  The fee limit is not looked at for a payment that is not in the store, which is the case for every
  spontaneous payment and every payment of an offer.
\<close>

lemma unregistered_payment_fee_unchecked:
  assumes "DataStore_get (h_payments st) (id_of_hash h) = None" "purpose_preimage purpose = Some p"
  shows "\<exists>st'. handle_payment_claimable L env h purpose amt dl onion skim st = (Handled, st')
    \<and> h_actions st' = h_actions st @ [ClaimFunds p]"
  using assms by (simp add: handle_payment_claimable_def)

section \<open>Witnesses\<close>

definition example_handler_libs :: "(u64 \<Rightarrow> bool) \<Rightarrow> (unit, unit, sqlite_store) handler_libs" where
  "example_handler_libs db =
     \<lparr>hl_ops = sqlite_ops ''abcdefghijklmnopqrstuvwxyz0123456789'' 120 db, hl_event = (\<lambda>ev. [1]),
      hl_payment = (\<lambda>t. [2]), hl_peers = (\<lambda>p. [3]), hl_sha256 = (\<lambda>b. b), hl_invoice = (\<lambda>i. [4]),
      hl_read_invoice = (\<lambda>b. None)\<rparr>"

definition example_handler_env :: "(unit, unit, unit) handler_env" where
  "example_handler_env =
     \<lparr>he_now = 77, he_clock = \<lparr>clock_ratio = (\<lambda>_ _. 0), clock_now = 0, clock_gc = 0\<rparr>, he_config = Config_default,
      he_height = 800000, he_channels = [], he_create_funding = (\<lambda>_ _ _. Inr ()), he_liquidity = False,
      he_needs_manual_broadcast = (\<lambda>_ _. False), he_lsp_node_id = None,
      he_compute_opening_fee = (\<lambda>amount base prop. Some (amount div 100)), he_tracked = True,
      he_spendable = (\<lambda>r. Inr (100000 - r)), he_random = 5, he_first_address = (\<lambda>_. None),
      he_sign_owned_inputs = (\<lambda>_ _. Some ()), he_cancel_tx = (\<lambda>_. Inr ())\<rparr>"

abbreviation example_hash :: payment_hash where
  "example_hash \<equiv> PaymentHash [9]"

text \<open>A pending payment of a JIT invoice whose fee limit is proportional.\<close>

definition example_jit_payment :: payment_details where
  "example_jit_payment =
     \<lparr>pd_id = PaymentId [9],
      pd_kind = Bolt11Jit example_hash None None None
        \<lparr>max_total_opening_fee_msat = None, max_proportional_opening_fee_ppm_msat = Some 10000\<rparr> None None,
      pd_amount_msat = Some 5000, pd_fee_paid_msat = None, pd_direction = Inbound, pd_status = Pending,
      pd_latest_update_timestamp = 1\<rparr>"

definition example_handler_state :: "(unit, unit, sqlite_store) handler_state" where
  "example_handler_state =
     \<lparr>h_queue = EventQueue_new,
      h_payments = \<lparr>objects = [PaymentId [9] \<mapsto> example_jit_payment],
        primary_namespace = PAYMENT_INFO_PERSISTENCE_PRIMARY_NAMESPACE,
        secondary_namespace = PAYMENT_INFO_PERSISTENCE_SECONDARY_NAMESPACE\<rparr>,
      h_peers = \<lparr>peers = []\<rparr>, h_mailbox = None, h_invoices = None,
      h_kv = SqliteStore_new [event_queue_target \<mapsto> EventQueueSerWrapper_write (\<lambda>ev :: unit node_event. [1]) []],
      h_actions = []\<rparr>"

abbreviation example_claimable :: "u64 \<Rightarrow> handled \<times> (unit, unit, sqlite_store) handler_state" where
  "example_claimable skim \<equiv> handle_payment_claimable (example_handler_libs (\<lambda>_. True)) example_handler_env
     example_hash (Bolt11InvoicePayment (Some (PaymentPreimage [8])) (PaymentSecret [7])) 5000 None None skim
     example_handler_state"

theorem inbound_payment_decided_witness:
  "fst (example_claimable 50) = Handled \<and> h_actions (snd (example_claimable 50)) = [ClaimFunds (PaymentPreimage [8])]
   \<and> claim_allowed example_handler_env example_jit_payment 5000 50
   \<and> h_actions (snd (example_claimable 51)) = [FailHtlcBackwards example_hash]"
proof -
  have run: "fst (example_claimable 50) = Handled" "h_actions (snd (example_claimable 50)) = [ClaimFunds (PaymentPreimage [8])]"
    "h_actions (snd (example_claimable 51)) = [FailHtlcBackwards example_hash]"
    by code_simp+
  have "example_claimable 50 = (fst (example_claimable 50), snd (example_claimable 50))"
    by simp
  from inbound_payment_decided [OF this] run show ?thesis
    by (simp add: example_handler_state_def DataStore_get_def)
qed

text \<open>The first write of the store fails, so that the notification of the claimed payment is lost.\<close>

abbreviation example_claimed ::
    "(u64 \<Rightarrow> bool) \<Rightarrow> (unit, unit, sqlite_store) handler_state \<Rightarrow> handled \<times> (unit, unit, sqlite_store) handler_state" where
  "example_claimed db st \<equiv> handle_payment_claimed (example_handler_libs db) example_handler_env
     example_hash (Bolt11InvoicePayment (Some (PaymentPreimage [8])) (PaymentSecret [7])) 5000 None st"

theorem claimed_payment_notification_witness:
  "fst (example_claimed (\<lambda>v. v \<noteq> 1) example_handler_state) = Replay
   \<and> queue (h_queue (snd (example_claimed (\<lambda>v. v \<noteq> 1) example_handler_state))) = []
   \<and> example_claimed (\<lambda>v. v \<noteq> 1) (snd (example_claimed (\<lambda>v. v \<noteq> 1) example_handler_state))
       = (Handled, snd (example_claimed (\<lambda>v. v \<noteq> 1) example_handler_state))
   \<and> queue (h_queue (snd (example_claimed (\<lambda>v. True) example_handler_state)))
       = [PaymentReceived (Some (PaymentId [9])) example_hash 5000 []]"
proof -
  let ?r = "example_claimed (\<lambda>v. v \<noteq> 1) example_handler_state"
  let ?L = "example_handler_libs (\<lambda>v. v \<noteq> 1)"
  let ?up = "claimed_update example_hash (Bolt11InvoicePayment (Some (PaymentPreimage [8])) (PaymentSecret [7])) 5000"
  have fails: "isl (fst (DataStore_persist (payment_storable (he_now example_handler_env) (hl_payment ?L)) (hl_ops ?L)
      (h_payments example_handler_state) (h_kv example_handler_state)
      (updated_record (he_now example_handler_env) ?up example_jit_payment)))"
    by code_simp
  have good: "queue (h_queue (snd (example_claimed (\<lambda>v. True) example_handler_state)))
       = [PaymentReceived (Some (PaymentId [9])) example_hash 5000 []]"
    by code_simp
  have "?r = (fst ?r, snd ?r)"
    by simp
  from claimed_payment_notification [OF this, of example_jit_payment False] show ?thesis
    using fails good
    by (simp add: example_handler_state_def example_jit_payment_def DataStore_get_def EventQueue_new_def)
qed

abbreviation example_probe :: "handled \<times> (unit, unit, sqlite_store) handler_state" where
  "example_probe \<equiv> handle_event (example_handler_libs (\<lambda>_. True)) example_handler_env
     (LdkProbeSuccessful (PaymentId [3]) (PaymentHash [4]) 10) example_handler_state"


theorem payment_status_refines_witness:
  "status_map (h_payments (snd (example_claimed (\<lambda>_. True) example_handler_state))) (PaymentId [9]) = Some Succeeded
   \<and> status_map (h_payments (snd (handle_event (example_handler_libs (\<lambda>_. True)) example_handler_env
        (LdkPaymentClaimable example_hash (Bolt11InvoicePayment (Some (PaymentPreimage [8])) (PaymentSecret [7]))
           5000 None None 0) (snd (example_claimed (\<lambda>_. True) example_handler_state))))) (PaymentId [9]) = Some Failed"
proof -
  let ?L = "example_handler_libs (\<lambda>_. True)"
  let ?st = "snd (example_claimed (\<lambda>_. True) example_handler_state)"
  let ?e = "LdkPaymentClaimable example_hash (Bolt11InvoicePayment (Some (PaymentPreimage [8])) (PaymentSecret [7])) 5000 None None 0"
  have known: "status_map (h_payments ?st) (PaymentId [9]) = Some Succeeded"
    by code_simp
  have "handle_event ?L example_handler_env ?e ?st = (fst (handle_event ?L example_handler_env ?e ?st),
      snd (handle_event ?L example_handler_env ?e ?st))"
    by simp
  from payment_status_refines [OF this] show ?thesis
    using known by simp
qed

end
