(* ===== verification/Wallet_Persist.thy ===== *)
theory Wallet_Persist
  imports Node_Config KV_Store
begin

text \<open>
  The persister of an on-chain wallet account (\<open>src/wallet/persist.rs\<close>) and the reading and writing
  of the parts of its change set (\<open>src/io/utils.rs\<close>, the macro \<open>impl_read_write_change_set_type\<close> and
  \<open>read_bdk_wallet_change_set\<close>). The change sets of the \<open>bdk\<close> crates, their codecs and their merge
  operations are parameters; only the blocks of the local chain are looked into.
\<close>

section \<open>Change sets\<close>

type_synonym chain_blocks = "u32 \<rightharpoonup> block_hash option"

record ('d, 'g, 'i) change_set =
  cs_descriptor :: "'d option"
  cs_change_descriptor :: "'d option"
  cs_network :: "network option"
  cs_local_chain :: chain_blocks
  cs_tx_graph :: 'g
  cs_indexer :: 'i

text \<open>What is used of the crates: defaults, emptiness, merging, and the codecs of the parts.\<close>

record 'a part_ops =
  part_default :: 'a
  part_is_empty :: "'a \<Rightarrow> bool"
  part_merge :: "'a \<Rightarrow> 'a \<Rightarrow> 'a"
  part_encode :: "'a \<Rightarrow> bytes"
  part_decode :: "bytes \<Rightarrow> 'a option"

record ('d, 'g, 'i) wallet_libs =
  wl_descriptor :: "('d \<Rightarrow> bytes) \<times> (bytes \<Rightarrow> 'd option)"
  wl_network :: "(network \<Rightarrow> bytes) \<times> (bytes \<Rightarrow> network option)"
  wl_local_chain :: "chain_blocks part_ops"
  wl_tx_graph :: "'g part_ops"
  wl_indexer :: "'i part_ops"
  wl_is_empty :: "('d, 'g, 'i) change_set \<Rightarrow> bool"

definition ChangeSet_default :: "('d, 'g, 'i) wallet_libs \<Rightarrow> ('d, 'g, 'i) change_set" where
  "ChangeSet_default W =
     \<lparr>cs_descriptor = None, cs_change_descriptor = None, cs_network = None,
      cs_local_chain = part_default (wl_local_chain W), cs_tx_graph = part_default (wl_tx_graph W),
      cs_indexer = part_default (wl_indexer W)\<rparr>"

text \<open>The documentation of \<open>ChangeSet::is_empty\<close>: an empty change set has no field and no part.\<close>

definition emptiness_ok :: "('d, 'g, 'i) wallet_libs \<Rightarrow> bool" where
  "emptiness_ok W \<longleftrightarrow> (\<forall>cs. wl_is_empty W cs \<longrightarrow>
     cs_descriptor cs = None \<and> cs_change_descriptor cs = None \<and> cs_network cs = None
     \<and> part_is_empty (wl_local_chain W) (cs_local_chain cs) \<and> part_is_empty (wl_tx_graph W) (cs_tx_graph cs)
     \<and> part_is_empty (wl_indexer W) (cs_indexer cs))"

section \<open>Reading and writing the parts\<close>

text \<open>The primary namespace, the secondary namespace and the key of each part.\<close>

definition BDK_WALLET_DESCRIPTOR :: kv_target where
  "BDK_WALLET_DESCRIPTOR = (''bdk_wallet'', [], ''descriptor'')"

definition BDK_WALLET_CHANGE_DESCRIPTOR :: kv_target where
  "BDK_WALLET_CHANGE_DESCRIPTOR = (''bdk_wallet'', [], ''change_descriptor'')"

definition BDK_WALLET_NETWORK :: kv_target where
  "BDK_WALLET_NETWORK = (''bdk_wallet'', [], ''network'')"

definition BDK_WALLET_LOCAL_CHAIN :: kv_target where
  "BDK_WALLET_LOCAL_CHAIN = (''bdk_wallet'', [], ''local_chain'')"

definition BDK_WALLET_TX_GRAPH :: kv_target where
  "BDK_WALLET_TX_GRAPH = (''bdk_wallet'', [], ''tx_graph'')"

definition BDK_WALLET_INDEXER :: kv_target where
  "BDK_WALLET_INDEXER = (''bdk_wallet'', [], ''indexer'')"

fun account_target :: "kv_target \<Rightarrow> wallet_account \<Rightarrow> kv_target" where
  "account_target (primary_ns, secondary_ns, key) a =
     (let suffix = storage_suffix a in
      (primary_ns, if secondary_ns = [] then suffix else secondary_ns @ ''/'' @ suffix, key))"

text \<open>The un-namespaced key is read for the account that existed before there were several.\<close>

definition read_part ::
    "(bytes \<Rightarrow> 'a option) \<Rightarrow> 'kv kv_ops \<Rightarrow> kv_target \<Rightarrow> 'kv \<Rightarrow> wallet_account \<Rightarrow> ('a option, io_error) result" where
  "read_part dec ops t kv a =
     (let decoded = (\<lambda>data. case dec data of Some v \<Rightarrow> Inr (Some v) | None \<Rightarrow> Inl InvalidData) in
      case kv_read ops kv (account_target t a) of
        Inr data \<Rightarrow> decoded data
      | Inl e \<Rightarrow>
          if e = NotFound then
            (if wa_address_type a = NativeSegwit \<and> wa_account_index a = 0 then
               (case kv_read ops kv t of
                  Inr data \<Rightarrow> decoded data
                | Inl e2 \<Rightarrow> if e2 = NotFound then Inr None else Inl e2)
             else Inr None)
          else Inl e)"

definition write_part ::
    "('a \<Rightarrow> bytes) \<Rightarrow> 'kv kv_ops \<Rightarrow> kv_target \<Rightarrow> 'a \<Rightarrow> 'kv \<Rightarrow> wallet_account \<Rightarrow> (unit, io_error) result \<times> 'kv" where
  "write_part enc ops t v kv a = kv_write ops kv (account_target t a) (enc v)"

definition read_bdk_wallet_change_set ::
    "('d, 'g, 'i) wallet_libs \<Rightarrow> 'kv kv_ops \<Rightarrow> 'kv \<Rightarrow> wallet_account
       \<Rightarrow> (('d, 'g, 'i) change_set option, io_error) result" where
  "read_bdk_wallet_change_set W ops kv a =
     and_then (read_part (snd (wl_descriptor W)) ops BDK_WALLET_DESCRIPTOR kv a) (\<lambda>descriptor.
     if descriptor = None then Inr None else
     and_then (read_part (snd (wl_descriptor W)) ops BDK_WALLET_CHANGE_DESCRIPTOR kv a) (\<lambda>change_descriptor.
     if change_descriptor = None then Inr None else
     and_then (read_part (snd (wl_network W)) ops BDK_WALLET_NETWORK kv a) (\<lambda>network.
     if network = None then Inr None else
     and_then (read_part (part_decode (wl_local_chain W)) ops BDK_WALLET_LOCAL_CHAIN kv a) (\<lambda>local_chain.
     and_then (read_part (part_decode (wl_tx_graph W)) ops BDK_WALLET_TX_GRAPH kv a) (\<lambda>tx_graph.
     and_then (read_part (part_decode (wl_indexer W)) ops BDK_WALLET_INDEXER kv a) (\<lambda>indexer.
     Inr (Some
       \<lparr>cs_descriptor = descriptor, cs_change_descriptor = change_descriptor, cs_network = network,
        cs_local_chain = (case local_chain of None \<Rightarrow> part_default (wl_local_chain W) | Some v \<Rightarrow> v),
        cs_tx_graph = (case tx_graph of None \<Rightarrow> part_default (wl_tx_graph W) | Some v \<Rightarrow> v),
        cs_indexer = (case indexer of None \<Rightarrow> part_default (wl_indexer W) | Some v \<Rightarrow> v)\<rparr>)))))))"

section \<open>The persister\<close>

record ('d, 'g, 'i) persister =
  latest_change_set :: "('d, 'g, 'i) change_set option"
  persister_account :: wallet_account

definition KVStoreWalletPersister_new :: "wallet_account \<Rightarrow> ('d, 'g, 'i) persister" where
  "KVStoreWalletPersister_new a = \<lparr>latest_change_set = None, persister_account = a\<rparr>"

definition persister_initialize ::
    "('d, 'g, 'i) wallet_libs \<Rightarrow> 'kv kv_ops \<Rightarrow> 'kv \<Rightarrow> ('d, 'g, 'i) persister
       \<Rightarrow> (('d, 'g, 'i) change_set, io_error) result \<times> ('d, 'g, 'i) persister" where
  "persister_initialize W ops kv p =
     (case latest_change_set p of
        Some cs \<Rightarrow> (Inr cs, p)
      | None \<Rightarrow>
          (case read_bdk_wallet_change_set W ops kv (persister_account p) of
             Inl e \<Rightarrow> (Inl e, p)
           | Inr change_set_opt \<Rightarrow>
               (let cs = (case change_set_opt of Some cs \<Rightarrow> cs | None \<Rightarrow> ChangeSet_default W) in
                (Inr cs, p\<lparr>latest_change_set := Some cs\<rparr>))))"

text \<open>
  The steps of \<open>persist\<close>: each takes the latest change set and the store to the new ones, and the
  first that fails ends the call. A mandatory field may be set but never changed; a part is merged
  into the latest one, which is written as a whole. The change set in memory is changed first.
\<close>

type_synonym ('d, 'g, 'i, 'kv) persist_state = "(unit, io_error) result \<times> ('d, 'g, 'i) change_set \<times> 'kv"

definition persist_mandatory ::
    "('a \<Rightarrow> bytes) \<Rightarrow> 'kv kv_ops \<Rightarrow> kv_target \<Rightarrow> wallet_account \<Rightarrow> 'a option \<Rightarrow> (('d, 'g, 'i) change_set \<Rightarrow> 'a option)
       \<Rightarrow> ('a option \<Rightarrow> ('d, 'g, 'i) change_set \<Rightarrow> ('d, 'g, 'i) change_set)
       \<Rightarrow> ('d, 'g, 'i, 'kv) persist_state \<Rightarrow> ('d, 'g, 'i, 'kv) persist_state" where
  "persist_mandatory enc ops t a new get put s =
     (case s of (r, latest, kv) \<Rightarrow>
        if isl r then s
        else (case new of
                None \<Rightarrow> s
              | Some v \<Rightarrow>
                  if get latest \<noteq> None \<and> get latest \<noteq> Some v then (Inl InvalidData, latest, kv)
                  else (case write_part enc ops t v kv a of (r', kv') \<Rightarrow> (r', put (Some v) latest, kv'))))"

definition persist_part ::
    "'a part_ops \<Rightarrow> 'kv kv_ops \<Rightarrow> kv_target \<Rightarrow> wallet_account \<Rightarrow> 'a \<Rightarrow> (('d, 'g, 'i) change_set \<Rightarrow> 'a)
       \<Rightarrow> ('a \<Rightarrow> ('d, 'g, 'i) change_set \<Rightarrow> ('d, 'g, 'i) change_set)
       \<Rightarrow> ('d, 'g, 'i, 'kv) persist_state \<Rightarrow> ('d, 'g, 'i, 'kv) persist_state" where
  "persist_part P ops t a new get put s =
     (case s of (r, latest, kv) \<Rightarrow>
        if isl r \<or> part_is_empty P new then s
        else (let v = part_merge P (get latest) new in
              case write_part (part_encode P) ops t v kv a of (r', kv') \<Rightarrow> (r', put v latest, kv')))"

definition persister_persist ::
    "('d, 'g, 'i) wallet_libs \<Rightarrow> 'kv kv_ops \<Rightarrow> ('d, 'g, 'i) persister \<Rightarrow> 'kv \<Rightarrow> ('d, 'g, 'i) change_set
       \<Rightarrow> (unit, io_error) result \<times> ('d, 'g, 'i) persister \<times> 'kv" where
  "persister_persist W ops p kv change =
     (if wl_is_empty W change then (Inr (), p, kv)
      else case latest_change_set p of
        None \<Rightarrow> (Inl OtherError, p, kv)
      | Some latest \<Rightarrow>
          (let a = persister_account p;
               s = (Inr (), latest, kv);
               s = persist_mandatory (fst (wl_descriptor W)) ops BDK_WALLET_DESCRIPTOR a (cs_descriptor change)
                     cs_descriptor (\<lambda>v cs. cs\<lparr>cs_descriptor := v\<rparr>) s;
               s = persist_mandatory (fst (wl_descriptor W)) ops BDK_WALLET_CHANGE_DESCRIPTOR a
                     (cs_change_descriptor change) cs_change_descriptor (\<lambda>v cs. cs\<lparr>cs_change_descriptor := v\<rparr>) s;
               s = persist_mandatory (fst (wl_network W)) ops BDK_WALLET_NETWORK a (cs_network change)
                     cs_network (\<lambda>v cs. cs\<lparr>cs_network := v\<rparr>) s;
               s = persist_part (wl_indexer W) ops BDK_WALLET_INDEXER a (cs_indexer change)
                     cs_indexer (\<lambda>v cs. cs\<lparr>cs_indexer := v\<rparr>) s;
               s = persist_part (wl_tx_graph W) ops BDK_WALLET_TX_GRAPH a (cs_tx_graph change)
                     cs_tx_graph (\<lambda>v cs. cs\<lparr>cs_tx_graph := v\<rparr>) s;
               (r, latest', kv') = persist_part (wl_local_chain W) ops BDK_WALLET_LOCAL_CHAIN a
                     (cs_local_chain change) cs_local_chain (\<lambda>v cs. cs\<lparr>cs_local_chain := v\<rparr>) s
           in (r, p\<lparr>latest_change_set := Some latest'\<rparr>, kv')))"

definition rewind_change :: "('d, 'g, 'i) wallet_libs \<Rightarrow> chain_blocks \<Rightarrow> u32 \<Rightarrow> block_hash \<Rightarrow> ('d, 'g, 'i) change_set" where
  "rewind_change W blocks height hash =
     (ChangeSet_default W)\<lparr>cs_local_chain :=
        (\<lambda>h. if h = height then Some (Some hash)
             else if height < h \<and> blocks h \<noteq> None then Some None
             else part_default (wl_local_chain W) h)\<rparr>"

definition rewind_to_checkpoint ::
    "('d, 'g, 'i) wallet_libs \<Rightarrow> 'kv kv_ops \<Rightarrow> ('d, 'g, 'i) persister \<Rightarrow> 'kv \<Rightarrow> u32 \<Rightarrow> block_hash
       \<Rightarrow> (unit, io_error) result \<times> ('d, 'g, 'i) persister \<times> 'kv" where
  "rewind_to_checkpoint W ops p kv height hash =
     (case persister_initialize W ops kv p of
        (Inl e, p') \<Rightarrow> (Inl e, p', kv)
      | (Inr persisted, p') \<Rightarrow>
          if height = 0 \<and> cs_local_chain persisted 0 \<noteq> Some (Some hash) then (Inl InvalidData, p', kv)
          else persister_persist W ops p' kv (rewind_change W (cs_local_chain persisted) height hash))"

section \<open>Names\<close>

text \<open>
  The alphabet and the maximal length of the store accept the names of all wallet accounts; the
  documented alphabet has all letters, digits, the underscore and the hyphen, and the length is 120.
\<close>

definition wallet_names_ok :: "string \<Rightarrow> nat \<Rightarrow> bool" where
  "wallet_names_ok alphabet max_len \<longleftrightarrow>
     set ''abcdefghijklmnopqrstuvwxyz_0123456789'' \<subseteq> set alphabet \<and> 24 \<le> max_len"

definition wallet_parts :: "kv_target set" where
  "wallet_parts = {BDK_WALLET_DESCRIPTOR, BDK_WALLET_CHANGE_DESCRIPTOR, BDK_WALLET_NETWORK,
     BDK_WALLET_LOCAL_CHAIN, BDK_WALLET_TX_GRAPH, BDK_WALLET_INDEXER}"

lemmas part_defs = BDK_WALLET_DESCRIPTOR_def BDK_WALLET_CHANGE_DESCRIPTOR_def BDK_WALLET_NETWORK_def
  BDK_WALLET_LOCAL_CHAIN_def BDK_WALLET_TX_GRAPH_def BDK_WALLET_INDEXER_def

lemma is_digit_in:
  assumes "is_digit c"
  shows "c \<in> set ''0123456789''"
proof -
  obtain n :: nat where n: "of_char c = n" "48 \<le> n" "n \<le> 57"
    using assms by (simp add: is_digit_def)
  have "n = 48 \<or> n = 49 \<or> n = 50 \<or> n = 51 \<or> n = 52 \<or> n = 53 \<or> n = 54 \<or> n = 55 \<or> n = 56 \<or> n = 57"
    using n(2,3) by presburger
  moreover have "c = char_of n"
    using n(1) by (metis char_of_char)
  ultimately show ?thesis
    by (elim disjE) (simp_all add: char_of_def bit_0)
qed

lemma length_decimal: "n < 10 ^ Suc k \<Longrightarrow> length (decimal n) \<le> Suc k"
proof (induction k arbitrary: n)
  case 0
  then show ?case
    by (subst decimal.simps) simp
next
  case (Suc k)
  then have "length (decimal (n div 10)) \<le> Suc k"
    by (simp add: less_mult_imp_div_less mult.commute)
  then show ?case
    by (subst decimal.simps) simp
qed

lemma storage_suffix_valid:
  assumes "wallet_names_ok alphabet max_len"
  shows "is_valid_kvstore_str alphabet max_len (storage_suffix a)" "storage_suffix a \<noteq> []"
proof -
  let ?t = "AddressType_storage_suffix (wa_address_type a)" and ?d = "decimal (unat (wa_account_index a))"
  have "length ?t \<le> 13" "set ?t \<subseteq> set ''abcdefghijklmnopqrstuvwxyz_0123456789''" "?t \<noteq> []"
    by (cases "wa_address_type a"; simp)+
  moreover have "length ?d \<le> 10"
    using length_decimal [of "unat (wa_account_index a)" 9] unsigned_less [where 'a = nat, of "wa_account_index a"]
    by simp
  moreover have "set ?d \<subseteq> set ''abcdefghijklmnopqrstuvwxyz_0123456789''"
    using decimal_digits [of "unat (wa_account_index a)"] is_digit_in by (fastforce simp: list_all_iff)
  ultimately show "is_valid_kvstore_str alphabet max_len (storage_suffix a)" "storage_suffix a \<noteq> []"
    using assms
    by (auto simp: is_valid_kvstore_str_def storage_suffix_def wallet_names_ok_def list_all_iff)
qed

lemma part_valid:
  assumes "wallet_names_ok alphabet max_len" "t \<in> wallet_parts"
  shows "check_namespace_key_validity alphabet max_len (fst t) (fst (snd t)) (Some (snd (snd t))) = Inr ()"
    and "check_namespace_key_validity alphabet max_len (fst (account_target t a)) (fst (snd (account_target t a)))
      (Some (snd (snd (account_target t a)))) = Inr ()"
proof -
  have names: "is_valid_kvstore_str alphabet max_len (fst t)" "is_valid_kvstore_str alphabet max_len (snd (snd t))"
    "fst t \<noteq> []" "snd (snd t) \<noteq> []" "fst (snd t) = []" "is_valid_kvstore_str alphabet max_len []"
    using assms by (auto simp: wallet_parts_def part_defs is_valid_kvstore_str_def wallet_names_ok_def)
  have acc: "account_target t a = (fst t, storage_suffix a, snd (snd t))"
    using names(5) by (cases t) simp
  show "check_namespace_key_validity alphabet max_len (fst t) (fst (snd t)) (Some (snd (snd t))) = Inr ()"
    using names by (simp add: check_namespace_key_validity_def)
  show "check_namespace_key_validity alphabet max_len (fst (account_target t a)) (fst (snd (account_target t a)))
      (Some (snd (snd (account_target t a)))) = Inr ()"
    unfolding acc using names storage_suffix_valid [OF assms(1), of a] by (simp add: check_namespace_key_validity_def)
qed

lemma account_target_inject:
  assumes "t \<in> wallet_parts" "t' \<in> wallet_parts"
  shows "account_target t a = account_target t' b \<longleftrightarrow> t = t' \<and> a = b"
    and "account_target t a \<noteq> t'"
proof -
  obtain k k' where "t = (''bdk_wallet'', [], k)" "t' = (''bdk_wallet'', [], k')"
    using assms by (auto simp: wallet_parts_def part_defs)
  moreover have "storage_suffix a \<noteq> []"
    by (cases "wa_address_type a") (simp_all add: storage_suffix_def)
  ultimately show "account_target t a = account_target t' b \<longleftrightarrow> t = t' \<and> a = b" "account_target t a \<noteq> t'"
    by (auto simp: storage_suffix_inject)
qed

section \<open>The table behind the parts\<close>

text \<open>What reading a part yields when the disk can be read.\<close>

definition table_part :: "(bytes \<Rightarrow> 'a option) \<Rightarrow> (kv_target \<rightharpoonup> bytes) \<Rightarrow> kv_target \<Rightarrow> wallet_account \<Rightarrow> ('a option, io_error) result" where
  "table_part dec tbl t a =
     (let decoded = (\<lambda>data. case dec data of Some v \<Rightarrow> Inr (Some v) | None \<Rightarrow> Inl InvalidData) in
      case tbl (account_target t a) of
        Some data \<Rightarrow> decoded data
      | None \<Rightarrow>
          if wa_address_type a = NativeSegwit \<and> wa_account_index a = 0
          then (case tbl t of Some data \<Rightarrow> decoded data | None \<Rightarrow> Inr None)
          else Inr None)"

lemma read_valid:
  assumes "check_namespace_key_validity alphabet max_len (fst t) (fst (snd t)) (Some (snd (snd t))) = Inr ()"
  shows "kv_read (sqlite_ops alphabet max_len (\<lambda>_. True)) kv t =
    (case kv_table kv t of None \<Rightarrow> Inl NotFound | Some v \<Rightarrow> Inr v)"
  using assms by (cases t) (simp add: sqlite_ops_def read_internal_def)

lemma read_part_table:
  assumes "wallet_names_ok alphabet max_len" "t \<in> wallet_parts"
  shows "read_part dec (sqlite_ops alphabet max_len (\<lambda>_. True)) t kv a = table_part dec (kv_table kv) t a"
  using read_valid [OF part_valid(1) [OF assms]] read_valid [OF part_valid(2) [OF assms, of a]]
  by (simp add: read_part_def table_part_def Let_def split: option.splits)

definition upd_opt :: "'k \<Rightarrow> 'v option \<Rightarrow> ('k \<rightharpoonup> 'v) \<Rightarrow> ('k \<rightharpoonup> 'v)" where
  "upd_opt k v m = (case v of None \<Rightarrow> m | Some x \<Rightarrow> m(k \<mapsto> x))"

lemma upd_opt_apply: "upd_opt k v m k' = (if k = k' \<and> v \<noteq> None then v else m k')"
  by (auto simp: upd_opt_def split: option.splits)

text \<open>An update at the place of another part or another account is not seen.\<close>

lemma table_part_upd:
  assumes "t \<in> wallet_parts" "t' \<in> wallet_parts"
  shows "table_part dec (upd_opt (account_target t a) v tbl) t' b =
    (if t = t' \<and> a = b \<and> v \<noteq> None then (case dec (the v) of Some x \<Rightarrow> Inr (Some x) | None \<Rightarrow> Inl InvalidData)
     else table_part dec tbl t' b)"
  using account_target_inject(1) [OF assms, of a b] account_target_inject(2) [OF assms, of a]
  by (auto simp: table_part_def upd_opt_apply Let_def split: option.splits)

lemma write_part_table:
  assumes "sqlite_fresh kv" "write_part enc (sqlite_ops alphabet max_len db) t v kv a = (r, kv')"
  shows "sqlite_fresh kv' \<and> kv_table kv' = upd_opt (account_target t a) (if isl r then None else Some (enc v)) (kv_table kv)"
  using sqlite.contents_write [OF assms(1)] sqlite.invar_write [OF assms(1)] assms(2)
  by (simp add: write_part_def upd_opt_def)

section \<open>The steps of a call\<close>

lemma persist_mandatory_step:
  assumes "sqlite_fresh kv"
    and "persist_mandatory enc (sqlite_ops alphabet max_len db) t a new get put (r, latest, kv) = (r', latest', kv')"
  shows "\<exists>v. sqlite_fresh kv' \<and> kv_table kv' = upd_opt (account_target t a) v (kv_table kv)
    \<and> (\<not> isl r' \<longrightarrow> \<not> isl r \<and> v = map_option enc new
         \<and> latest' = (if new = None then latest else put new latest))
    \<and> (latest' = latest \<or> latest' = put new latest \<and> new \<noteq> None \<and> (get latest = None \<or> get latest = new))"
proof (cases "isl r \<or> new = None \<or> get latest \<noteq> None \<and> get latest \<noteq> new")
  case True
  then show ?thesis
    using assms by (intro exI [of _ None]) (auto simp: persist_mandatory_def upd_opt_def split: option.splits if_splits)
next
  case False
  then obtain v where v: "new = Some v" "get latest = None \<or> get latest = new" "\<not> isl r"
    by auto
  obtain q k where w: "write_part enc (sqlite_ops alphabet max_len db) t v kv a = (q, k)"
    by fastforce
  have "r' = q \<and> latest' = put new latest \<and> kv' = k"
    using assms(2) v w by (auto simp: persist_mandatory_def split: if_splits)
  then show ?thesis
    using write_part_table [OF assms(1) w] v
    by (intro exI [of _ "if isl q then None else Some (enc v)"]) auto
qed

lemma persist_part_step:
  assumes "sqlite_fresh kv"
    and "persist_part P (sqlite_ops alphabet max_len db) t a new get put (r, latest, kv) = (r', latest', kv')"
  shows "\<exists>v. sqlite_fresh kv' \<and> kv_table kv' = upd_opt (account_target t a) v (kv_table kv)
    \<and> (\<not> isl r' \<longrightarrow> \<not> isl r \<and>
         (if part_is_empty P new then v = None \<and> latest' = latest
          else v = Some (part_encode P (part_merge P (get latest) new))
            \<and> latest' = put (part_merge P (get latest) new) latest))
    \<and> (latest' = latest \<or> latest' = put (part_merge P (get latest) new) latest)"
proof (cases "isl r \<or> part_is_empty P new")
  case True
  then show ?thesis
    using assms by (intro exI [of _ None]) (auto simp: persist_part_def upd_opt_def)
next
  case False
  let ?v = "part_merge P (get latest) new"
  obtain q k where w: "write_part (part_encode P) (sqlite_ops alphabet max_len db) t ?v kv a = (q, k)"
    by fastforce
  have "r' = q \<and> latest' = put ?v latest \<and> kv' = k"
    using assms(2) False w by (auto simp: persist_part_def Let_def)
  then show ?thesis
    using write_part_table [OF assms(1) w] False
    by (intro exI [of _ "if isl q then None else Some (part_encode P ?v)"]) auto
qed

text \<open>The specification of a successful call: the change set with the changes merged in.\<close>

definition merge_change_set ::
    "('d, 'g, 'i) wallet_libs \<Rightarrow> ('d, 'g, 'i) change_set \<Rightarrow> ('d, 'g, 'i) change_set \<Rightarrow> ('d, 'g, 'i) change_set" where
  "merge_change_set W cs change =
     \<lparr>cs_descriptor = (if cs_descriptor change = None then cs_descriptor cs else cs_descriptor change),
      cs_change_descriptor =
        (if cs_change_descriptor change = None then cs_change_descriptor cs else cs_change_descriptor change),
      cs_network = (if cs_network change = None then cs_network cs else cs_network change),
      cs_local_chain = (if part_is_empty (wl_local_chain W) (cs_local_chain change) then cs_local_chain cs
        else part_merge (wl_local_chain W) (cs_local_chain cs) (cs_local_chain change)),
      cs_tx_graph = (if part_is_empty (wl_tx_graph W) (cs_tx_graph change) then cs_tx_graph cs
        else part_merge (wl_tx_graph W) (cs_tx_graph cs) (cs_tx_graph change)),
      cs_indexer = (if part_is_empty (wl_indexer W) (cs_indexer change) then cs_indexer cs
        else part_merge (wl_indexer W) (cs_indexer cs) (cs_indexer change))\<rparr>"

definition part_bytes :: "'a part_ops \<Rightarrow> 'a \<Rightarrow> 'a \<Rightarrow> bytes option" where
  "part_bytes P old new = (if part_is_empty P new then None else Some (part_encode P (part_merge P old new)))"

text \<open>
  The table after a call differs from the one before at most in the six parts of the account, and
  after a successful call exactly by the parts that the change set has.
\<close>

definition mandatory_steps ::
    "('d, 'g, 'i) wallet_libs \<Rightarrow> 'kv kv_ops \<Rightarrow> wallet_account \<Rightarrow> ('d, 'g, 'i) change_set
       \<Rightarrow> ('d, 'g, 'i, 'kv) persist_state \<Rightarrow> ('d, 'g, 'i, 'kv) persist_state" where
  "mandatory_steps W ops a change s =
     persist_mandatory (fst (wl_network W)) ops BDK_WALLET_NETWORK a (cs_network change)
       cs_network (\<lambda>v cs. cs\<lparr>cs_network := v\<rparr>)
     (persist_mandatory (fst (wl_descriptor W)) ops BDK_WALLET_CHANGE_DESCRIPTOR a (cs_change_descriptor change)
       cs_change_descriptor (\<lambda>v cs. cs\<lparr>cs_change_descriptor := v\<rparr>)
     (persist_mandatory (fst (wl_descriptor W)) ops BDK_WALLET_DESCRIPTOR a (cs_descriptor change)
       cs_descriptor (\<lambda>v cs. cs\<lparr>cs_descriptor := v\<rparr>) s))"

definition part_steps ::
    "('d, 'g, 'i) wallet_libs \<Rightarrow> 'kv kv_ops \<Rightarrow> wallet_account \<Rightarrow> ('d, 'g, 'i) change_set
       \<Rightarrow> ('d, 'g, 'i, 'kv) persist_state \<Rightarrow> ('d, 'g, 'i, 'kv) persist_state" where
  "part_steps W ops a change s =
     persist_part (wl_local_chain W) ops BDK_WALLET_LOCAL_CHAIN a (cs_local_chain change)
       cs_local_chain (\<lambda>v cs. cs\<lparr>cs_local_chain := v\<rparr>)
     (persist_part (wl_tx_graph W) ops BDK_WALLET_TX_GRAPH a (cs_tx_graph change)
       cs_tx_graph (\<lambda>v cs. cs\<lparr>cs_tx_graph := v\<rparr>)
     (persist_part (wl_indexer W) ops BDK_WALLET_INDEXER a (cs_indexer change)
       cs_indexer (\<lambda>v cs. cs\<lparr>cs_indexer := v\<rparr>) s))"

lemma mandatory_steps_run:
  assumes "sqlite_fresh kv" "mandatory_steps W (sqlite_ops alphabet max_len db) a change (r, cs, kv) = (r', cs', kv')"
  obtains v1 v2 v3 where "sqlite_fresh kv'"
    "kv_table kv' = upd_opt (account_target BDK_WALLET_NETWORK a) v3
      (upd_opt (account_target BDK_WALLET_CHANGE_DESCRIPTOR a) v2
      (upd_opt (account_target BDK_WALLET_DESCRIPTOR a) v1 (kv_table kv)))"
    "cs_descriptor cs \<noteq> None \<longrightarrow> cs_descriptor cs' = cs_descriptor cs"
    "\<not> isl r' \<longrightarrow> v1 = map_option (fst (wl_descriptor W)) (cs_descriptor change)
      \<and> v2 = map_option (fst (wl_descriptor W)) (cs_change_descriptor change)
      \<and> v3 = map_option (fst (wl_network W)) (cs_network change)
      \<and> cs' = cs\<lparr>cs_descriptor := (if cs_descriptor change = None then cs_descriptor cs else cs_descriptor change),
          cs_change_descriptor :=
            (if cs_change_descriptor change = None then cs_change_descriptor cs else cs_change_descriptor change),
          cs_network := (if cs_network change = None then cs_network cs else cs_network change)\<rparr>"
proof -
  let ?ops = "sqlite_ops alphabet max_len db"
  obtain r1 c1 k1 where s1: "persist_mandatory (fst (wl_descriptor W)) ?ops BDK_WALLET_DESCRIPTOR a
      (cs_descriptor change) cs_descriptor (\<lambda>v cs. cs\<lparr>cs_descriptor := v\<rparr>) (r, cs, kv) = (r1, c1, k1)"
    by (metis prod_cases3)
  obtain r2 c2 k2 where s2: "persist_mandatory (fst (wl_descriptor W)) ?ops BDK_WALLET_CHANGE_DESCRIPTOR a
      (cs_change_descriptor change) cs_change_descriptor (\<lambda>v cs. cs\<lparr>cs_change_descriptor := v\<rparr>) (r1, c1, k1) = (r2, c2, k2)"
    by (metis prod_cases3)
  have s3: "persist_mandatory (fst (wl_network W)) ?ops BDK_WALLET_NETWORK a
      (cs_network change) cs_network (\<lambda>v cs. cs\<lparr>cs_network := v\<rparr>) (r2, c2, k2) = (r', cs', kv')"
    using assms(2) by (simp add: mandatory_steps_def s1 s2)
  from persist_mandatory_step [OF assms(1) s1] obtain v1 where v1: "sqlite_fresh k1"
      "kv_table k1 = upd_opt (account_target BDK_WALLET_DESCRIPTOR a) v1 (kv_table kv)"
      "\<not> isl r1 \<longrightarrow> v1 = map_option (fst (wl_descriptor W)) (cs_descriptor change)
         \<and> c1 = (if cs_descriptor change = None then cs else cs\<lparr>cs_descriptor := cs_descriptor change\<rparr>)"
      "cs_descriptor cs \<noteq> None \<longrightarrow> cs_descriptor c1 = cs_descriptor cs"
    by fastforce
  from persist_mandatory_step [OF v1(1) s2] obtain v2 where v2: "sqlite_fresh k2"
      "kv_table k2 = upd_opt (account_target BDK_WALLET_CHANGE_DESCRIPTOR a) v2 (kv_table k1)"
      "\<not> isl r2 \<longrightarrow> \<not> isl r1 \<and> v2 = map_option (fst (wl_descriptor W)) (cs_change_descriptor change)
         \<and> c2 = (if cs_change_descriptor change = None then c1 else c1\<lparr>cs_change_descriptor := cs_change_descriptor change\<rparr>)"
      "cs_descriptor c2 = cs_descriptor c1"
    by fastforce
  from persist_mandatory_step [OF v2(1) s3] obtain v3 where v3: "sqlite_fresh kv'"
      "kv_table kv' = upd_opt (account_target BDK_WALLET_NETWORK a) v3 (kv_table k2)"
      "\<not> isl r' \<longrightarrow> \<not> isl r2 \<and> v3 = map_option (fst (wl_network W)) (cs_network change)
         \<and> cs' = (if cs_network change = None then c2 else c2\<lparr>cs_network := cs_network change\<rparr>)"
      "cs_descriptor cs' = cs_descriptor c2"
    by fastforce
  show ?thesis
    by (rule that [of v3 v2 v1]) (use v1 v2 v3 in auto)
qed

lemma part_steps_run:
  assumes "sqlite_fresh kv" "part_steps W (sqlite_ops alphabet max_len db) a change (r, cs, kv) = (r', cs', kv')"
  obtains v4 v5 v6 where "sqlite_fresh kv'"
    "kv_table kv' = upd_opt (account_target BDK_WALLET_LOCAL_CHAIN a) v6
      (upd_opt (account_target BDK_WALLET_TX_GRAPH a) v5
      (upd_opt (account_target BDK_WALLET_INDEXER a) v4 (kv_table kv)))"
    "cs_descriptor cs' = cs_descriptor cs"
    "\<not> isl r' \<longrightarrow> \<not> isl r \<and> v4 = part_bytes (wl_indexer W) (cs_indexer cs) (cs_indexer change)
      \<and> v5 = part_bytes (wl_tx_graph W) (cs_tx_graph cs) (cs_tx_graph change)
      \<and> v6 = part_bytes (wl_local_chain W) (cs_local_chain cs) (cs_local_chain change)
      \<and> cs' = merge_change_set W cs (change\<lparr>cs_descriptor := None, cs_change_descriptor := None, cs_network := None\<rparr>)"
proof -
  let ?ops = "sqlite_ops alphabet max_len db"
  obtain r4 c4 k4 where s4: "persist_part (wl_indexer W) ?ops BDK_WALLET_INDEXER a
      (cs_indexer change) cs_indexer (\<lambda>v cs. cs\<lparr>cs_indexer := v\<rparr>) (r, cs, kv) = (r4, c4, k4)"
    by (metis prod_cases3)
  obtain r5 c5 k5 where s5: "persist_part (wl_tx_graph W) ?ops BDK_WALLET_TX_GRAPH a
      (cs_tx_graph change) cs_tx_graph (\<lambda>v cs. cs\<lparr>cs_tx_graph := v\<rparr>) (r4, c4, k4) = (r5, c5, k5)"
    by (metis prod_cases3)
  have s6: "persist_part (wl_local_chain W) ?ops BDK_WALLET_LOCAL_CHAIN a
      (cs_local_chain change) cs_local_chain (\<lambda>v cs. cs\<lparr>cs_local_chain := v\<rparr>) (r5, c5, k5) = (r', cs', kv')"
    using assms(2) by (simp add: part_steps_def s4 s5)
  from persist_part_step [OF assms(1) s4] obtain v4 where v4: "sqlite_fresh k4"
      "kv_table k4 = upd_opt (account_target BDK_WALLET_INDEXER a) v4 (kv_table kv)"
      "\<not> isl r4 \<longrightarrow> \<not> isl r \<and> v4 = part_bytes (wl_indexer W) (cs_indexer cs) (cs_indexer change)
         \<and> c4 = (if part_is_empty (wl_indexer W) (cs_indexer change) then cs
              else cs\<lparr>cs_indexer := part_merge (wl_indexer W) (cs_indexer cs) (cs_indexer change)\<rparr>)"
      "cs_descriptor c4 = cs_descriptor cs"
    unfolding part_bytes_def by fastforce
  from persist_part_step [OF v4(1) s5] obtain v5 where v5: "sqlite_fresh k5"
      "kv_table k5 = upd_opt (account_target BDK_WALLET_TX_GRAPH a) v5 (kv_table k4)"
      "\<not> isl r5 \<longrightarrow> \<not> isl r4 \<and> v5 = part_bytes (wl_tx_graph W) (cs_tx_graph c4) (cs_tx_graph change)
         \<and> c5 = (if part_is_empty (wl_tx_graph W) (cs_tx_graph change) then c4
              else c4\<lparr>cs_tx_graph := part_merge (wl_tx_graph W) (cs_tx_graph c4) (cs_tx_graph change)\<rparr>)"
      "cs_descriptor c5 = cs_descriptor c4"
    unfolding part_bytes_def by fastforce
  from persist_part_step [OF v5(1) s6] obtain v6 where v6: "sqlite_fresh kv'"
      "kv_table kv' = upd_opt (account_target BDK_WALLET_LOCAL_CHAIN a) v6 (kv_table k5)"
      "\<not> isl r' \<longrightarrow> \<not> isl r5 \<and> v6 = part_bytes (wl_local_chain W) (cs_local_chain c5) (cs_local_chain change)
         \<and> cs' = (if part_is_empty (wl_local_chain W) (cs_local_chain change) then c5
              else c5\<lparr>cs_local_chain := part_merge (wl_local_chain W) (cs_local_chain c5) (cs_local_chain change)\<rparr>)"
      "cs_descriptor cs' = cs_descriptor c5"
    unfolding part_bytes_def by fastforce
  show ?thesis
    by (rule that [of v6 v5 v4]) (use v4 v5 v6 in \<open>auto simp: merge_change_set_def\<close>)
qed

section \<open>The stored wallet and the one in memory\<close>

definition part_synced :: "'a part_ops \<Rightarrow> (kv_target \<rightharpoonup> bytes) \<Rightarrow> kv_target \<Rightarrow> wallet_account \<Rightarrow> 'a \<Rightarrow> bool" where
  "part_synced P tbl t a v \<longleftrightarrow>
     (case table_part (part_decode P) tbl t a of
        Inl e \<Rightarrow> False
      | Inr None \<Rightarrow> v = part_default P
      | Inr (Some x) \<Rightarrow> v = x)"

definition wallet_synced ::
    "('d, 'g, 'i) wallet_libs \<Rightarrow> (kv_target \<rightharpoonup> bytes) \<Rightarrow> wallet_account \<Rightarrow> ('d, 'g, 'i) change_set \<Rightarrow> bool" where
  "wallet_synced W tbl a cs \<longleftrightarrow>
     table_part (snd (wl_descriptor W)) tbl BDK_WALLET_DESCRIPTOR a = Inr (cs_descriptor cs)
     \<and> table_part (snd (wl_descriptor W)) tbl BDK_WALLET_CHANGE_DESCRIPTOR a = Inr (cs_change_descriptor cs)
     \<and> table_part (snd (wl_network W)) tbl BDK_WALLET_NETWORK a = Inr (cs_network cs)
     \<and> part_synced (wl_local_chain W) tbl BDK_WALLET_LOCAL_CHAIN a (cs_local_chain cs)
     \<and> part_synced (wl_tx_graph W) tbl BDK_WALLET_TX_GRAPH a (cs_tx_graph cs)
     \<and> part_synced (wl_indexer W) tbl BDK_WALLET_INDEXER a (cs_indexer cs)"

definition has_mandatory :: "('d, 'g, 'i) change_set \<Rightarrow> bool" where
  "has_mandatory cs \<longleftrightarrow> cs_descriptor cs \<noteq> None \<and> cs_change_descriptor cs \<noteq> None \<and> cs_network cs \<noteq> None"

text \<open>The codecs of the crates read back what they wrote, for the parts of this change set.\<close>

definition wallet_codecs :: "('d, 'g, 'i) wallet_libs \<Rightarrow> ('d, 'g, 'i) change_set \<Rightarrow> bool" where
  "wallet_codecs W cs \<longleftrightarrow>
     (case cs_descriptor cs of None \<Rightarrow> True | Some d \<Rightarrow> snd (wl_descriptor W) (fst (wl_descriptor W) d) = Some d)
     \<and> (case cs_change_descriptor cs of None \<Rightarrow> True | Some d \<Rightarrow> snd (wl_descriptor W) (fst (wl_descriptor W) d) = Some d)
     \<and> (case cs_network cs of None \<Rightarrow> True | Some n \<Rightarrow> snd (wl_network W) (fst (wl_network W) n) = Some n)
     \<and> part_decode (wl_local_chain W) (part_encode (wl_local_chain W) (cs_local_chain cs)) = Some (cs_local_chain cs)
     \<and> part_decode (wl_tx_graph W) (part_encode (wl_tx_graph W) (cs_tx_graph cs)) = Some (cs_tx_graph cs)
     \<and> part_decode (wl_indexer W) (part_encode (wl_indexer W) (cs_indexer cs)) = Some (cs_indexer cs)"

lemma parts_in [simp, intro]:
  "BDK_WALLET_DESCRIPTOR \<in> wallet_parts" "BDK_WALLET_CHANGE_DESCRIPTOR \<in> wallet_parts"
  "BDK_WALLET_NETWORK \<in> wallet_parts" "BDK_WALLET_LOCAL_CHAIN \<in> wallet_parts"
  "BDK_WALLET_TX_GRAPH \<in> wallet_parts" "BDK_WALLET_INDEXER \<in> wallet_parts"
  by (simp_all add: wallet_parts_def)

lemmas read_parts_table =
  read_part_table [OF _ parts_in(1)] read_part_table [OF _ parts_in(2)] read_part_table [OF _ parts_in(3)]
  read_part_table [OF _ parts_in(4)] read_part_table [OF _ parts_in(5)] read_part_table [OF _ parts_in(6)]

lemma part_ne [simp]:
  "BDK_WALLET_DESCRIPTOR \<noteq> BDK_WALLET_CHANGE_DESCRIPTOR" "BDK_WALLET_DESCRIPTOR \<noteq> BDK_WALLET_NETWORK"
  "BDK_WALLET_DESCRIPTOR \<noteq> BDK_WALLET_LOCAL_CHAIN" "BDK_WALLET_DESCRIPTOR \<noteq> BDK_WALLET_TX_GRAPH"
  "BDK_WALLET_DESCRIPTOR \<noteq> BDK_WALLET_INDEXER" "BDK_WALLET_CHANGE_DESCRIPTOR \<noteq> BDK_WALLET_NETWORK"
  "BDK_WALLET_CHANGE_DESCRIPTOR \<noteq> BDK_WALLET_LOCAL_CHAIN" "BDK_WALLET_CHANGE_DESCRIPTOR \<noteq> BDK_WALLET_TX_GRAPH"
  "BDK_WALLET_CHANGE_DESCRIPTOR \<noteq> BDK_WALLET_INDEXER" "BDK_WALLET_NETWORK \<noteq> BDK_WALLET_LOCAL_CHAIN"
  "BDK_WALLET_NETWORK \<noteq> BDK_WALLET_TX_GRAPH" "BDK_WALLET_NETWORK \<noteq> BDK_WALLET_INDEXER"
  "BDK_WALLET_LOCAL_CHAIN \<noteq> BDK_WALLET_TX_GRAPH" "BDK_WALLET_LOCAL_CHAIN \<noteq> BDK_WALLET_INDEXER"
  "BDK_WALLET_TX_GRAPH \<noteq> BDK_WALLET_INDEXER"
  by (simp_all add: part_defs)

text \<open>A synchronised wallet is read back by the next start.\<close>

lemma synced_reload:
  assumes "wallet_names_ok alphabet max_len" "wallet_synced W (kv_table kv) a cs" "has_mandatory cs"
  shows "read_bdk_wallet_change_set W (sqlite_ops alphabet max_len (\<lambda>_. True)) kv a = Inr (Some cs)"
  using assms
  by (auto simp: read_bdk_wallet_change_set_def read_parts_table wallet_synced_def has_mandatory_def part_synced_def
      split: sum.splits option.splits)

lemma if_none_eq_some: "(if c then Inr None else r) = Inr (Some x) \<longleftrightarrow> \<not> c \<and> r = Inr (Some x)"
  by simp

lemma reload_synced:
  assumes "wallet_names_ok alphabet max_len"
    and "read_bdk_wallet_change_set W (sqlite_ops alphabet max_len (\<lambda>_. True)) kv a = Inr (Some cs)"
  shows "wallet_synced W (kv_table kv) a cs \<and> has_mandatory cs"
proof -
  from assms(2) obtain d c n l g i where
    "table_part (snd (wl_descriptor W)) (kv_table kv) BDK_WALLET_DESCRIPTOR a = Inr d" "d \<noteq> None"
    "table_part (snd (wl_descriptor W)) (kv_table kv) BDK_WALLET_CHANGE_DESCRIPTOR a = Inr c" "c \<noteq> None"
    "table_part (snd (wl_network W)) (kv_table kv) BDK_WALLET_NETWORK a = Inr n" "n \<noteq> None"
    "table_part (part_decode (wl_local_chain W)) (kv_table kv) BDK_WALLET_LOCAL_CHAIN a = Inr l"
    "table_part (part_decode (wl_tx_graph W)) (kv_table kv) BDK_WALLET_TX_GRAPH a = Inr g"
    "table_part (part_decode (wl_indexer W)) (kv_table kv) BDK_WALLET_INDEXER a = Inr i"
    "cs = \<lparr>cs_descriptor = d, cs_change_descriptor = c, cs_network = n,
        cs_local_chain = (case l of None \<Rightarrow> part_default (wl_local_chain W) | Some v \<Rightarrow> v),
        cs_tx_graph = (case g of None \<Rightarrow> part_default (wl_tx_graph W) | Some v \<Rightarrow> v),
        cs_indexer = (case i of None \<Rightarrow> part_default (wl_indexer W) | Some v \<Rightarrow> v)\<rparr>"
    unfolding read_bdk_wallet_change_set_def read_parts_table [OF assms(1)] and_then_eq_Inr if_none_eq_some
    by (elim exE conjE) (rule that, (assumption | (drule sum.inject(2) [THEN iffD1], drule option.inject [THEN iffD1], erule sym))+)
  then show ?thesis
    by (cases l; cases g; cases i) (simp_all add: wallet_synced_def has_mandatory_def part_synced_def)
qed

text \<open>An account with no stored part is synchronised with the default change set.\<close>

lemma fresh_synced:
  assumes "\<And>t. t \<in> wallet_parts \<Longrightarrow> tbl t = None \<and> tbl (account_target t a) = None"
  shows "wallet_synced W tbl a (ChangeSet_default W)"
  using assms by (simp add: wallet_synced_def part_synced_def table_part_def ChangeSet_default_def)

lemma persist_run:
  assumes "sqlite_fresh kv" "latest_change_set p = Some cs" "\<not> wl_is_empty W change"
    and "persister_persist W (sqlite_ops alphabet max_len db) p kv change = (r, p', kv')"
  obtains v1 v2 v3 v4 v5 v6 cs' where
    "kv_table kv' = upd_opt (account_target BDK_WALLET_LOCAL_CHAIN (persister_account p)) v6
      (upd_opt (account_target BDK_WALLET_TX_GRAPH (persister_account p)) v5
      (upd_opt (account_target BDK_WALLET_INDEXER (persister_account p)) v4
      (upd_opt (account_target BDK_WALLET_NETWORK (persister_account p)) v3
      (upd_opt (account_target BDK_WALLET_CHANGE_DESCRIPTOR (persister_account p)) v2
      (upd_opt (account_target BDK_WALLET_DESCRIPTOR (persister_account p)) v1 (kv_table kv))))))"
    "p' = p\<lparr>latest_change_set := Some cs'\<rparr>"
    "cs_descriptor cs \<noteq> None \<longrightarrow> cs_descriptor cs' = cs_descriptor cs"
    "\<not> isl r \<longrightarrow> cs' = merge_change_set W cs change
      \<and> v1 = map_option (fst (wl_descriptor W)) (cs_descriptor change)
      \<and> v2 = map_option (fst (wl_descriptor W)) (cs_change_descriptor change)
      \<and> v3 = map_option (fst (wl_network W)) (cs_network change)
      \<and> v4 = part_bytes (wl_indexer W) (cs_indexer cs) (cs_indexer change)
      \<and> v5 = part_bytes (wl_tx_graph W) (cs_tx_graph cs) (cs_tx_graph change)
      \<and> v6 = part_bytes (wl_local_chain W) (cs_local_chain cs) (cs_local_chain change)"
proof -
  let ?ops = "sqlite_ops alphabet max_len db" and ?a = "persister_account p"
  obtain r1 c1 k1 where s1: "mandatory_steps W ?ops ?a change (Inr (), cs, kv) = (r1, c1, k1)"
    by (metis prod_cases3)
  obtain r2 c2 k2 where s2: "part_steps W ?ops ?a change (r1, c1, k1) = (r2, c2, k2)"
    by (metis prod_cases3)
  have out: "r = r2" "p' = p\<lparr>latest_change_set := Some c2\<rparr>" "kv' = k2"
    using assms(2-4) s2 by (simp_all add: persister_persist_def Let_def part_steps_def s1 [symmetric] mandatory_steps_def)
  obtain v1 v2 v3 where m: "sqlite_fresh k1"
    "kv_table k1 = upd_opt (account_target BDK_WALLET_NETWORK ?a) v3
      (upd_opt (account_target BDK_WALLET_CHANGE_DESCRIPTOR ?a) v2
      (upd_opt (account_target BDK_WALLET_DESCRIPTOR ?a) v1 (kv_table kv)))"
    "cs_descriptor cs \<noteq> None \<longrightarrow> cs_descriptor c1 = cs_descriptor cs"
    "\<not> isl r1 \<longrightarrow> v1 = map_option (fst (wl_descriptor W)) (cs_descriptor change)
      \<and> v2 = map_option (fst (wl_descriptor W)) (cs_change_descriptor change)
      \<and> v3 = map_option (fst (wl_network W)) (cs_network change)
      \<and> c1 = cs\<lparr>cs_descriptor := (if cs_descriptor change = None then cs_descriptor cs else cs_descriptor change),
          cs_change_descriptor :=
            (if cs_change_descriptor change = None then cs_change_descriptor cs else cs_change_descriptor change),
          cs_network := (if cs_network change = None then cs_network cs else cs_network change)\<rparr>"
    by (rule mandatory_steps_run [OF assms(1) s1])
  show ?thesis
  proof (rule part_steps_run [OF m(1) s2])
    fix v4 v5 v6
    assume "kv_table k2 = upd_opt (account_target BDK_WALLET_LOCAL_CHAIN ?a) v6
        (upd_opt (account_target BDK_WALLET_TX_GRAPH ?a) v5 (upd_opt (account_target BDK_WALLET_INDEXER ?a) v4 (kv_table k1)))"
      "cs_descriptor c2 = cs_descriptor c1"
      "\<not> isl r2 \<longrightarrow> \<not> isl r1 \<and> v4 = part_bytes (wl_indexer W) (cs_indexer c1) (cs_indexer change)
        \<and> v5 = part_bytes (wl_tx_graph W) (cs_tx_graph c1) (cs_tx_graph change)
        \<and> v6 = part_bytes (wl_local_chain W) (cs_local_chain c1) (cs_local_chain change)
        \<and> c2 = merge_change_set W c1 (change\<lparr>cs_descriptor := None, cs_change_descriptor := None, cs_network := None\<rparr>)"
    then show ?thesis
      using m(2-4) out by (intro that [of v6 v5 v4 v3 v2 v1 c2]) (auto simp: merge_change_set_def)
  qed
qed

abbreviation wallet_table ::
    "wallet_account \<Rightarrow> bytes option \<Rightarrow> bytes option \<Rightarrow> bytes option \<Rightarrow> bytes option \<Rightarrow> bytes option \<Rightarrow> bytes option
       \<Rightarrow> (kv_target \<rightharpoonup> bytes) \<Rightarrow> (kv_target \<rightharpoonup> bytes)" where
  "wallet_table a v1 v2 v3 v4 v5 v6 tbl \<equiv>
     upd_opt (account_target BDK_WALLET_LOCAL_CHAIN a) v6 (upd_opt (account_target BDK_WALLET_TX_GRAPH a) v5
     (upd_opt (account_target BDK_WALLET_INDEXER a) v4 (upd_opt (account_target BDK_WALLET_NETWORK a) v3
     (upd_opt (account_target BDK_WALLET_CHANGE_DESCRIPTOR a) v2
     (upd_opt (account_target BDK_WALLET_DESCRIPTOR a) v1 tbl)))))"

lemmas parts_upd = table_part_upd [OF parts_in(1)] table_part_upd [OF parts_in(2)] table_part_upd [OF parts_in(3)]
  table_part_upd [OF parts_in(4)] table_part_upd [OF parts_in(5)] table_part_upd [OF parts_in(6)]

lemma wallet_table_synced:
  assumes "wallet_synced W tbl a cs" "wallet_codecs W (merge_change_set W cs change)"
  shows "wallet_synced W (wallet_table a (map_option (fst (wl_descriptor W)) (cs_descriptor change))
      (map_option (fst (wl_descriptor W)) (cs_change_descriptor change)) (map_option (fst (wl_network W)) (cs_network change))
      (part_bytes (wl_indexer W) (cs_indexer cs) (cs_indexer change))
      (part_bytes (wl_tx_graph W) (cs_tx_graph cs) (cs_tx_graph change))
      (part_bytes (wl_local_chain W) (cs_local_chain cs) (cs_local_chain change)) tbl) a (merge_change_set W cs change)"
    (is "wallet_synced W ?tbl a ?cs")
proof -
  note facts = assms [unfolded wallet_synced_def part_synced_def wallet_codecs_def merge_change_set_def]
  have "table_part (snd (wl_descriptor W)) ?tbl BDK_WALLET_DESCRIPTOR a = Inr (cs_descriptor ?cs)"
    using facts by (cases "cs_descriptor change") (simp_all add: parts_upd part_ne [symmetric] merge_change_set_def)
  moreover have "table_part (snd (wl_descriptor W)) ?tbl BDK_WALLET_CHANGE_DESCRIPTOR a = Inr (cs_change_descriptor ?cs)"
    using facts by (cases "cs_change_descriptor change") (simp_all add: parts_upd part_ne [symmetric] merge_change_set_def)
  moreover have "table_part (snd (wl_network W)) ?tbl BDK_WALLET_NETWORK a = Inr (cs_network ?cs)"
    using facts by (cases "cs_network change") (simp_all add: parts_upd part_ne [symmetric] merge_change_set_def)
  moreover have "part_synced (wl_local_chain W) ?tbl BDK_WALLET_LOCAL_CHAIN a (cs_local_chain ?cs)"
    using facts
    by (cases "part_is_empty (wl_local_chain W) (cs_local_chain change)")
      (simp_all add: parts_upd part_ne [symmetric] part_bytes_def merge_change_set_def part_synced_def)
  moreover have "part_synced (wl_tx_graph W) ?tbl BDK_WALLET_TX_GRAPH a (cs_tx_graph ?cs)"
    using facts
    by (cases "part_is_empty (wl_tx_graph W) (cs_tx_graph change)")
      (simp_all add: parts_upd part_ne [symmetric] part_bytes_def merge_change_set_def part_synced_def)
  moreover have "part_synced (wl_indexer W) ?tbl BDK_WALLET_INDEXER a (cs_indexer ?cs)"
    using facts
    by (cases "part_is_empty (wl_indexer W) (cs_indexer change)")
      (simp_all add: parts_upd part_ne [symmetric] part_bytes_def merge_change_set_def part_synced_def)
  ultimately show ?thesis
    by (simp add: wallet_synced_def)
qed

lemma wallet_table_frame:
  assumes "b \<noteq> a" "t \<in> wallet_parts"
  shows "table_part dec (wallet_table a v1 v2 v3 v4 v5 v6 tbl) t b = table_part dec tbl t b"
  using assms by (simp add: parts_upd)

lemma wallet_read_frame:
  assumes "wallet_names_ok alphabet max_len" "b \<noteq> a" "kv_table kv' = wallet_table a v1 v2 v3 v4 v5 v6 (kv_table kv)"
  shows "read_bdk_wallet_change_set W (sqlite_ops alphabet max_len (\<lambda>_. True)) kv' b =
    read_bdk_wallet_change_set W (sqlite_ops alphabet max_len (\<lambda>_. True)) kv b"
  unfolding read_bdk_wallet_change_set_def read_parts_table [OF assms(1)] assms(3) wallet_table_frame [OF assms(2) parts_in(1)]
    wallet_table_frame [OF assms(2) parts_in(2)] wallet_table_frame [OF assms(2) parts_in(3)]
    wallet_table_frame [OF assms(2) parts_in(4)] wallet_table_frame [OF assms(2) parts_in(5)]
    wallet_table_frame [OF assms(2) parts_in(6)]
  by (rule refl)

lemma empty_merge: "emptiness_ok W \<Longrightarrow> wl_is_empty W change \<Longrightarrow> merge_change_set W cs change = cs"
  by (simp add: emptiness_ok_def merge_change_set_def)

text \<open>
  What the crates document of the change sets: the default ones are empty, and those of the local chain
  are maps from heights, merged by letting the new entries win.
\<close>

definition change_sets_ok :: "('d, 'g, 'i) wallet_libs \<Rightarrow> bool" where
  "change_sets_ok W \<longleftrightarrow> emptiness_ok W
     \<and> part_is_empty (wl_tx_graph W) (part_default (wl_tx_graph W))
     \<and> part_is_empty (wl_indexer W) (part_default (wl_indexer W))
     \<and> part_default (wl_local_chain W) = Map.empty
     \<and> (\<forall>m. part_is_empty (wl_local_chain W) m \<longrightarrow> m = Map.empty)
     \<and> part_merge (wl_local_chain W) = (++)"

lemma rewind_change_parts:
  assumes "change_sets_ok W"
  shows "cs_descriptor (rewind_change W blocks height hash) = None"
    "cs_change_descriptor (rewind_change W blocks height hash) = None"
    "cs_network (rewind_change W blocks height hash) = None"
    "part_is_empty (wl_tx_graph W) (cs_tx_graph (rewind_change W blocks height hash))"
    "part_is_empty (wl_indexer W) (cs_indexer (rewind_change W blocks height hash))"
    "\<not> part_is_empty (wl_local_chain W) (cs_local_chain (rewind_change W blocks height hash))"
    "cs_local_chain (rewind_change W blocks height hash) = (\<lambda>h. if h = height then Some (Some hash)
       else if height < h \<and> blocks h \<noteq> None then Some None else None)"
    "\<not> wl_is_empty W (rewind_change W blocks height hash)"
proof -
  show chain: "cs_local_chain (rewind_change W blocks height hash) = (\<lambda>h. if h = height then Some (Some hash)
       else if height < h \<and> blocks h \<noteq> None then Some None else None)"
    using assms by (auto simp: rewind_change_def change_sets_ok_def fun_eq_iff)
  have "cs_local_chain (rewind_change W blocks height hash) height \<noteq> None"
    by (simp add: chain)
  then show nonempty: "\<not> part_is_empty (wl_local_chain W) (cs_local_chain (rewind_change W blocks height hash))"
    using assms unfolding change_sets_ok_def by fastforce
  then show "\<not> wl_is_empty W (rewind_change W blocks height hash)"
    using assms by (auto simp: change_sets_ok_def emptiness_ok_def)
qed (use assms in \<open>simp_all add: rewind_change_def ChangeSet_default_def change_sets_ok_def\<close>)

lemma initialize_latest:
  assumes "persister_initialize W ops kv p = (Inr cs, p')"
  shows "latest_change_set p' = Some cs"
  using assms by (auto simp: persister_initialize_def Let_def split: option.splits sum.splits)

section \<open>Properties\<close>


text \<open>
  C35: Rewinding a wallet to a checkpoint, when it succeeds, leaves the checkpoint's block at its height,
  no block above it and the blocks below it as they were; the genesis block is never replaced by
  another. This holds for every store.
\<close>

theorem rewind_drops_blocks_above:
  assumes "change_sets_ok W" "rewind_to_checkpoint W ops p kv height hash = (Inr (), p', kv')"
  shows "\<exists>cs cs'. fst (persister_initialize W ops kv p) = Inr cs \<and> latest_change_set p' = Some cs'
    \<and> cs_local_chain cs' height = Some (Some hash)
    \<and> (\<forall>h. height < h \<longrightarrow> cs_local_chain cs' h = None \<or> cs_local_chain cs' h = Some None)
    \<and> (\<forall>h. h < height \<longrightarrow> cs_local_chain cs' h = cs_local_chain cs h)
    \<and> (height = 0 \<longrightarrow> cs_local_chain cs 0 = Some (Some hash))"
proof -
  obtain cs p1 where init: "persister_initialize W ops kv p = (Inr cs, p1)"
    and genesis: "height = 0 \<longrightarrow> cs_local_chain cs 0 = Some (Some hash)"
    and run: "persister_persist W ops p1 kv (rewind_change W (cs_local_chain cs) height hash) = (Inr (), p', kv')"
    using assms(2) by (auto simp: rewind_to_checkpoint_def split: prod.splits sum.splits if_splits)
  note parts = rewind_change_parts [OF assms(1), of "cs_local_chain cs" height hash]
  let ?chain = "cs_local_chain cs ++ cs_local_chain (rewind_change W (cs_local_chain cs) height hash)"
  have "latest_change_set p' = Some (cs\<lparr>cs_local_chain := ?chain\<rparr>)"
    using run assms(1) initialize_latest [OF init] parts
    by (auto simp: persister_persist_def persist_mandatory_def persist_part_def Let_def
        change_sets_ok_def split: prod.splits)
  then show ?thesis
    using init genesis by (intro exI [of _ cs] exI [of _ "cs\<lparr>cs_local_chain := ?chain\<rparr>"])
      (auto simp: parts(7) map_add_def split: option.splits)
qed

definition example_wallet_libs :: "(bytes, bytes, bytes) wallet_libs" where
  "example_wallet_libs =
     (let bytes_part = \<lparr>part_default = [], part_is_empty = (\<lambda>x. x = []), part_merge = (@),
            part_encode = (\<lambda>x. x), part_decode = Some\<rparr> in
      \<lparr>wl_descriptor = (\<lambda>d. d, Some), wl_network = (\<lambda>n. [], \<lambda>_. Some Regtest),
       wl_local_chain = \<lparr>part_default = Map.empty, part_is_empty = (\<lambda>m. m 0 = None), part_merge = (++),
         part_encode = (\<lambda>m. if m 0 = None then [] else [1]),
         part_decode = (\<lambda>b. Some (if b = [] then Map.empty else [0 \<mapsto> Some (BlockHash [9])]))\<rparr>,
       wl_tx_graph = bytes_part, wl_indexer = bytes_part, wl_is_empty = (\<lambda>cs. cs_descriptor cs = None \<and> cs_change_descriptor cs = None
         \<and> cs_network cs = None \<and> cs_local_chain cs 0 = None \<and> cs_tx_graph cs = [] \<and> cs_indexer cs = [])\<rparr>)"

definition example_change :: "(bytes, bytes, bytes) change_set" where
  "example_change =
     \<lparr>cs_descriptor = Some [1], cs_change_descriptor = Some [2], cs_network = Some Regtest,
      cs_local_chain = [0 \<mapsto> Some (BlockHash [9])], cs_tx_graph = [5], cs_indexer = []\<rparr>"

abbreviation example_persist ::
    "(unit, io_error) result \<times> (bytes, bytes, bytes) persister \<times> sqlite_store" where
  "example_persist \<equiv> persister_persist example_wallet_libs
     (sqlite_ops ''abcdefghijklmnopqrstuvwxyz_0123456789'' 120 (\<lambda>_. True))
     \<lparr>latest_change_set = Some (ChangeSet_default example_wallet_libs),
      persister_account = \<lparr>wa_address_type = Taproot, wa_account_index = 3\<rparr>\<rparr>
     (SqliteStore_new Map.empty) example_change"


abbreviation example_rewind ::
    "(unit, io_error) result \<times> (bytes, bytes, bytes) persister \<times> sqlite_store" where
  "example_rewind \<equiv> rewind_to_checkpoint
     (example_wallet_libs\<lparr>wl_local_chain := (wl_local_chain example_wallet_libs)\<lparr>part_is_empty := (\<lambda>m. False)\<rparr>,
       wl_is_empty := (\<lambda>cs. False)\<rparr>)
     (sqlite_ops ''abcdefghijklmnopqrstuvwxyz_0123456789'' 120 (\<lambda>_. True))
     \<lparr>latest_change_set = Some (example_change\<lparr>cs_local_chain := [5 \<mapsto> Some (BlockHash [7])]\<rparr>),
      persister_account = \<lparr>wa_address_type = Taproot, wa_account_index = 3\<rparr>\<rparr>
     (SqliteStore_new Map.empty) 4 (BlockHash [3])"

theorem rewind_drops_blocks_above_witness:
  "\<exists>cs'. latest_change_set (fst (snd example_rewind)) = Some cs' \<and> cs_local_chain cs' 4 = Some (Some (BlockHash [3]))
     \<and> (cs_local_chain cs' 5 = None \<or> cs_local_chain cs' 5 = Some None)"
proof -
  let ?W = "example_wallet_libs\<lparr>wl_local_chain := (wl_local_chain example_wallet_libs)\<lparr>part_is_empty := (\<lambda>m. False)\<rparr>,
       wl_is_empty := (\<lambda>cs. False)\<rparr>"
  have ok: "fst example_rewind = Inr ()"
    by code_simp
  have libs: "change_sets_ok ?W"
    by (simp add: change_sets_ok_def emptiness_ok_def example_wallet_libs_def Let_def)
  have "example_rewind = (Inr (), fst (snd example_rewind), snd (snd example_rewind))"
    using ok by (metis prod.collapse)
  from rewind_drops_blocks_above [OF libs this] obtain cs' where
    "latest_change_set (fst (snd example_rewind)) = Some cs'" "cs_local_chain cs' 4 = Some (Some (BlockHash [3]))"
    "\<forall>h. 4 < h \<longrightarrow> cs_local_chain cs' h = None \<or> cs_local_chain cs' h = Some None"
    by blast
  moreover have "(4 :: u32) < 5"
    by simp
  ultimately show ?thesis
    by blast
qed

end
