(* ===== verification/Node_Builder.thy ===== *)
theory Node_Builder
  imports Node_Config KV_Store Bdk_Types
begin

text \<open>
  The parts of \<open>src/builder.rs\<close> that prepare a node: the derivation paths of wallet accounts, loading
  or creating their wallets, checking the configured accounts, and writing the channel data migrated
  from another implementation. Key derivation, the BDK wallet and the channel monitors of LDK are
  parameters.
\<close>

section \<open>Errors\<close>

datatype build_error =
    BuildInvalidSeedBytes
  | BuildInvalidSeedFile
  | BuildInvalidSystemTime
  | BuildInvalidChannelMonitor
  | BuildInvalidListeningAddresses
  | BuildInvalidAnnouncementAddresses
  | BuildInvalidNodeAlias
  | BuildRuntimeSetupFailed
  | BuildReadFailed
  | BuildDangerousValue
  | BuildWriteFailed
  | BuildStoragePathAccessFailed
  | BuildKVStoreSetupFailed
  | BuildWalletSetupFailed
  | BuildLoggerSetupFailed
  | BuildNetworkMismatch
  | BuildAsyncPaymentsConfigMismatch

section \<open>Keys of accounts\<close>

text \<open>
  BIP 32 keys of type \<open>'x\<close> and child numbers of type \<open>'c\<close>: \<open>hardened_idx\<close> and \<open>normal_idx\<close> are
  \<open>ChildNumber::from_hardened_idx\<close> and \<open>from_normal_idx\<close>, which refuse an index that is too large.
\<close>

record ('x, 'c) key_lib =
  new_master :: "network \<Rightarrow> bytes \<Rightarrow> 'x option"
  hardened_idx :: "u32 \<Rightarrow> 'c option"
  normal_idx :: "u32 \<Rightarrow> 'c option"
  derive_priv :: "'x \<Rightarrow> 'c list \<Rightarrow> 'x option"
  xpub_string :: "'x \<Rightarrow> string"

definition bip_coin_type :: "network \<Rightarrow> u32" where
  "bip_coin_type n = (case n of Bitcoin \<Rightarrow> 0 | _ \<Rightarrow> 1)"

definition account_derivation_path ::
    "('x, 'c) key_lib \<Rightarrow> address_type \<Rightarrow> network \<Rightarrow> u32 \<Rightarrow> ('c list, build_error) result" where
  "account_derivation_path K address_type n account_index =
     (if MAX_ONCHAIN_WALLET_ACCOUNT_INDEX < account_index then Inl BuildInvalidSeedBytes
      else
        (let purpose = bip_purpose address_type;
             coin_type = bip_coin_type n in
         and_then (ok_or BuildInvalidSeedBytes (hardened_idx K purpose)) (\<lambda>c1.
         and_then (ok_or BuildInvalidSeedBytes (hardened_idx K coin_type)) (\<lambda>c2.
         and_then (ok_or BuildInvalidSeedBytes (hardened_idx K account_index)) (\<lambda>c3.
         Inr [c1, c2, c3])))))"

definition derive_account_xprv ::
    "('x, 'c) key_lib \<Rightarrow> 'x \<Rightarrow> network \<Rightarrow> address_type \<Rightarrow> u32 \<Rightarrow> ('x, build_error) result" where
  "derive_account_xprv K master_xprv n address_type account_index =
     and_then (account_derivation_path K address_type n account_index) (\<lambda>account_path.
     ok_or BuildInvalidSeedBytes (derive_priv K master_xprv account_path))"

definition derive_account_xpub_string ::
    "('x, 'c) key_lib \<Rightarrow> 'x \<Rightarrow> network \<Rightarrow> address_type \<Rightarrow> u32 \<Rightarrow> (string, build_error) result" where
  "derive_account_xpub_string K master_xprv n address_type account_index =
     and_then (derive_account_xprv K master_xprv n address_type account_index) (\<lambda>account_xprv.
     Inr (xpub_string K account_xprv))"

definition account_keychain_derivation_path ::
    "('x, 'c) key_lib \<Rightarrow> address_type \<Rightarrow> network \<Rightarrow> u32 \<Rightarrow> keychain_kind \<Rightarrow> ('c list, build_error) result" where
  "account_keychain_derivation_path K address_type n account_index keychain =
     and_then (account_derivation_path K address_type n account_index) (\<lambda>path.
     (let keychain_index = (case keychain of External \<Rightarrow> 0 | Internal \<Rightarrow> 1) in
      and_then (ok_or BuildInvalidSeedBytes (normal_idx K keychain_index)) (\<lambda>c. Inr (path @ [c]))))"

definition derive_xprv ::
    "('x, 'c) key_lib \<Rightarrow> network \<Rightarrow> bytes \<Rightarrow> 'c \<Rightarrow> ('x, build_error) result" where
  "derive_xprv K n seed_bytes hardened_child =
     and_then (ok_or BuildInvalidSeedBytes (new_master K n seed_bytes)) (\<lambda>xprv.
     ok_or BuildInvalidSeedBytes (derive_priv K xprv [hardened_child]))"

section \<open>Loading or creating a wallet\<close>

text \<open>The descriptor templates of BDK: of the master key, or of a key with its derivation path.\<close>

datatype ('x, 'c) descriptor_template =
    Bip44 'x keychain_kind
  | Bip49 'x keychain_kind
  | Bip84 'x keychain_kind
  | Bip86 'x keychain_kind
  | P2Pkh 'x "'c list"
  | P2Wpkh_P2Sh 'x "'c list"
  | P2Wpkh 'x "'c list"
  | P2TR 'x "'c list"

datatype load_error = LoadNetworkMismatch | LoadOther

record ('w, 'p, 'x, 'c) wallet_setup_lib =
  load_wallet :: "('x, 'c) descriptor_template \<Rightarrow> ('x, 'c) descriptor_template \<Rightarrow> network \<Rightarrow> u32 option \<Rightarrow> 'p
      \<Rightarrow> 'p \<times> ('w option, load_error) result"
  create_wallet :: "('x, 'c) descriptor_template \<Rightarrow> ('x, 'c) descriptor_template \<Rightarrow> network \<Rightarrow> u32 option \<Rightarrow> 'p
      \<Rightarrow> 'p \<times> 'w option"
  insert_checkpoint :: "'w \<Rightarrow> block_hash \<Rightarrow> u32 \<Rightarrow> 'w option"
  new_persister :: "wallet_account \<Rightarrow> 'p"

definition load_or_create ::
    "('w, 'p, 'x, 'c) wallet_setup_lib \<Rightarrow> network \<Rightarrow> u32 option \<Rightarrow> 'p \<Rightarrow> ('x, 'c) descriptor_template
       \<Rightarrow> ('x, 'c) descriptor_template \<Rightarrow> 'p \<times> ('w \<times> bool, build_error) result" where
  "load_or_create S n ahead p external internal =
     (case load_wallet S external internal n ahead p of
        (p, Inl LoadNetworkMismatch) \<Rightarrow> (p, Inl BuildNetworkMismatch)
      | (p, Inl LoadOther) \<Rightarrow> (p, Inl BuildWalletSetupFailed)
      | (p, Inr (Some w)) \<Rightarrow> (p, Inr (w, True))
      | (p, Inr None) \<Rightarrow>
          (case create_wallet S external internal n ahead p of
             (p, Some w) \<Rightarrow> (p, Inr (w, False))
           | (p, None) \<Rightarrow> (p, Inl BuildWalletSetupFailed)))"

fun account_zero_template :: "address_type \<Rightarrow> 'x \<Rightarrow> keychain_kind \<Rightarrow> ('x, 'c) descriptor_template" where
  "account_zero_template Legacy x k = Bip44 x k"
| "account_zero_template NestedSegwit x k = Bip49 x k"
| "account_zero_template NativeSegwit x k = Bip84 x k"
| "account_zero_template Taproot x k = Bip86 x k"

fun derived_template :: "address_type \<Rightarrow> 'x \<Rightarrow> 'c list \<Rightarrow> ('x, 'c) descriptor_template" where
  "derived_template Legacy x path = P2Pkh x path"
| "derived_template NestedSegwit x path = P2Wpkh_P2Sh x path"
| "derived_template NativeSegwit x path = P2Wpkh x path"
| "derived_template Taproot x path = P2TR x path"

definition get_or_create_wallet_for_account ::
    "('x, 'c) key_lib \<Rightarrow> ('w, 'p, 'x, 'c) wallet_setup_lib \<Rightarrow> wallet_account \<Rightarrow> 'x \<Rightarrow> network \<Rightarrow> 'p \<Rightarrow> u32 option
       \<Rightarrow> 'p \<times> ('w \<times> bool, build_error) result" where
  "get_or_create_wallet_for_account K S account master_xprv n p ahead =
     (let t = wa_address_type account; i = wa_account_index account in
      if i = 0 then
        load_or_create S n ahead p (account_zero_template t master_xprv External)
          (account_zero_template t master_xprv Internal)
      else if MAX_ONCHAIN_WALLET_ACCOUNT_INDEX < i then (p, Inl BuildInvalidSeedBytes)
      else
        (case account_keychain_derivation_path K t n i External of
           Inl e \<Rightarrow> (p, Inl e)
         | Inr external_path \<Rightarrow>
             (case account_keychain_derivation_path K t n i Internal of
                Inl e \<Rightarrow> (p, Inl e)
              | Inr internal_path \<Rightarrow>
                  load_or_create S n ahead p (derived_template t master_xprv external_path)
                    (derived_template t master_xprv internal_path))))"

text \<open>\<open>str::trim\<close>: the code points with the property \<open>White_Space\<close> are removed at both ends.\<close>

definition is_whitespace :: "nat \<Rightarrow> bool" where
  "is_whitespace c \<longleftrightarrow> 9 \<le> c \<and> c \<le> 13 \<or> 0x2000 \<le> c \<and> c \<le> 0x200A
     \<or> c \<in> {0x20, 0x85, 0xA0, 0x1680, 0x2028, 0x2029, 0x202F, 0x205F, 0x3000}"

definition trim_by :: "('a \<Rightarrow> bool) \<Rightarrow> 'a list \<Rightarrow> 'a list" where
  "trim_by white s = rev (dropWhile white (rev (dropWhile white s)))"

definition trim :: "string \<Rightarrow> string" where
  "trim = trim_by (\<lambda>c. is_whitespace (of_char c))"

fun validate_accounts_loop ::
    "('x, 'c) key_lib \<Rightarrow> 'x \<Rightarrow> network \<Rightarrow> wallet_account list \<Rightarrow> wallet_account_config list
       \<Rightarrow> (wallet_account list, build_error) result" where
  "validate_accounts_loop K xprv n accounts [] = Inr accounts"
| "validate_accounts_loop K xprv n accounts (configured # rest) =
     (let account_index = wac_account_index configured in
      if account_index = 0 \<or> MAX_ONCHAIN_WALLET_ACCOUNT_INDEX < account_index then Inl BuildInvalidSeedBytes
      else
        (let account = \<lparr>wa_address_type = wac_address_type configured, wa_account_index = account_index\<rparr> in
         and_then (derive_account_xpub_string K xprv n (wac_address_type configured) account_index) (\<lambda>expected_xpub.
         if trim (wac_xpub configured) \<noteq> expected_xpub then Inl BuildInvalidSeedBytes
         else validate_accounts_loop K xprv n
                (if account \<in> set accounts then accounts else accounts @ [account]) rest)))"

definition validate_configured_onchain_wallet_accounts ::
    "('x, 'c) key_lib \<Rightarrow> ('addr, 'route) config \<Rightarrow> 'x \<Rightarrow> (wallet_account list, build_error) result" where
  "validate_configured_onchain_wallet_accounts K c xprv =
     validate_accounts_loop K xprv (cfg_network c) [] (cfg_onchain_wallet_accounts c)"

definition build_wallet_for_account ::
    "('x, 'c) key_lib \<Rightarrow> ('w, 'p, 'x, 'c) wallet_setup_lib \<Rightarrow> ('addr, 'route) config \<Rightarrow> wallet_account \<Rightarrow> 'x
       \<Rightarrow> (block_hash \<times> u32) option \<Rightarrow> u32 option \<Rightarrow> (wallet_account \<times> 'w \<times> 'p, build_error) result" where
  "build_wallet_for_account K S c account xprv chain_tip_opt ahead =
     (case get_or_create_wallet_for_account K S account xprv (cfg_network c) (new_persister S account) ahead of
        (p, Inl e) \<Rightarrow> Inl e
      | (p, Inr (w, loaded_from_store)) \<Rightarrow>
          if loaded_from_store then Inr (account, w, p)
          else
            (case chain_tip_opt of
               None \<Rightarrow> Inr (account, w, p)
             | Some (hash, height) \<Rightarrow>
                 (case insert_checkpoint S w hash height of
                    None \<Rightarrow> Inl BuildWalletSetupFailed
                  | Some w' \<Rightarrow> Inr (account, w', p))))"

text \<open>A monitored address type whose wallet cannot be set up is left out, a configured account is an error.\<close>

definition build_additional_wallets ::
    "('x, 'c) key_lib \<Rightarrow> ('w, 'p, 'x, 'c) wallet_setup_lib \<Rightarrow> ('addr, 'route) config \<Rightarrow> wallet_account list \<Rightarrow> 'x
       \<Rightarrow> (block_hash \<times> u32) option \<Rightarrow> u32 \<Rightarrow> ((wallet_account \<times> 'w \<times> 'p) list, build_error) result" where
  "build_additional_wallets K S c configured_accounts xprv chain_tip_opt ahead =
     (let monitored = List.map_filter (\<lambda>t.
            case build_wallet_for_account K S c (account_zero t) xprv chain_tip_opt None of
              Inr tuple \<Rightarrow> Some tuple
            | Inl e \<Rightarrow> None) (Config_additional_address_types c)
      in fold (\<lambda>account r.
           and_then r (\<lambda>wallets.
           and_then (build_wallet_for_account K S c account xprv chain_tip_opt (Some ahead)) (\<lambda>tuple.
           Inr (wallets @ [tuple])))) configured_accounts (Inr monitored))"

datatype chain_data_source =
    SourceEsplora
  | SourceElectrum "u32 option"
  | SourceBitcoind

text \<open>
  The scan window of derived accounts; \<open>DEFAULT_LOOKAHEAD\<close> is the constant of \<open>bdk_chain\<close>.
\<close>

definition BDK_CLIENT_STOP_GAP :: u32 where
  "BDK_CLIENT_STOP_GAP = 20"

definition derived_account_lookahead :: "u32 \<Rightarrow> chain_data_source option \<Rightarrow> u32" where
  "derived_account_lookahead DEFAULT_LOOKAHEAD source =
     (case source of
        Some (SourceElectrum sync_config) \<Rightarrow> max (case sync_config of Some g \<Rightarrow> g | None \<Rightarrow> BDK_CLIENT_STOP_GAP) 1
      | Some SourceBitcoind \<Rightarrow> DEFAULT_LOOKAHEAD
      | Some SourceEsplora \<Rightarrow> BDK_CLIENT_STOP_GAP
      | None \<Rightarrow> BDK_CLIENT_STOP_GAP)"

section \<open>The alias of the node\<close>

text \<open>A Rust string is a list of code points; \<open>as_bytes\<close> is their UTF-8 encoding.\<close>

definition utf8_char :: "nat \<Rightarrow> bytes" where
  "utf8_char c =
     (if c < 0x80 then [of_nat c]
      else if c < 0x800 then [of_nat (0xC0 + c div 64), of_nat (0x80 + c mod 64)]
      else if c < 0x10000 then
        [of_nat (0xE0 + c div 4096), of_nat (0x80 + c div 64 mod 64), of_nat (0x80 + c mod 64)]
      else
        [of_nat (0xF0 + c div 262144), of_nat (0x80 + c div 4096 mod 64), of_nat (0x80 + c div 64 mod 64),
         of_nat (0x80 + c mod 64)])"

definition as_bytes :: "nat list \<Rightarrow> bytes" where
  "as_bytes s = concat (map utf8_char s)"

definition sanitize_alias :: "nat list \<Rightarrow> (bytes, build_error) result" where
  "sanitize_alias alias_str =
     (let alias = trim_by is_whitespace alias_str in
      if 32 < length (as_bytes alias) then Inl BuildInvalidNodeAlias
      else Inr (as_bytes alias @ replicate (32 - length (as_bytes alias)) 0))"

section \<open>Migrating channel data\<close>

record channel_data_migration =
  mig_channel_manager :: "bytes option"
  mig_channel_monitors :: "bytes list"

text \<open>
  The channel monitors of LDK, of type \<open>'m\<close>, their codec, and the places of the channel manager and
  the monitors in the store, which are constants of the \<open>lightning\<close> crate.
\<close>

record 'm monitor_lib =
  monitor_read :: "bytes \<Rightarrow> 'm option"
  monitor_funding_txo :: "'m \<Rightarrow> txid \<times> u16"
  monitor_latest_update_id :: "'m \<Rightarrow> u64"
  txid_display :: "txid \<Rightarrow> string"
  manager_target :: kv_target
  monitor_namespaces :: "string \<times> string"

definition monitor_target :: "'m monitor_lib \<Rightarrow> 'm \<Rightarrow> kv_target" where
  "monitor_target M m =
     (case monitor_funding_txo M m of (i, index) \<Rightarrow>
        (fst (monitor_namespaces M), snd (monitor_namespaces M),
         txid_display M i @ ''_'' @ decimal (unat index)))"

definition migrate_channel_manager ::
    "'m monitor_lib \<Rightarrow> 'kv kv_ops \<Rightarrow> bytes option \<Rightarrow> 'kv \<Rightarrow> (unit, build_error) result \<times> 'kv" where
  "migrate_channel_manager M ops manager kv =
     (case manager of
        None \<Rightarrow> (Inr (), kv)
      | Some manager_bytes \<Rightarrow>
          (case kv_read ops kv (manager_target M) of
             Inr existing_data \<Rightarrow> (Inr (), kv)
           | Inl e \<Rightarrow>
               if e = NotFound then
                 (case kv_write ops kv (manager_target M) manager_bytes of
                    (Inr _, kv) \<Rightarrow> (Inr (), kv)
                  | (Inl _, kv) \<Rightarrow> (Inl BuildWriteFailed, kv))
               else (Inl BuildReadFailed, kv)))"

definition should_write_monitor ::
    "'m monitor_lib \<Rightarrow> 'kv kv_ops \<Rightarrow> 'm \<Rightarrow> 'kv \<Rightarrow> (bool, build_error) result" where
  "should_write_monitor M ops channel_monitor kv =
     (case kv_read ops kv (monitor_target M channel_monitor) of
        Inr existing_data \<Rightarrow>
          (case monitor_read M existing_data of
             Some existing_monitor \<Rightarrow>
               Inr (\<not> monitor_latest_update_id M channel_monitor \<le> monitor_latest_update_id M existing_monitor)
           | None \<Rightarrow> Inr False)
      | Inl e \<Rightarrow> if e = NotFound then Inr True else Inl BuildReadFailed)"

fun migrate_channel_monitors ::
    "'m monitor_lib \<Rightarrow> 'kv kv_ops \<Rightarrow> bytes list \<Rightarrow> 'kv \<Rightarrow> (unit, build_error) result \<times> 'kv" where
  "migrate_channel_monitors M ops [] kv = (Inr (), kv)"
| "migrate_channel_monitors M ops (monitor_data # rest) kv =
     (case monitor_read M monitor_data of
        None \<Rightarrow> (Inl BuildReadFailed, kv)
      | Some channel_monitor \<Rightarrow>
          (case should_write_monitor M ops channel_monitor kv of
             Inl e \<Rightarrow> (Inl e, kv)
           | Inr False \<Rightarrow> migrate_channel_monitors M ops rest kv
           | Inr True \<Rightarrow>
               (case kv_write ops kv (monitor_target M channel_monitor) monitor_data of
                  (Inr _, kv) \<Rightarrow> migrate_channel_monitors M ops rest kv
                | (Inl _, kv) \<Rightarrow> (Inl BuildWriteFailed, kv))))"

definition apply_channel_data_migration ::
    "'m monitor_lib \<Rightarrow> 'kv kv_ops \<Rightarrow> channel_data_migration \<Rightarrow> 'kv \<Rightarrow> (unit, build_error) result \<times> 'kv" where
  "apply_channel_data_migration M ops migration kv =
     (case migrate_channel_manager M ops (mig_channel_manager migration) kv of
        (Inl e, kv) \<Rightarrow> (Inl e, kv)
      | (Inr _, kv) \<Rightarrow> migrate_channel_monitors M ops (mig_channel_monitors migration) kv)"

section \<open>Derivation paths\<close>

text \<open>Distinct accounts of a network never share keys, when distinct indexes give distinct child numbers.\<close>

lemma bip_purpose_inject: "bip_purpose s = bip_purpose t \<longleftrightarrow> s = t"
  by (cases s; cases t) simp_all

lemma account_paths_distinct:
  assumes "\<And>i j c. hardened_idx K i = Some c \<Longrightarrow> hardened_idx K j = Some c \<Longrightarrow> i = j"
    and "account_derivation_path K s n i = Inr path" "account_derivation_path K t n j = Inr path"
  shows "s = t \<and> i = j"
proof -
  obtain c1 c2 c3 where "path = [c1, c2, c3]" "hardened_idx K (bip_purpose s) = Some c1" "hardened_idx K i = Some c3"
    using assms(2) by (auto simp: account_derivation_path_def Let_def split: if_splits)
  moreover from this have "hardened_idx K (bip_purpose t) = Some c1" "hardened_idx K j = Some c3"
    using assms(3) by (auto simp: account_derivation_path_def Let_def split: if_splits)
  ultimately show ?thesis
    using assms(1) [of "bip_purpose s" c1 "bip_purpose t"] assms(1) [of i c3 j] by (simp add: bip_purpose_inject)
qed

text \<open>The accounts that pass the check are derived, distinct, and exactly the configured ones.\<close>

lemma validate_accounts_loop_sound:
  assumes "validate_accounts_loop K xprv n accounts configured = Inr result" "distinct accounts"
  shows "distinct result \<and> set result = set accounts \<union>
      (\<lambda>c. \<lparr>wa_address_type = wac_address_type c, wa_account_index = wac_account_index c\<rparr>) ` set configured
    \<and> (\<forall>c \<in> set configured. 0 < wac_account_index c \<and> wac_account_index c \<le> MAX_ONCHAIN_WALLET_ACCOUNT_INDEX
         \<and> derive_account_xpub_string K xprv n (wac_address_type c) (wac_account_index c) = Inr (trim (wac_xpub c)))"
  using assms
proof (induction configured arbitrary: accounts)
  case Nil
  then show ?case
    by simp
next
  case (Cons c configured)
  let ?a = "\<lparr>wa_address_type = wac_address_type c, wa_account_index = wac_account_index c\<rparr>"
  let ?accounts = "if ?a \<in> set accounts then accounts else accounts @ [?a]"
  have c: "wac_account_index c \<noteq> 0" "wac_account_index c \<le> MAX_ONCHAIN_WALLET_ACCOUNT_INDEX"
    "derive_account_xpub_string K xprv n (wac_address_type c) (wac_account_index c) = Inr (trim (wac_xpub c))"
    and rest: "validate_accounts_loop K xprv n ?accounts configured = Inr result"
    using Cons.prems(1) by (auto simp: Let_def split: if_splits)
  have "distinct ?accounts" "set ?accounts = insert ?a (set accounts)"
    using Cons.prems(2) by auto
  with Cons.IH [OF rest] c show ?case
    by (auto simp: word_neq_0_conv)
qed

lemma validate_configured_accounts_sound:
  assumes "validate_configured_onchain_wallet_accounts K c xprv = Inr accounts"
  shows "distinct accounts" "\<forall>a \<in> set accounts. is_derived a"
proof -
  note sound = validate_accounts_loop_sound [OF assms [unfolded validate_configured_onchain_wallet_accounts_def]]
  show "distinct accounts"
    using sound by simp
  show "\<forall>a \<in> set accounts. is_derived a"
    using sound by (auto simp: is_derived_def word_le_nat_alt word_less_nat_alt)
qed

lemma sanitized_alias_length:
  assumes "sanitize_alias s = Inr b"
  shows "length b = 32 \<and> (\<exists>n. b = as_bytes (trim_by is_whitespace s) @ replicate n 0)"
  using assms by (auto simp: sanitize_alias_def Let_def split: if_splits)

section \<open>The stored channel data\<close>

definition not_older :: "'m monitor_lib \<Rightarrow> bytes \<Rightarrow> bytes \<Rightarrow> bool" where
  "not_older M b b' \<longleftrightarrow> b' = b \<or>
     (\<exists>m m'. monitor_read M b = Some m \<and> monitor_read M b' = Some m'
        \<and> monitor_latest_update_id M m < monitor_latest_update_id M m')"

lemma not_older_refl [simp]: "not_older M b b"
  by (simp add: not_older_def)

lemma not_older_trans: "not_older M a b \<Longrightarrow> not_older M b c \<Longrightarrow> not_older M a c"
  by (auto simp: not_older_def)

context kv_store
begin

text \<open>What a run over some monitors keeps, whether it succeeds or not.\<close>

lemma should_write_sound:
  assumes "invar kv" "should_write_monitor M ops m kv = Inr w"
  shows "w \<longrightarrow> contents kv (monitor_target M m) = None \<or>
      (\<exists>b s. contents kv (monitor_target M m) = Some b \<and> monitor_read M b = Some s
         \<and> monitor_latest_update_id M s < monitor_latest_update_id M m)"
    and "\<not> w \<longrightarrow> (\<exists>b. contents kv (monitor_target M m) = Some b
         \<and> (\<forall>s. monitor_read M b = Some s \<longrightarrow> monitor_latest_update_id M m \<le> monitor_latest_update_id M s))"
proof -
  consider (found) b where "kv_read ops kv (monitor_target M m) = Inr b" "contents kv (monitor_target M m) = Some b"
    | (absent) "kv_read ops kv (monitor_target M m) = Inl NotFound" "contents kv (monitor_target M m) = None"
    using assms by (cases "kv_read ops kv (monitor_target M m)")
      (auto simp: should_write_monitor_def dest: read_ok read_not_found split: if_splits)
  then show "w \<longrightarrow> contents kv (monitor_target M m) = None \<or>
      (\<exists>b s. contents kv (monitor_target M m) = Some b \<and> monitor_read M b = Some s
         \<and> monitor_latest_update_id M s < monitor_latest_update_id M m)"
    and "\<not> w \<longrightarrow> (\<exists>b. contents kv (monitor_target M m) = Some b
         \<and> (\<forall>s. monitor_read M b = Some s \<longrightarrow> monitor_latest_update_id M m \<le> monitor_latest_update_id M s))"
    using assms(2) by (cases; auto simp: should_write_monitor_def not_le split: option.splits)+
qed

lemma migrate_monitors_keep:
  assumes "invar kv" "migrate_channel_monitors M ops ds kv = (r, kv')"
  shows "invar kv' \<and> (\<forall>t b. contents kv t = Some b \<longrightarrow> (\<exists>b'. contents kv' t = Some b' \<and> not_older M b b'))
    \<and> (\<forall>t. contents kv' t \<noteq> contents kv t \<longrightarrow>
         (\<exists>d \<in> set ds. \<exists>m. monitor_read M d = Some m \<and> t = monitor_target M m))"
  using assms
proof (induction ds arbitrary: kv)
  case Nil
  then show ?case
    by simp
next
  case (Cons d ds)
  show ?case
  proof (cases "monitor_read M d")
    case None
    then show ?thesis
      using Cons.prems by simp
  next
    case (Some m)
    consider (fail) e where "should_write_monitor M ops m kv = Inl e"
      | (skip) "should_write_monitor M ops m kv = Inr False"
      | (put) "should_write_monitor M ops m kv = Inr True"
      by (cases "should_write_monitor M ops m kv") auto
    then show ?thesis
    proof cases
      case fail
      then show ?thesis
        using Cons.prems Some by simp
    next
      case skip
      then have "migrate_channel_monitors M ops ds kv = (r, kv')"
        using Cons.prems(2) Some by simp
      from Cons.IH [OF Cons.prems(1) this] show ?thesis
        by auto
    next
      case put
      obtain w kv1 where w: "kv_write ops kv (monitor_target M m) d = (w, kv1)"
        by (metis prod.exhaust)
      note inv1 = invar_write [OF Cons.prems(1) w] and c1 = contents_write [OF Cons.prems(1) w]
      show ?thesis
      proof (cases w)
        case (Inl e)
        then show ?thesis
          using Cons.prems(2) Some put w inv1 c1 by simp
      next
        case (Inr u)
        then have "migrate_channel_monitors M ops ds kv1 = (r, kv')"
          using Cons.prems(2) Some put w by simp
        note rest = Cons.IH [OF inv1 this]
        have old: "\<exists>b'. contents kv1 t = Some b' \<and> not_older M b b'" if "contents kv t = Some b" for t b
          using that should_write_sound(1) [OF Cons.prems(1) put] c1 Inr Some by (auto simp: not_older_def)
        have "\<exists>b'. contents kv' t = Some b' \<and> not_older M b b'" if "contents kv t = Some b" for t b
          using old [OF that] rest not_older_trans by blast
        moreover have "contents kv' t = contents kv t"
          if "\<not> (\<exists>d \<in> set (d # ds). \<exists>m. monitor_read M d = Some m \<and> t = monitor_target M m)" for t
        proof -
          have "t \<noteq> monitor_target M m"
            using that Some by (metis list.set_intros(1))
          then have "contents kv1 t = contents kv t"
            using c1 Inr by simp
          moreover have "contents kv' t = contents kv1 t"
            using that rest by (meson list.set_intros(2))
          ultimately show ?thesis
            by simp
        qed
        ultimately show ?thesis
          using rest by blast
      qed
    qed
  qed
qed

end

context kv_store
begin

lemma migrate_monitors_present:
  assumes "invar kv" "migrate_channel_monitors M ops ds kv = (Inr u, kv')" "d \<in> set ds"
  shows "\<exists>m b. monitor_read M d = Some m \<and> contents kv' (monitor_target M m) = Some b
    \<and> (\<forall>s. monitor_read M b = Some s \<longrightarrow> monitor_latest_update_id M m \<le> monitor_latest_update_id M s)"
  using assms
proof (induction ds arbitrary: kv)
  case (Cons x ds)
  obtain m where m: "monitor_read M x = Some m"
    using Cons.prems(2) by (cases "monitor_read M x") auto
  have "\<exists>w. should_write_monitor M ops m kv = Inr w"
    using Cons.prems(2) m by (cases "should_write_monitor M ops m kv") auto
  then obtain w where w: "should_write_monitor M ops m kv = Inr w" ..
  obtain kv1 b where kv1: "invar kv1" "migrate_channel_monitors M ops ds kv1 = (Inr u, kv')"
    "contents kv1 (monitor_target M m) = Some b"
    "\<forall>s. monitor_read M b = Some s \<longrightarrow> monitor_latest_update_id M m \<le> monitor_latest_update_id M s"
  proof (cases w)
    case False
    then show thesis
      using Cons.prems(1,2) m w should_write_sound(2) [OF Cons.prems(1) w] that [of kv] by auto
  next
    case True
    obtain v kv1 where v: "kv_write ops kv (monitor_target M m) x = (v, kv1)"
      by (metis prod.exhaust)
    then show thesis
      using Cons.prems(2) m w True invar_write [OF Cons.prems(1) v] contents_write [OF Cons.prems(1) v] that [of kv1 x]
      by (cases v) auto
  qed
  show ?case
  proof (cases "d \<in> set ds")
    case True
    then show ?thesis
      using Cons.IH [OF kv1(1,2)] by blast
  next
    case False
    then have "d = x"
      using Cons.prems(3) by simp
    moreover obtain b' where "contents kv' (monitor_target M m) = Some b'" "not_older M b b'"
      using migrate_monitors_keep [OF kv1(1,2)] kv1(3) by blast
    ultimately show ?thesis
      using m kv1(4) by (force simp: not_older_def)
  qed
qed simp

lemma migrate_manager_keep:
  assumes "invar kv" "migrate_channel_manager M ops manager kv = (r, kv')"
  shows "invar kv'" "\<And>t. contents kv' t \<noteq> contents kv t \<Longrightarrow> t = manager_target M \<and> contents kv t = None"
proof -
  consider (same) "kv' = kv"
    | (put) w b where "kv_read ops kv (manager_target M) = Inl NotFound" "kv_write ops kv (manager_target M) b = (w, kv')"
    using assms(2) by (auto simp: migrate_channel_manager_def split: option.splits sum.splits prod.splits if_splits)
  then show "invar kv'" "\<And>t. contents kv' t \<noteq> contents kv t \<Longrightarrow> t = manager_target M \<and> contents kv t = None"
    using assms(1) contents_write [OF assms(1)] invar_write [OF assms(1)] read_not_found [OF assms(1)]
    by (cases; auto split: if_splits)+
qed

end

section \<open>Properties\<close>

text \<open>
  C36: Migrating channel data never sets a channel back: whether it succeeds or fails, a stored channel
  manager is kept, a stored monitor is kept or replaced by one with a higher update id, and nothing
  else is touched. When it succeeds every migrated monitor is in the store, unless there was a
  newer or an unreadable one in its place.
\<close>

theorem migration_never_regresses:
  assumes "sqlite_fresh kv" "fst (manager_target M) \<noteq> fst (monitor_namespaces M)"
    and "apply_channel_data_migration M (sqlite_ops alphabet max_len db) migration kv = (r, kv')"
  shows "(\<forall>b. kv_table kv (manager_target M) = Some b \<longrightarrow> kv_table kv' (manager_target M) = Some b)
    \<and> (\<forall>t b. kv_table kv t = Some b \<longrightarrow> (\<exists>b'. kv_table kv' t = Some b' \<and> not_older M b b'))
    \<and> (\<forall>t. kv_table kv' t \<noteq> kv_table kv t \<longrightarrow> t = manager_target M
         \<or> (\<exists>d \<in> set (mig_channel_monitors migration). \<exists>m. monitor_read M d = Some m \<and> t = monitor_target M m))
    \<and> (r = Inr () \<longrightarrow> (\<forall>d \<in> set (mig_channel_monitors migration). \<exists>m b.
         monitor_read M d = Some m \<and> kv_table kv' (monitor_target M m) = Some b
         \<and> (\<forall>s. monitor_read M b = Some s \<longrightarrow> monitor_latest_update_id M m \<le> monitor_latest_update_id M s)))"
proof -
  let ?ops = "sqlite_ops alphabet max_len db"
  obtain r1 kv1 where run1: "migrate_channel_manager M ?ops (mig_channel_manager migration) kv = (r1, kv1)"
    by (metis prod.exhaust)
  note keep1 = sqlite.migrate_manager_keep [OF assms(1) run1]
  have not_manager: "monitor_target M m \<noteq> manager_target M" for m
    using assms(2) by (cases "monitor_funding_txo M m") (metis fst_conv monitor_target_def old.prod.case)
  show ?thesis
  proof (cases r1)
    case (Inl e)
    then have "r = Inl e" "kv' = kv1"
      using assms(3) run1 by (simp_all add: apply_channel_data_migration_def)
    moreover have "kv_table kv1 t = Some b" if "kv_table kv t = Some b" for t b
      using keep1(2) [of t] that by force
    ultimately show ?thesis
      using keep1(2) not_older_refl by blast
  next
    case (Inr u)
    then have run2: "migrate_channel_monitors M ?ops (mig_channel_monitors migration) kv1 = (r, kv')"
      using assms(3) run1 by (simp add: apply_channel_data_migration_def)
    note keep2 = sqlite.migrate_monitors_keep [OF keep1(1) run2]
    have same1: "kv_table kv1 t = Some b" if "kv_table kv t = Some b" for t b
      using keep1(2) [of t] that by force
    have "\<forall>b. kv_table kv (manager_target M) = Some b \<longrightarrow> kv_table kv' (manager_target M) = Some b"
    proof -
      have "kv_table kv' (manager_target M) = kv_table kv1 (manager_target M)"
        using keep2 not_manager by metis
      then show ?thesis
        using same1 [of "manager_target M"] by simp
    qed
    moreover have "\<forall>t b. kv_table kv t = Some b \<longrightarrow> (\<exists>b'. kv_table kv' t = Some b' \<and> not_older M b b')"
      using keep2 same1 by blast
    moreover have "\<forall>t. kv_table kv' t \<noteq> kv_table kv t \<longrightarrow> t = manager_target M
         \<or> (\<exists>d \<in> set (mig_channel_monitors migration). \<exists>m. monitor_read M d = Some m \<and> t = monitor_target M m)"
      using keep1(2) keep2 by metis
    moreover have "r = Inr () \<longrightarrow> (\<forall>d \<in> set (mig_channel_monitors migration). \<exists>m b.
         monitor_read M d = Some m \<and> kv_table kv' (monitor_target M m) = Some b
         \<and> (\<forall>s. monitor_read M b = Some s \<longrightarrow> monitor_latest_update_id M m \<le> monitor_latest_update_id M s))"
    proof (intro impI ballI)
      fix d
      assume "r = Inr ()" "d \<in> set (mig_channel_monitors migration)"
      then show "\<exists>m b. monitor_read M d = Some m \<and> kv_table kv' (monitor_target M m) = Some b
         \<and> (\<forall>s. monitor_read M b = Some s \<longrightarrow> monitor_latest_update_id M m \<le> monitor_latest_update_id M s)"
        using sqlite.migrate_monitors_present [OF keep1(1)] run2 by simp
    qed
    ultimately show ?thesis
      by (intro conjI) assumption+
  qed
qed

text \<open>Monitors are their update id in one byte; the stored one is older than the first and newer than the second.\<close>

definition example_monitors :: "u64 monitor_lib" where
  "example_monitors =
     \<lparr>monitor_read = (\<lambda>bs. case bs of [b] \<Rightarrow> Some (ucast b) | _ \<Rightarrow> None),
      monitor_funding_txo = (\<lambda>m. (Txid [1], 0)), monitor_latest_update_id = (\<lambda>m. m),
      txid_display = (\<lambda>i. ''ab''), manager_target = ([], [], ''manager''),
      monitor_namespaces = (''monitors'', [])\<rparr>"

abbreviation example_migration :: "(unit, build_error) result \<times> sqlite_store" where
  "example_migration \<equiv> apply_channel_data_migration example_monitors
     (sqlite_ops ''abcdefghijklmnopqrstuvwxyz_0123456789'' 120 (\<lambda>_. True))
     \<lparr>mig_channel_manager = Some [9], mig_channel_monitors = [[7], [4]]\<rparr>
     (SqliteStore_new [([], [], ''manager'') \<mapsto> [8], (''monitors'', [], ''ab_0'') \<mapsto> [5]])"

theorem migration_never_regresses_witness:
  "kv_table (snd example_migration) ([], [], ''manager'') = Some [8]
   \<and> kv_table (snd example_migration) (''monitors'', [], ''ab_0'') = Some [7]"
proof -
  let ?kv = "SqliteStore_new [([], [], ''manager'') \<mapsto> [8], (''monitors'', [], ''ab_0'') \<mapsto> [5]]"
  have run: "kv_table (snd example_migration) (''monitors'', [], ''ab_0'') = Some [7]"
    by code_simp
  have fresh: "sqlite_fresh ?kv"
    by (simp add: sqlite_fresh_def SqliteStore_new_def)
  have names: "fst (manager_target example_monitors) \<noteq> fst (monitor_namespaces example_monitors)"
    by (simp add: example_monitors_def)
  have "example_migration = (fst example_migration, snd example_migration)"
    by simp
  from migration_never_regresses [OF fresh names this]
  have "\<forall>b. kv_table ?kv (manager_target example_monitors) = Some b \<longrightarrow>
      kv_table (snd example_migration) (manager_target example_monitors) = Some b"
    by (rule conjunct1)
  then show ?thesis
    using run by (simp only: run) (simp add: example_monitors_def SqliteStore_new_def)
qed

end
