(* ===== verification/Onchain_Wallet.thy ===== *)
theory Onchain_Wallet
  imports Agg_Build Node_Builder Fee_Estimator Payment_Store
begin

text \<open>
  \<open>Wallet\<close> of \<open>src/wallet/mod.rs\<close>: the node's on-chain wallet over the aggregate of BDK wallets. This
  theory has its state, the management of accounts, addresses, balances, the application of chain
  data and the payment records derived from it; transactions are built in the theory on sending.
  A method runs under the operation lock and the lock of the aggregate and is one step. A panic of
  the aggregate is \<open>None\<close>. The persisters hide the key-value store they write to, which has other
  keys than the ones written here.
\<close>

section \<open>State\<close>

record ('w, 'p, 'kv) onchain_wallet =
  ow_inner :: "(wallet_account, 'w, 'p) aggregate"
  ow_generation :: u64
  ow_synced_derived :: "wallet_account list"
  ow_update_pending :: bool
  ow_payments :: "(payment_id, payment_details) data_store"
  ow_kv :: 'kv
  ow_runtime :: address_type_runtime_config
  ow_metrics :: node_metrics
  ow_estimator :: onchain_fee_estimator
  ow_broadcasts :: "transaction list"

text \<open>
  What stays fixed: the crates, the store, the configuration, the seed and the clock. \<open>ol_rewind\<close> is
  the persister's rewinding to a checkpoint with its outcome, \<open>ol_txid_string\<close> the printed form of a
  transaction id, \<open>ol_txin_weight\<close> the segwit weight of a default input, \<open>ol_reorg_delay\<close> the constant
  \<open>ANTI_REORG_DELAY\<close> and \<open>ol_floor\<close> the relay floor of the \<open>lightning\<close> crate.
\<close>

record ('w, 'p, 'u, 'ev, 'blk, 'b, 'x, 'c, 'kv, 'addr, 'route) onchain_libs =
  ol_agg :: "('w, 'p, 'u, 'ev, 'blk, 'b) agg_libs"
  ol_keys :: "('x, 'c) key_lib"
  ol_setup :: "('w, 'p, 'x, 'c) wallet_setup_lib"
  ol_rewind :: "'p \<Rightarrow> u32 \<Rightarrow> block_hash \<Rightarrow> 'p \<times> bool"
  ol_kv :: "'kv kv_ops"
  ol_payment :: "payment_tlv \<Rightarrow> bytes"
  ol_config :: "('addr, 'route) config"
  ol_seed :: bytes
  ol_lookahead :: u32
  ol_now :: u64
  ol_txid_string :: "txid \<Rightarrow> string"
  ol_txin_weight :: u64
  ol_reorg_delay :: u32
  ol_floor :: u32

definition Wallet_new ::
    "('w, 'p, 'u, 'ev, 'blk, 'b, 'x, 'c, 'kv, 'addr, 'route) onchain_libs \<Rightarrow> 'w \<Rightarrow> 'p \<Rightarrow> (wallet_account \<times> 'w \<times> 'p) list
       \<Rightarrow> onchain_fee_estimator \<Rightarrow> (payment_id, payment_details) data_store \<Rightarrow> 'kv \<Rightarrow> address_type_runtime_config
       \<Rightarrow> node_metrics \<Rightarrow> ('w, 'p, 'kv) onchain_wallet" where
  "Wallet_new L wallet persister additional est payments kv rc metrics =
     \<lparr>ow_inner = aggregate_new wallet persister (account_zero (cfg_address_type (ol_config L))) additional,
      ow_generation = 0, ow_synced_derived = [], ow_update_pending = False, ow_payments = payments,
      ow_kv = kv, ow_runtime = rc, ow_metrics = metrics, ow_estimator = est, ow_broadcasts = []\<rparr>"

section \<open>Helpers\<close>

definition node_validate_derivation_index :: "u32 \<Rightarrow> (unit, node_error) result" where
  "node_validate_derivation_index i = (if BIP32_MAX_NORMAL_INDEX < i then Inl InvalidQuantity else Inr ())"

definition node_validate_derivation_range :: "u32 \<Rightarrow> u32 \<Rightarrow> (unit, node_error) result" where
  "node_validate_derivation_range start_index count =
     and_then (node_validate_derivation_index start_index) (\<lambda>_.
     if MAX_ADDRESS_INFO_BATCH_COUNT < count then Inl InvalidQuantity
     else if count = 0 then Inr ()
     else and_then (ok_or InvalidQuantity (checked_add start_index (count - 1))) node_validate_derivation_index)"

definition map_wallet_account_error :: "wallet_account \<Rightarrow> agg_error \<Rightarrow> node_error" where
  "map_wallet_account_error account e =
     (if e = AggWalletNotFound \<and> is_derived account then OnchainWalletAccountNotRegistered
      else WalletOperationFailed)"

text \<open>\<open>map_err\<close>, and running an operation of the aggregate.\<close>

definition map_err :: "('e \<Rightarrow> 'f) \<Rightarrow> ('a, 'e) result \<Rightarrow> ('a, 'f) result" where
  "map_err f r = (case r of Inl e \<Rightarrow> Inl (f e) | Inr x \<Rightarrow> Inr x)"

definition with_inner ::
    "('w, 'p, 'kv) onchain_wallet \<Rightarrow> (wallet_account, 'w, 'p) aggregate \<times> ('r, agg_error) result
       \<Rightarrow> (agg_error \<Rightarrow> node_error) \<Rightarrow> ('w, 'p, 'kv) onchain_wallet \<times> ('r, node_error) result" where
  "with_inner ow run err = (case run of (a, r) \<Rightarrow> (ow\<lparr>ow_inner := a\<rparr>, map_err err r))"

definition loaded_keys :: "('w, 'p, 'kv) onchain_wallet \<Rightarrow> wallet_account list" where
  "loaded_keys ow = map fst (agg_wallets (ow_inner ow))"

section \<open>The record of broadcast transactions\<close>

definition WALLET_BROADCAST_TXIDS_PRIMARY_NAMESPACE :: string where
  "WALLET_BROADCAST_TXIDS_PRIMARY_NAMESPACE = ''wallet_broadcast_txids''"

definition WALLET_BROADCAST_TXIDS_SECONDARY_NAMESPACE :: string where
  "WALLET_BROADCAST_TXIDS_SECONDARY_NAMESPACE = []"

definition broadcast_target ::
    "('w, 'p, 'u, 'ev, 'blk, 'b, 'x, 'c, 'kv, 'addr, 'route) onchain_libs \<Rightarrow> txid \<Rightarrow> kv_target" where
  "broadcast_target L i =
     (WALLET_BROADCAST_TXIDS_PRIMARY_NAMESPACE, WALLET_BROADCAST_TXIDS_SECONDARY_NAMESPACE, ol_txid_string L i)"

definition record_broadcast_txid ::
    "('w, 'p, 'u, 'ev, 'blk, 'b, 'x, 'c, 'kv, 'addr, 'route) onchain_libs \<Rightarrow> ('w, 'p, 'kv) onchain_wallet \<Rightarrow> txid
       \<Rightarrow> ('w, 'p, 'kv) onchain_wallet \<times> (unit, node_error) result" where
  "record_broadcast_txid L ow i =
     (case kv_write (ol_kv L) (ow_kv ow) (broadcast_target L i) [] of
        (r, kv) \<Rightarrow> (ow\<lparr>ow_kv := kv\<rparr>, map_err (\<lambda>_. PersistenceFailed) r))"

definition is_broadcast_by_wallet ::
    "('w, 'p, 'u, 'ev, 'blk, 'b, 'x, 'c, 'kv, 'addr, 'route) onchain_libs \<Rightarrow> ('w, 'p, 'kv) onchain_wallet \<Rightarrow> txid
       \<Rightarrow> (bool, node_error) result" where
  "is_broadcast_by_wallet L ow i =
     (case kv_read (ol_kv L) (ow_kv ow) (broadcast_target L i) of
        Inr _ \<Rightarrow> Inr True
      | Inl e \<Rightarrow> if e = NotFound then Inr False else Inl PersistenceFailed)"

text \<open>The funding outputs of the channels, as the channel manager lists them.\<close>

definition is_funding_transaction :: "outpoint option list \<Rightarrow> txid \<Rightarrow> bool" where
  "is_funding_transaction channels i =
     list_ex (\<lambda>c. case c of Some funding_txo \<Rightarrow> op_txid funding_txo = i | None \<Rightarrow> False) channels"

section \<open>Accounts\<close>

definition create_wallet_for_account ::
    "('w, 'p, 'u, 'ev, 'blk, 'b, 'x, 'c, 'kv, 'addr, 'route) onchain_libs \<Rightarrow> wallet_account \<Rightarrow> block_hash \<times> u32
       \<Rightarrow> u32 option \<Rightarrow> ('w \<times> 'p, node_error) result" where
  "create_wallet_for_account L account chain_tip ahead =
     (case new_master (ol_keys L) (cfg_network (ol_config L)) (ol_seed L) of
        None \<Rightarrow> Inl WalletOperationFailed
      | Some xprv \<Rightarrow>
          (case get_or_create_wallet_for_account (ol_keys L) (ol_setup L) account xprv (cfg_network (ol_config L))
                  (new_persister (ol_setup L) account) ahead of
             (p, Inl e) \<Rightarrow> Inl WalletOperationFailed
           | (p, Inr (w, loaded_from_store)) \<Rightarrow>
               if loaded_from_store then Inr (w, p)
               else
                 (case insert_checkpoint (ol_setup L) w (fst chain_tip) (snd chain_tip) of
                    None \<Rightarrow> Inl WalletOperationFailed
                  | Some w' \<Rightarrow> Inr (w', p))))"

text \<open>Creating the wallet of an account of index 0 and adding it to the aggregate.\<close>

definition load_account ::
    "('w, 'p, 'u, 'ev, 'blk, 'b, 'x, 'c, 'kv, 'addr, 'route) onchain_libs \<Rightarrow> ('w, 'p, 'kv) onchain_wallet
       \<Rightarrow> wallet_account \<Rightarrow> (('w, 'p, 'kv) onchain_wallet \<times> (unit, node_error) result) option" where
  "load_account L ow account =
     Option.bind (current_best_block (lib_ops (ol_agg L)) (ow_inner ow)) (\<lambda>tip.
     (case create_wallet_for_account L account tip None of
        Inl e \<Rightarrow> Some (ow, Inl e)
      | Inr (w, p) \<Rightarrow>
          (case with_inner ow (add_wallet (ow_inner ow) account w p) (\<lambda>_. WalletOperationFailed) of
             (ow, Inl e) \<Rightarrow> Some (ow, Inl e)
           | (ow, Inr _) \<Rightarrow> Some (ow\<lparr>ow_generation := ow_generation ow + 1\<rparr>, Inr ()))))"

definition add_monitored_address_type ::
    "('w, 'p, 'u, 'ev, 'blk, 'b, 'x, 'c, 'kv, 'addr, 'route) onchain_libs \<Rightarrow> ('w, 'p, 'kv) onchain_wallet
       \<Rightarrow> address_type \<Rightarrow> (('w, 'p, 'kv) onchain_wallet \<times> (unit, node_error) result) option" where
  "add_monitored_address_type L ow address_type =
     (let rc = ow_runtime ow in
      if rc_primary rc = address_type then Some (ow, Inl AddressTypeIsPrimary)
      else if address_type \<in> set (rc_monitored rc) then Some (ow, Inl AddressTypeAlreadyMonitored)
      else Option.bind (load_account L ow (account_zero address_type)) (\<lambda>(ow, r).
        case r of
          Inl e \<Rightarrow> Some (ow, Inl e)
        | Inr _ \<Rightarrow> Some (ow\<lparr>ow_runtime := rc\<lparr>rc_monitored := rc_monitored rc @ [address_type]\<rparr>\<rparr>, Inr ())))"

definition remove_monitored_address_type ::
    "('w, 'p, 'kv) onchain_wallet \<Rightarrow> address_type \<Rightarrow> ('w, 'p, 'kv) onchain_wallet \<times> (unit, node_error) result" where
  "remove_monitored_address_type ow address_type =
     (let rc = ow_runtime ow in
      if rc_primary rc = address_type then (ow, Inl AddressTypeIsPrimary)
      else if address_type \<notin> set (rc_monitored rc) then (ow, Inl AddressTypeNotMonitored)
      else
        (case remove_wallet (ow_inner ow) (account_zero address_type) of
           (a, Inl AggCannotRemovePrimary) \<Rightarrow> (ow\<lparr>ow_inner := a\<rparr>, Inl AddressTypeIsPrimary)
         | (a, Inl AggWalletNotFound) \<Rightarrow>
             (ow\<lparr>ow_inner := a, ow_runtime := rc\<lparr>rc_monitored := removeAll address_type (rc_monitored rc)\<rparr>\<rparr>, Inr ())
         | (a, Inl _) \<Rightarrow> (ow\<lparr>ow_inner := a\<rparr>, Inl WalletOperationFailed)
         | (a, Inr _) \<Rightarrow>
             (ow\<lparr>ow_inner := a, ow_runtime := rc\<lparr>rc_monitored := removeAll address_type (rc_monitored rc)\<rparr>,
                 ow_generation := ow_generation ow + 1\<rparr>, Inr ())))"

text \<open>The wallet of a new primary type is loaded first when it is not.\<close>

definition load_primary ::
    "('w, 'p, 'u, 'ev, 'blk, 'b, 'x, 'c, 'kv, 'addr, 'route) onchain_libs \<Rightarrow> ('w, 'p, 'kv) onchain_wallet
       \<Rightarrow> wallet_account \<Rightarrow> (('w, 'p, 'kv) onchain_wallet \<times> (unit, node_error) result) option" where
  "load_primary L ow account =
     (if account \<in> set (loaded_keys ow) then Some (ow, Inr ()) else load_account L ow account)"

definition promote_primary :: "address_type_runtime_config \<Rightarrow> address_type \<Rightarrow> address_type_runtime_config" where
  "promote_primary rc address_type =
     (let old_primary = rc_primary rc;
          monitored = removeAll address_type (rc_monitored rc) in
      rc\<lparr>rc_primary := address_type,
         rc_monitored := (if old_primary \<in> set monitored then monitored else monitored @ [old_primary])\<rparr>)"

definition set_primary_address_type ::
    "('w, 'p, 'u, 'ev, 'blk, 'b, 'x, 'c, 'kv, 'addr, 'route) onchain_libs \<Rightarrow> ('w, 'p, 'kv) onchain_wallet
       \<Rightarrow> address_type \<Rightarrow> (('w, 'p, 'kv) onchain_wallet \<times> (unit, node_error) result) option" where
  "set_primary_address_type L ow address_type =
     (let account = account_zero address_type in
      if address_type = rc_primary (ow_runtime ow) then Some (ow, Inr ())
      else Option.bind (load_primary L ow account) (\<lambda>(ow, r).
        case r of
          Inl e \<Rightarrow> Some (ow, Inl e)
        | Inr _ \<Rightarrow>
            (case with_inner ow (set_primary (ow_inner ow) account) (\<lambda>_. WalletOperationFailed) of
               (ow, Inl e) \<Rightarrow> Some (ow, Inl e)
             | (ow, Inr _) \<Rightarrow>
                 (let ow = ow\<lparr>ow_runtime := promote_primary (ow_runtime ow) address_type\<rparr>;
                      needs_full_scan = get_wallet_sync_timestamp (ow_metrics ow) account = None in
                  Some (if needs_full_scan
                        then ow\<lparr>ow_metrics := (ow_metrics ow)\<lparr>latest_onchain_wallet_sync_timestamp := None\<rparr>\<rparr>
                        else ow, Inr ())))))"

definition export_onchain_wallet_account_xpub ::
    "('w, 'p, 'u, 'ev, 'blk, 'b, 'x, 'c, 'kv, 'addr, 'route) onchain_libs \<Rightarrow> address_type \<Rightarrow> u32
       \<Rightarrow> (string, node_error) result" where
  "export_onchain_wallet_account_xpub L address_type account_index =
     (if MAX_ONCHAIN_WALLET_ACCOUNT_INDEX < account_index then Inl InvalidQuantity
      else
        and_then (ok_or InvalidSeedBytes (new_master (ol_keys L) (cfg_network (ol_config L)) (ol_seed L))) (\<lambda>xprv.
        map_err (\<lambda>_. InvalidSeedBytes)
          (derive_account_xpub_string (ol_keys L) xprv (cfg_network (ol_config L)) address_type account_index)))"

definition register_derived :: "wallet_account \<Rightarrow> address_type_runtime_config \<Rightarrow> address_type_runtime_config" where
  "register_derived account rc =
     (if account \<in> set (rc_derived_accounts rc) then rc
      else rc\<lparr>rc_derived_accounts := rc_derived_accounts rc @ [account]\<rparr>)"

definition add_onchain_wallet_account ::
    "('w, 'p, 'u, 'ev, 'blk, 'b, 'x, 'c, 'kv, 'addr, 'route) onchain_libs \<Rightarrow> ('w, 'p, 'kv) onchain_wallet
       \<Rightarrow> address_type \<Rightarrow> u32 \<Rightarrow> string \<Rightarrow> (('w, 'p, 'kv) onchain_wallet \<times> (unit, node_error) result) option" where
  "add_onchain_wallet_account L ow address_type account_index xpub =
     (let account = \<lparr>wa_address_type = address_type, wa_account_index = account_index\<rparr>;
          W = lib_ops (ol_agg L) in
      if account_index = 0 \<or> MAX_ONCHAIN_WALLET_ACCOUNT_INDEX < account_index then Some (ow, Inl InvalidQuantity)
      else
        (case export_onchain_wallet_account_xpub L address_type account_index of
           Inl e \<Rightarrow> Some (ow, Inl e)
         | Inr expected_xpub \<Rightarrow>
             if trim xpub \<noteq> expected_xpub then Some (ow, Inl InvalidSeedBytes)
             else if account \<in> set (loaded_keys ow) then
               (case with_inner ow (persist_all W (ow_inner ow)) (\<lambda>_. PersistenceFailed) of
                  (ow, Inl e) \<Rightarrow> Some (ow, Inl e)
                | (ow, Inr _) \<Rightarrow> Some (ow\<lparr>ow_runtime := register_derived account (ow_runtime ow)\<rparr>, Inr ()))
             else
               Option.bind (current_best_block W (ow_inner ow)) (\<lambda>tip.
               (case create_wallet_for_account L account tip (Some (ol_lookahead L)) of
                  Inl e \<Rightarrow> Some (ow, Inl e)
                | Inr (w, p) \<Rightarrow>
                    Option.bind (add_wallet_and_persist W (ow_inner ow) account w p) (\<lambda>run.
                    (case with_inner ow run
                            (\<lambda>e. if e = AggPersistenceFailed then PersistenceFailed else WalletOperationFailed) of
                       (ow, Inl e) \<Rightarrow> Some (ow, Inl e)
                     | (ow, Inr _) \<Rightarrow>
                         Some (ow\<lparr>ow_generation := ow_generation ow + 1,
                                  ow_runtime := register_derived account (ow_runtime ow)\<rparr>, Inr ())))))))"

definition unregister_derived :: "wallet_account \<Rightarrow> ('w, 'p, 'kv) onchain_wallet \<Rightarrow> ('w, 'p, 'kv) onchain_wallet" where
  "unregister_derived account ow =
     ow\<lparr>ow_runtime := (ow_runtime ow)\<lparr>rc_derived_accounts := removeAll account (rc_derived_accounts (ow_runtime ow))\<rparr>,
        ow_synced_derived := removeAll account (ow_synced_derived ow)\<rparr>"

definition remove_onchain_wallet_account ::
    "('w, 'p, 'kv) onchain_wallet \<Rightarrow> address_type \<Rightarrow> u32 \<Rightarrow> ('w, 'p, 'kv) onchain_wallet \<times> (unit, node_error) result" where
  "remove_onchain_wallet_account ow address_type account_index =
     (let account = \<lparr>wa_address_type = address_type, wa_account_index = account_index\<rparr> in
      if account_index = 0 \<or> MAX_ONCHAIN_WALLET_ACCOUNT_INDEX < account_index then (ow, Inl InvalidQuantity)
      else if account \<notin> set (rc_derived_accounts (ow_runtime ow)) then (ow, Inl OnchainWalletAccountNotRegistered)
      else
        (case remove_wallet (ow_inner ow) account of
           (a, Inl AggWalletNotFound) \<Rightarrow> (unregister_derived account (ow\<lparr>ow_inner := a\<rparr>), Inr ())
         | (a, Inl _) \<Rightarrow> (ow\<lparr>ow_inner := a\<rparr>, Inl WalletOperationFailed)
         | (a, Inr _) \<Rightarrow>
             (unregister_derived account (ow\<lparr>ow_inner := a, ow_generation := ow_generation ow + 1\<rparr>), Inr ())))"

definition has_synced_derived_account :: "('w, 'p, 'kv) onchain_wallet \<Rightarrow> wallet_account \<Rightarrow> bool" where
  "has_synced_derived_account ow account \<longleftrightarrow> account \<in> set (ow_synced_derived ow)"

definition mark_derived_account_synced :: "('w, 'p, 'kv) onchain_wallet \<Rightarrow> wallet_account \<Rightarrow> ('w, 'p, 'kv) onchain_wallet" where
  "mark_derived_account_synced ow account = ow\<lparr>ow_synced_derived := List.insert account (ow_synced_derived ow)\<rparr>"

definition get_loaded_address_types :: "('w, 'p, 'kv) onchain_wallet \<Rightarrow> address_type list" where
  "get_loaded_address_types ow =
     map wa_address_type (filter (\<lambda>account. wa_account_index account = 0) (loaded_keys ow))"

definition has_onchain_wallet_account :: "('w, 'p, 'kv) onchain_wallet \<Rightarrow> wallet_account \<Rightarrow> bool" where
  "has_onchain_wallet_account ow account \<longleftrightarrow> map_of (agg_wallets (ow_inner ow)) account \<noteq> None"

definition account_sync_snapshot ::
    "('w, 'p, 'u, 'ev, 'blk, 'b, 'x, 'c, 'kv, 'addr, 'route) onchain_libs \<Rightarrow> ('w, 'p, 'kv) onchain_wallet
       \<Rightarrow> u64 \<times> (wallet_account \<times> block_hash \<times> u32) list" where
  "account_sync_snapshot L ow = (ow_generation ow, chain_tips_by_key (lib_ops (ol_agg L)) (ow_inner ow))"

text \<open>The stored chain of an account is rewound and its wallet loaded again from the store.\<close>

definition reload_rewound ::
    "('w, 'p, 'u, 'ev, 'blk, 'b, 'x, 'c, 'kv, 'addr, 'route) onchain_libs \<Rightarrow> wallet_account \<Rightarrow> 'x \<Rightarrow> block_hash \<Rightarrow> u32
       \<Rightarrow> ('w \<times> 'p, node_error) result" where
  "reload_rewound L account xprv hash height =
     (let W = lib_ops (ol_agg L) in
      case ol_rewind L (new_persister (ol_setup L) account) height hash of
        (p, False) \<Rightarrow> Inl PersistenceFailed
      | (p, True) \<Rightarrow>
          (case get_or_create_wallet_for_account (ol_keys L) (ol_setup L) account xprv (cfg_network (ol_config L)) p
                  (if wa_account_index account \<noteq> 0 then Some (ol_lookahead L) else None) of
             (p, Inl e) \<Rightarrow> Inl WalletOperationFailed
           | (p, Inr (w, loaded_from_store)) \<Rightarrow>
               if \<not> loaded_from_store \<or> (tip_hash W w, tip_height W w) \<noteq> (hash, height) then Inl WalletOperationFailed
               else Inr (w, p)))"

definition rewind_wallet_account ::
    "('w, 'p, 'u, 'ev, 'blk, 'b, 'x, 'c, 'kv, 'addr, 'route) onchain_libs \<Rightarrow> ('w, 'p, 'kv) onchain_wallet
       \<Rightarrow> wallet_account \<Rightarrow> block_hash \<Rightarrow> u32 \<Rightarrow> ('w, 'p, 'kv) onchain_wallet \<times> (unit, node_error) result" where
  "rewind_wallet_account L ow account hash height =
     (case new_master (ol_keys L) (cfg_network (ol_config L)) (ol_seed L) of
        None \<Rightarrow> (ow, Inl WalletOperationFailed)
      | Some xprv \<Rightarrow>
          if map_of (agg_wallets (ow_inner ow)) account = None then (ow, Inl WalletOperationFailed)
          else
            (case with_inner ow (persist_all (lib_ops (ol_agg L)) (ow_inner ow)) (\<lambda>_. PersistenceFailed) of
               (ow, Inl e) \<Rightarrow> (ow, Inl e)
             | (ow, Inr _) \<Rightarrow>
                 (case reload_rewound L account xprv hash height of
                    Inl e \<Rightarrow> (ow, Inl e)
                  | Inr (w, p) \<Rightarrow>
                      (ow\<lparr>ow_inner := (ow_inner ow)\<lparr>
                            agg_wallets := AList.update account w (agg_wallets (ow_inner ow)),
                            agg_persisters := AList.update account p (agg_persisters (ow_inner ow))\<rparr>,
                          ow_update_pending := True\<rparr>, Inr ()))))"

section \<open>Payments of the wallets' transactions\<close>

fun txid_payment_id :: "txid \<Rightarrow> payment_id" where
  "txid_payment_id (Txid b) = PaymentId b"

definition onchain_status ::
    "u32 \<Rightarrow> u32 \<Rightarrow> confirmation_block_time option \<Rightarrow> payment_status \<times> confirmation_status" where
  "onchain_status ANTI_REORG_DELAY cur_height confirmation =
     (case confirmation of
        Some anchor \<Rightarrow>
          (if cb_height anchor + ANTI_REORG_DELAY - 1 \<le> cur_height then Succeeded else Pending,
           Confirmed (cb_hash anchor) (cb_height anchor) (cb_time anchor))
      | None \<Rightarrow> (Pending, Unconfirmed))"

definition onchain_direction :: "u64 \<Rightarrow> u64 \<Rightarrow> u64 \<Rightarrow> payment_direction \<times> u64" where
  "onchain_direction sent_sat received_sat fee_sat =
     (if received_sat < sent_sat
      then (Outbound, saturating_sub (saturating_sub sent_sat fee_sat) received_sat * 1000)
      else (Inbound, saturating_sub received_sat (saturating_sub sent_sat fee_sat) * 1000))"

text \<open>The transaction of an entry of a wallet is the one \<open>get_tx\<close> finds there.\<close>

definition onchain_payment ::
    "('w, 'p, 'u, 'ev, 'blk, 'b, 'x, 'c, 'kv, 'addr, 'route) onchain_libs \<Rightarrow> (wallet_account, 'w, 'p) aggregate
       \<Rightarrow> u32 \<Rightarrow> 'w \<Rightarrow> txid \<Rightarrow> payment_details" where
  "onchain_payment L a cur_height w i =
     (let V = lib_view (ol_agg L);
          (status, confirmation_status) =
            onchain_status (ol_reorg_delay L) cur_height (map_of (transaction_confirmations V a) i);
          fee_sat = (case get_tx V w i of
                       Some tx \<Rightarrow> (case calculate_tx_fee V a tx of Inr fee \<Rightarrow> fee | Inl _ \<Rightarrow> 0)
                     | None \<Rightarrow> 0);
          (sent_sat, received_sat) = (case sent_and_received V a i of Some sr \<Rightarrow> sr | None \<Rightarrow> (0, 0));
          (direction, amount_msat) = onchain_direction sent_sat received_sat fee_sat in
      PaymentDetails_new (ol_now L) (txid_payment_id i) (Onchain i confirmation_status) (Some amount_msat)
        (Some (fee_sat * 1000)) direction status)"

fun update_payments_loop ::
    "('w, 'p, 'u, 'ev, 'blk, 'b, 'x, 'c, 'kv, 'addr, 'route) onchain_libs \<Rightarrow> (wallet_account, 'w, 'p) aggregate
       \<Rightarrow> u32 \<Rightarrow> txid set \<Rightarrow> ('w \<times> txid) list \<Rightarrow> (payment_id, payment_details) data_store \<Rightarrow> 'kv
       \<Rightarrow> (unit, node_error) result \<times> (payment_id, payment_details) data_store \<times> 'kv" where
  "update_payments_loop L a cur_height seen [] ds kv = (Inr (), ds, kv)"
| "update_payments_loop L a cur_height seen ((w, i) # rest) ds kv =
     (if i \<in> seen then update_payments_loop L a cur_height seen rest ds kv
      else
        (case DataStore_insert_or_update (payment_storable (ol_now L) (ol_payment L)) (ol_kv L) ds kv
                (onchain_payment L a cur_height w i) of
           (Inl e, ds, kv) \<Rightarrow> (Inl e, ds, kv)
         | (Inr _, ds, kv) \<Rightarrow> update_payments_loop L a cur_height (insert i seen) rest ds kv))"

definition wallet_entries :: "'w bdk_view \<Rightarrow> (wallet_account, 'w, 'p) aggregate \<Rightarrow> ('w \<times> txid) list" where
  "wallet_entries V a = concat (map (\<lambda>(_, w). map (\<lambda>t. (w, fst t)) (transactions V w)) (agg_wallets a))"

definition update_payment_store ::
    "('w, 'p, 'u, 'ev, 'blk, 'b, 'x, 'c, 'kv, 'addr, 'route) onchain_libs \<Rightarrow> ('w, 'p, 'kv) onchain_wallet
       \<Rightarrow> (('w, 'p, 'kv) onchain_wallet \<times> (unit, node_error) result) option" where
  "update_payment_store L ow =
     (let a = ow_inner ow in
      map_option (\<lambda>(_, cur_height).
        (case update_payments_loop L a cur_height {} (wallet_entries (lib_view (ol_agg L)) a) (ow_payments ow) (ow_kv ow) of
           (r, ds, kv) \<Rightarrow> (ow\<lparr>ow_payments := ds, ow_kv := kv, ow_update_pending := isl r\<rparr>, r)))
        (current_best_block (lib_ops (ol_agg L)) a))"

section \<open>Applying chain data\<close>

definition persistence_error :: "agg_error \<Rightarrow> node_error" where
  "persistence_error e =
     (case e of AggPersistenceFailed \<Rightarrow> PersistenceFailed | AggPersisterNotFound \<Rightarrow> PersistenceFailed
        | _ \<Rightarrow> WalletOperationFailed)"

definition wallet_apply_update ::
    "('w, 'p, 'u, 'ev, 'blk, 'b, 'x, 'c, 'kv, 'addr, 'route) onchain_libs \<Rightarrow> ('w, 'p, 'kv) onchain_wallet \<Rightarrow> 'u
       \<Rightarrow> ('w, 'p, 'kv) onchain_wallet \<times> ('ev list, node_error) result" where
  "wallet_apply_update L ow upd =
     (case with_inner ow (apply_update (lib_view (ol_agg L)) (lib_ops (ol_agg L)) (ow_inner ow) upd) persistence_error of
        (ow, r) \<Rightarrow> (ow, and_then r (\<lambda>(events, _). Inr events)))"

definition apply_update_for_wallet_account ::
    "('w, 'p, 'u, 'ev, 'blk, 'b, 'x, 'c, 'kv, 'addr, 'route) onchain_libs \<Rightarrow> ('w, 'p, 'kv) onchain_wallet
       \<Rightarrow> wallet_account \<Rightarrow> 'u \<Rightarrow> ('w, 'p, 'kv) onchain_wallet \<times> ('ev list option, node_error) result" where
  "apply_update_for_wallet_account L ow account upd =
     (if map_of (agg_wallets (ow_inner ow)) account = None then (ow, Inr None)
      else
        (case with_inner ow (apply_update_to_wallet (lib_view (ol_agg L)) (lib_ops (ol_agg L)) (ow_inner ow) account upd)
                persistence_error of
           (ow, r) \<Rightarrow> (ow, and_then r (\<lambda>(events, _). Inr (Some events)))))"

definition apply_block_to_account ::
    "('w, 'p, 'u, 'ev, 'blk, 'b, 'x, 'c, 'kv, 'addr, 'route) onchain_libs \<Rightarrow> ('w, 'p, 'kv) onchain_wallet
       \<Rightarrow> wallet_account \<Rightarrow> 'blk \<Rightarrow> u32 \<Rightarrow> ('w, 'p, 'kv) onchain_wallet \<times> (unit, node_error) result" where
  "apply_block_to_account L ow account block height =
     (case with_inner (ow\<lparr>ow_update_pending := True\<rparr>)
             (apply_block_to (lib_view (ol_agg L)) (lib_ops (ol_agg L)) (ow_inner ow) account block height)
             (\<lambda>e. if e = AggPersistenceFailed then PersistenceFailed else WalletOperationFailed) of
        (ow, r) \<Rightarrow> (ow, and_then r (\<lambda>_. Inr ())))"

definition finish_pending_sync ::
    "('w, 'p, 'u, 'ev, 'blk, 'b, 'x, 'c, 'kv, 'addr, 'route) onchain_libs \<Rightarrow> ('w, 'p, 'kv) onchain_wallet \<Rightarrow> bool
       \<Rightarrow> (('w, 'p, 'kv) onchain_wallet \<times> (unit, node_error) result) option" where
  "finish_pending_sync L ow refresh_payment_store =
     (case with_inner ow (persist_all (lib_ops (ol_agg L)) (ow_inner ow)) (\<lambda>_. PersistenceFailed) of
        (ow, Inl e) \<Rightarrow> Some (ow, Inl e)
      | (ow, Inr _) \<Rightarrow>
          if refresh_payment_store \<or> ow_update_pending ow then update_payment_store L ow
          else Some (ow, Inr ()))"

definition wallet_apply_mempool_txs ::
    "('w, 'p, 'u, 'ev, 'blk, 'b, 'x, 'c, 'kv, 'addr, 'route) onchain_libs \<Rightarrow> ('w, 'p, 'kv) onchain_wallet
       \<Rightarrow> (transaction \<times> u64) list \<Rightarrow> (txid \<times> u64) list
       \<Rightarrow> (('w, 'p, 'kv) onchain_wallet \<times> (unit, node_error) result) option" where
  "wallet_apply_mempool_txs L ow unconfirmed evicted =
     (case with_inner (ow\<lparr>ow_update_pending := True\<rparr>)
             (apply_mempool_txs (lib_ops (ol_agg L)) (ow_inner ow) unconfirmed evicted) (\<lambda>_. PersistenceFailed) of
        (ow, Inl e) \<Rightarrow> Some (ow, Inl e)
      | (ow, Inr _) \<Rightarrow> update_payment_store L ow)"

text \<open>The listener reports no errors.\<close>

definition block_connected ::
    "('w, 'p, 'u, 'ev, 'blk, 'b, 'x, 'c, 'kv, 'addr, 'route) onchain_libs \<Rightarrow> ('w, 'p, 'kv) onchain_wallet \<Rightarrow> 'blk \<Rightarrow> u32
       \<Rightarrow> ('w, 'p, 'kv) onchain_wallet option" where
  "block_connected L ow block height =
     Option.bind (apply_block (lib_view (ol_agg L)) (lib_ops (ol_agg L)) (ow_inner ow) block height) (\<lambda>(a, r).
     case r of
       Inl e \<Rightarrow> Some (ow\<lparr>ow_inner := a\<rparr>)
     | Inr _ \<Rightarrow> map_option fst (update_payment_store L (ow\<lparr>ow_inner := a\<rparr>)))"

section \<open>Addresses\<close>

definition get_new_address_info ::
    "('w, 'p, 'u, 'ev, 'blk, 'b, 'x, 'c, 'kv, 'addr, 'route) onchain_libs \<Rightarrow> ('w, 'p, 'kv) onchain_wallet
       \<Rightarrow> ('w, 'p, 'kv) onchain_wallet \<times> (address_info, node_error) result" where
  "get_new_address_info L ow =
     with_inner ow (new_address_info (lib_ops (ol_agg L)) (ow_inner ow)) (\<lambda>_. WalletOperationFailed)"

definition get_new_address_info_for_account ::
    "('w, 'p, 'u, 'ev, 'blk, 'b, 'x, 'c, 'kv, 'addr, 'route) onchain_libs \<Rightarrow> ('w, 'p, 'kv) onchain_wallet
       \<Rightarrow> wallet_account \<Rightarrow> ('w, 'p, 'kv) onchain_wallet \<times> (address_info, node_error) result" where
  "get_new_address_info_for_account L ow account =
     with_inner ow (new_address_info_for (lib_ops (ol_agg L)) (ow_inner ow) account) (map_wallet_account_error account)"

definition get_address_info_for_account_at_index ::
    "('w, 'p, 'u, 'ev, 'blk, 'b, 'x, 'c, 'kv, 'addr, 'route) onchain_libs \<Rightarrow> ('w, 'p, 'kv) onchain_wallet
       \<Rightarrow> wallet_account \<Rightarrow> keychain_kind \<Rightarrow> u32 \<Rightarrow> (address_info, node_error) result" where
  "get_address_info_for_account_at_index L ow account keychain i =
     and_then (node_validate_derivation_index i) (\<lambda>_.
     map_err (map_wallet_account_error account) (address_info_for (lib_ops (ol_agg L)) (ow_inner ow) account keychain i))"

definition get_address_infos_for_account ::
    "('w, 'p, 'u, 'ev, 'blk, 'b, 'x, 'c, 'kv, 'addr, 'route) onchain_libs \<Rightarrow> ('w, 'p, 'kv) onchain_wallet
       \<Rightarrow> wallet_account \<Rightarrow> keychain_kind \<Rightarrow> u32 \<Rightarrow> u32 \<Rightarrow> (address_info list, node_error) result" where
  "get_address_infos_for_account L ow account keychain start_index count =
     and_then (node_validate_derivation_range start_index count) (\<lambda>_.
     map_err (map_wallet_account_error account)
       (address_infos_for (lib_ops (ol_agg L)) (ow_inner ow) account keychain start_index count))"

definition reveal_receive_addresses_to_account ::
    "('w, 'p, 'u, 'ev, 'blk, 'b, 'x, 'c, 'kv, 'addr, 'route) onchain_libs \<Rightarrow> ('w, 'p, 'kv) onchain_wallet
       \<Rightarrow> wallet_account \<Rightarrow> u32 \<Rightarrow> ('w, 'p, 'kv) onchain_wallet \<times> (unit, node_error) result" where
  "reveal_receive_addresses_to_account L ow account i =
     (case node_validate_derivation_index i of
        Inl e \<Rightarrow> (ow, Inl e)
      | Inr _ \<Rightarrow>
          with_inner ow (reveal_addresses_to (lib_ops (ol_agg L)) (ow_inner ow) account i) (map_wallet_account_error account))"

definition get_new_witness_address ::
    "('w, 'p, 'u, 'ev, 'blk, 'b, 'x, 'c, 'kv, 'addr, 'route) onchain_libs \<Rightarrow> ('w, 'p, 'kv) onchain_wallet
       \<Rightarrow> ('w, 'p, 'kv) onchain_wallet \<times> (address_info, node_error) result" where
  "get_new_witness_address L ow =
     (let primary = agg_primary (ow_inner ow) in
      if wa_account_index primary = 0 \<and> is_native_witness (wa_address_type primary) then get_new_address_info L ow
      else
        (case List.find (\<lambda>k. wa_account_index k = 0 \<and> is_native_witness (wa_address_type k)) (loaded_keys ow) of
           Some key \<Rightarrow> get_new_address_info_for_account L ow (account_zero (wa_address_type key))
         | None \<Rightarrow> (ow, Inl WalletOperationFailed)))"

definition get_new_internal_address ::
    "('w, 'p, 'u, 'ev, 'blk, 'b, 'x, 'c, 'kv, 'addr, 'route) onchain_libs \<Rightarrow> ('w, 'p, 'kv) onchain_wallet
       \<Rightarrow> ('w, 'p, 'kv) onchain_wallet \<times> (script, node_error) result" where
  "get_new_internal_address L ow =
     with_inner ow (new_internal_address (lib_ops (ol_agg L)) (ow_inner ow)) (\<lambda>_. WalletOperationFailed)"

definition get_drain_script ::
    "('w, 'p, 'u, 'ev, 'blk, 'b, 'x, 'c, 'kv, 'addr, 'route) onchain_libs \<Rightarrow> ('w, 'p, 'kv) onchain_wallet \<Rightarrow> script option" where
  "get_drain_script L ow =
     map_option (\<lambda>w. ai_script (peek_address (lib_ops (ol_agg L)) w Internal 0)) (primary_wallet (ow_inner ow))"

section \<open>Balances\<close>

text \<open>
  \<open>trusted_spendable\<close> of BDK is the confirmed and the trusted pending amount. Adding amounts panics
  on overflow; the sum of two \<open>u64\<close> in \<open>spendable_base\<close> wraps.
\<close>

definition trusted_spendable :: "balance \<Rightarrow> u64 option" where
  "trusted_spendable b = checked_add (bal_confirmed b) (bal_trusted_pending b)"

definition get_balances_inner ::
    "('addr, 'route) config \<Rightarrow> balance \<Rightarrow> u64 \<Rightarrow> (u64 \<times> u64) option" where
  "get_balances_inner c b total_anchor_channels_reserve_sats =
     Option.bind (trusted_spendable b) (\<lambda>trusted.
     Option.bind (balance_total b) (\<lambda>total_sats.
     let spendable_base = (if cfg_include_untrusted_pending_in_spendable c then trusted + bal_untrusted_pending b else trusted)
     in Some (total_sats, saturating_sub spendable_base total_anchor_channels_reserve_sats)))"

definition get_balances ::
    "('w, 'p, 'u, 'ev, 'blk, 'b, 'x, 'c, 'kv, 'addr, 'route) onchain_libs \<Rightarrow> ('w, 'p, 'kv) onchain_wallet \<Rightarrow> u64
       \<Rightarrow> (u64 \<times> u64) option" where
  "get_balances L ow reserve =
     Option.bind (aggregate_balance (lib_view (ol_agg L)) (ow_inner ow)) (\<lambda>b. get_balances_inner (ol_config L) b reserve)"

definition get_balance_for_onchain_wallet_account ::
    "('w, 'p, 'u, 'ev, 'blk, 'b, 'x, 'c, 'kv, 'addr, 'route) onchain_libs \<Rightarrow> ('w, 'p, 'kv) onchain_wallet
       \<Rightarrow> wallet_account \<Rightarrow> (u64 \<times> u64, node_error) result option" where
  "get_balance_for_onchain_wallet_account L ow account =
     (case balance_for (lib_view (ol_agg L)) (ow_inner ow) account of
        Inl e \<Rightarrow> Some (Inl (map_wallet_account_error account e))
      | Inr b \<Rightarrow> map_option Inr (get_balances_inner (ol_config L) b 0))"

definition get_spendable_amount_sats ::
    "('w, 'p, 'u, 'ev, 'blk, 'b, 'x, 'c, 'kv, 'addr, 'route) onchain_libs \<Rightarrow> ('w, 'p, 'kv) onchain_wallet \<Rightarrow> u64
       \<Rightarrow> u64 option" where
  "get_spendable_amount_sats L ow reserve = map_option snd (get_balances L ow reserve)"

definition get_witness_spendable_amount_sats ::
    "('w, 'p, 'u, 'ev, 'blk, 'b, 'x, 'c, 'kv, 'addr, 'route) onchain_libs \<Rightarrow> ('w, 'p, 'kv) onchain_wallet \<Rightarrow> u64
       \<Rightarrow> u64 option" where
  "get_witness_spendable_amount_sats L ow reserve =
     (if \<not> list_ex (\<lambda>k. wa_account_index k = 0 \<and> wa_address_type k \<noteq> Legacy) (loaded_keys ow) then Some 0
      else
        Option.bind (balance_filtered (lib_view (ol_agg L)) (ow_inner ow) (\<lambda>k. wa_address_type k \<noteq> Legacy)) (\<lambda>b.
        map_option snd (get_balances_inner (ol_config L) b reserve)))"

definition get_spendable_utxos ::
    "('w, 'p, 'u, 'ev, 'blk, 'b, 'x, 'c, 'kv, 'addr, 'route) onchain_libs \<Rightarrow> ('w, 'p, 'kv) onchain_wallet
       \<Rightarrow> outpoint option list \<Rightarrow> local_output list" where
  "get_spendable_utxos L ow channels =
     filter (\<lambda>u. \<not> is_funding_transaction channels (op_txid (lo_outpoint u)))
       (list_unspent_all (lib_view (ol_agg L)) (ow_inner ow))"

definition wallet_select_utxos_with_algorithm ::
    "('w, 'p, 'u, 'ev, 'blk, 'b, 'x, 'c, 'kv, 'addr, 'route) onchain_libs \<Rightarrow> ('w, 'p, 'kv) onchain_wallet
       \<Rightarrow> u64 \<Rightarrow> local_output list \<Rightarrow> u64 \<Rightarrow> coin_selection_algorithm \<Rightarrow> script \<Rightarrow> outpoint option list
       \<Rightarrow> (outpoint list, node_error) result" where
  "wallet_select_utxos_with_algorithm L ow target_sats available fee_rate algorithm drain channels =
     (let excluded_outpoints = map lo_outpoint
            (filter (\<lambda>u. is_funding_transaction channels (op_txid (lo_outpoint u))) available)
      in map_err (\<lambda>_. CoinSelectionFailed)
           (select_utxos (ol_agg L) (ow_inner ow) target_sats available fee_rate algorithm drain excluded_outpoints))"

definition transaction_fee_sats ::
    "('w, 'p, 'u, 'ev, 'blk, 'b, 'x, 'c, 'kv, 'addr, 'route) onchain_libs \<Rightarrow> ('w, 'p, 'kv) onchain_wallet \<Rightarrow> transaction
       \<Rightarrow> (u64, node_error) result" where
  "transaction_fee_sats L ow tx =
     map_err (\<lambda>_. WalletOperationFailed) (calculate_tx_fee (lib_view (ol_agg L)) (ow_inner ow) tx)"

definition wallet_cancel_transaction ::
    "('w, 'p, 'u, 'ev, 'blk, 'b, 'x, 'c, 'kv, 'addr, 'route) onchain_libs \<Rightarrow> ('w, 'p, 'kv) onchain_wallet \<Rightarrow> transaction
       \<Rightarrow> ('w, 'p, 'kv) onchain_wallet \<times> (unit, node_error) result" where
  "wallet_cancel_transaction L ow tx =
     with_inner ow (cancel_tx (lib_ops (ol_agg L)) (ow_inner ow) tx) (\<lambda>_. PersistenceFailed)"

section \<open>The accounts stay consistent\<close>

text \<open>
  The accounts the configuration knows. The invariant: both maps of the aggregate have the same keys,
  its primary wallet is that of the primary address type, which is not also monitored, registered
  derived accounts have a positive index, and no wallet is loaded that is not registered.
\<close>

definition registered_accounts :: "address_type_runtime_config \<Rightarrow> wallet_account set" where
  "registered_accounts rc =
     insert (account_zero (rc_primary rc)) (account_zero ` set (rc_monitored rc) \<union> set (rc_derived_accounts rc))"

definition accounts_inv :: "('w, 'p, 'kv) onchain_wallet \<Rightarrow> bool" where
  "accounts_inv ow \<longleftrightarrow> agg_inv (ow_inner ow)
     \<and> agg_primary (ow_inner ow) = account_zero (rc_primary (ow_runtime ow))
     \<and> rc_primary (ow_runtime ow) \<notin> set (rc_monitored (ow_runtime ow))
     \<and> (\<forall>a \<in> set (rc_derived_accounts (ow_runtime ow)). is_derived a)
     \<and> set (loaded_keys ow) \<subseteq> registered_accounts (ow_runtime ow)"

text \<open>An operation that leaves the keys of the aggregate, the registrations and the generation alone.\<close>

definition quiet :: "('w, 'p, 'kv) onchain_wallet \<Rightarrow> ('w, 'p, 'kv) onchain_wallet \<Rightarrow> bool" where
  "quiet ow ow' \<longleftrightarrow> agg_keys (ow_inner ow') = agg_keys (ow_inner ow) \<and> ow_runtime ow' = ow_runtime ow
     \<and> ow_generation ow' = ow_generation ow"

lemma quiet_refl [simp]: "quiet ow ow"
  by (simp add: quiet_def)

lemma quiet_trans: "quiet a b \<Longrightarrow> quiet b c \<Longrightarrow> quiet a c"
  by (simp add: quiet_def)

lemma quiet_loaded: "quiet ow ow' \<Longrightarrow> loaded_keys ow' = loaded_keys ow"
  by (simp add: quiet_def agg_keys_def loaded_keys_def)

lemma accounts_inv_quiet:
  assumes "quiet ow ow'" "accounts_inv ow"
  shows "accounts_inv ow'"
proof -
  have "agg_inv (ow_inner ow') = agg_inv (ow_inner ow)" "agg_primary (ow_inner ow') = agg_primary (ow_inner ow)"
    using assms(1) by (simp_all add: quiet_def agg_inv_def agg_keys_def)
  then show ?thesis
    using assms quiet_loaded [OF assms(1)] by (simp add: accounts_inv_def quiet_def)
qed

lemma with_inner_quiet:
  assumes "with_inner ow run err = (ow', r)" "agg_keys (fst run) = agg_keys (ow_inner ow)"
  shows "quiet ow ow'"
  using assms by (auto simp: with_inner_def quiet_def split: prod.splits)

lemma with_inner_eq: "with_inner ow run err = (ow\<lparr>ow_inner := fst run\<rparr>, map_err err (snd run))"
  by (simp add: with_inner_def case_prod_unfold)

lemma map_err_simps [simp]: "map_err f (Inl e) = Inl (f e)" "map_err f (Inr x) = Inr x"
  by (simp_all add: map_err_def)

lemma map_err_Inr [simp]: "map_err f r = Inr x \<longleftrightarrow> r = Inr x" "isl (map_err f r) = isl r"
  by (cases r; simp)+

lemma op_keys_fst:
  "agg_keys (fst (persist_all W a)) = agg_keys a"
  "agg_keys (fst (apply_block_to V W a k block height)) = agg_keys a"
  "agg_keys (fst (apply_update_to_wallet V W a k u)) = agg_keys a"
  "agg_keys (fst (apply_update V W a u)) = agg_keys a"
  "agg_keys (fst (apply_mempool_txs W a txs ev)) = agg_keys a"
  "agg_keys (fst (cancel_tx W a tx)) = agg_keys a"
  "agg_keys (fst (new_address_info_for W a k)) = agg_keys a"
  "agg_keys (fst (new_address_info W a)) = agg_keys a"
  "agg_keys (fst (reveal_addresses_to W a k i)) = agg_keys a"
  "agg_keys (fst (new_internal_address W a)) = agg_keys a"
  by (simp_all add: persist_all_keys [OF surjective_pairing] apply_block_to_keys [OF surjective_pairing]
      apply_update_to_wallet_keys [OF surjective_pairing] apply_mempool_txs_keys [OF surjective_pairing]
      cancel_tx_keys [OF surjective_pairing] new_address_info_for_keys [OF surjective_pairing]
      reveal_addresses_to_keys [OF surjective_pairing] new_internal_address_keys [OF surjective_pairing]
      apply_update_primary new_address_info_def)

lemma update_payment_store_quiet: "update_payment_store L ow = Some (ow', r) \<Longrightarrow> quiet ow ow'"
  by (auto simp: update_payment_store_def Let_def quiet_def case_prod_unfold)

lemma apply_quiet:
  "wallet_apply_update L ow u = (ow', re) \<Longrightarrow> quiet ow ow'"
  "apply_update_for_wallet_account L ow account u = (ow', ro) \<Longrightarrow> quiet ow ow'"
  "apply_block_to_account L ow account block height = (ow', r) \<Longrightarrow> quiet ow ow'"
  "finish_pending_sync L ow refresh = Some (ow', r) \<Longrightarrow> quiet ow ow'"
  "wallet_apply_mempool_txs L ow txs evicted = Some (ow', r) \<Longrightarrow> quiet ow ow'"
proof -
  show "wallet_apply_update L ow u = (ow', re) \<Longrightarrow> quiet ow ow'"
    by (auto simp: wallet_apply_update_def with_inner_eq quiet_def op_keys_fst)
  show "apply_update_for_wallet_account L ow account u = (ow', ro) \<Longrightarrow> quiet ow ow'"
    by (auto simp: apply_update_for_wallet_account_def with_inner_eq quiet_def op_keys_fst split: if_splits)
  show "apply_block_to_account L ow account block height = (ow', r) \<Longrightarrow> quiet ow ow'"
    by (auto simp: apply_block_to_account_def with_inner_eq quiet_def op_keys_fst)
  show "finish_pending_sync L ow refresh = Some (ow', r) \<Longrightarrow> quiet ow ow'"
    using update_payment_store_quiet [of L "ow\<lparr>ow_inner := fst (persist_all (lib_ops (ol_agg L)) (ow_inner ow))\<rparr>" ow' r]
    by (auto simp: finish_pending_sync_def with_inner_eq quiet_def op_keys_fst split: sum.splits if_splits)
  show "wallet_apply_mempool_txs L ow txs evicted = Some (ow', r) \<Longrightarrow> quiet ow ow'"
    using update_payment_store_quiet [of L "ow\<lparr>ow_update_pending := True,
      ow_inner := fst (apply_mempool_txs (lib_ops (ol_agg L)) (ow_inner ow) txs evicted)\<rparr>" ow' r]
    by (auto simp: wallet_apply_mempool_txs_def with_inner_eq quiet_def op_keys_fst split: sum.splits)
qed

lemma block_connected_quiet:
  assumes "block_connected L ow block height = Some ow'"
  shows "quiet ow ow'"
proof -
  obtain a r where run: "apply_block (lib_view (ol_agg L)) (lib_ops (ol_agg L)) (ow_inner ow) block height = Some (a, r)"
    using assms by (auto simp: block_connected_def bind_eq_Some_conv)
  have q: "quiet ow (ow\<lparr>ow_inner := a\<rparr>)"
    using apply_block_keys [OF run] by (simp add: quiet_def)
  show ?thesis
  proof (cases r)
    case (Inl e)
    then show ?thesis
      using assms run q by (simp add: block_connected_def)
  next
    case (Inr ids)
    then obtain r' where "update_payment_store L (ow\<lparr>ow_inner := a\<rparr>) = Some (ow', r')"
      using assms run by (auto simp: block_connected_def)
    from update_payment_store_quiet [OF this] show ?thesis
      using q by (rule quiet_trans [rotated])
  qed
qed

lemma address_quiet:
  "get_new_address_info L ow = (ow', ri) \<Longrightarrow> quiet ow ow'"
  "get_new_address_info_for_account L ow account = (ow', ri) \<Longrightarrow> quiet ow ow'"
  "reveal_receive_addresses_to_account L ow account i = (ow', r) \<Longrightarrow> quiet ow ow'"
  "get_new_internal_address L ow = (ow', rs) \<Longrightarrow> quiet ow ow'"
  "wallet_cancel_transaction L ow tx = (ow', r) \<Longrightarrow> quiet ow ow'"
  by (auto simp: get_new_address_info_def get_new_address_info_for_account_def reveal_receive_addresses_to_account_def
      get_new_internal_address_def wallet_cancel_transaction_def with_inner_eq quiet_def op_keys_fst split: sum.splits)

lemma witness_address_quiet: "get_new_witness_address L ow = (ow', ri) \<Longrightarrow> quiet ow ow'"
  by (auto simp: get_new_witness_address_def Let_def dest: address_quiet split: if_splits option.splits)

text \<open>What the operations on the aggregate do to the loaded accounts.\<close>

lemma add_wallet_ok:
  assumes "snd (add_wallet a k w p) = Inr u"
  shows "set (map fst (agg_wallets (fst (add_wallet a k w p)))) = insert k (set (map fst (agg_wallets a)))"
    "agg_primary (fst (add_wallet a k w p)) = agg_primary a"
  using assms by (auto simp: add_wallet_def keys_update split: if_splits)

lemma add_wallet_err: "snd (add_wallet a k w p) = Inl e \<Longrightarrow> fst (add_wallet a k w p) = a"
  by (auto simp: add_wallet_def split: if_splits)

lemma add_wallet_and_persist_ok:
  assumes "add_wallet_and_persist W a k w p = Some (a', Inr u)"
  shows "set (map fst (agg_wallets a')) = insert k (set (map fst (agg_wallets a)))" "agg_primary a' = agg_primary a"
proof -
  obtain u where add: "snd (add_wallet a k w p) = Inr u"
    and a': "persist_all W (fst (add_wallet a k w p)) = (a', Inr ())"
    using assms by (auto simp: add_wallet_and_persist_def split: prod.splits sum.splits)
  note ok = add_wallet_ok [OF add] and keys = persist_all_keys [OF a']
  show "set (map fst (agg_wallets a')) = insert k (set (map fst (agg_wallets a)))" "agg_primary a' = agg_primary a"
    using ok keys by (simp_all add: agg_keys_def)
qed

lemma remove_wallet_ok:
  assumes "remove_wallet a k = (a', Inr u)"
  shows "set (map fst (agg_wallets a')) = set (map fst (agg_wallets a)) - {k}" "agg_primary a' = agg_primary a"
proof -
  have "a' = a\<lparr>agg_wallets := AList.delete k (agg_wallets a), agg_persisters := AList.delete k (agg_persisters a)\<rparr>"
    using assms by (simp add: remove_wallet_def split: if_splits)
  then show "set (map fst (agg_wallets a')) = set (map fst (agg_wallets a)) - {k}" "agg_primary a' = agg_primary a"
    by (simp_all add: keys_delete)
qed

lemma remove_wallet_err:
  assumes "remove_wallet a k = (a', Inl e)"
  shows "a' = a"
  using assms by (auto simp: remove_wallet_def split: if_splits)

lemma remove_wallet_missing:
  assumes "remove_wallet a k = (a', Inl AggWalletNotFound)"
  shows "k \<notin> set (map fst (agg_wallets a))"
  using assms by (auto simp: remove_wallet_def map_of_eq_None_iff split: if_splits)

text \<open>A step of account management keeps the invariant and announces a change of the loaded accounts.\<close>

definition account_change :: "('w, 'p, 'kv) onchain_wallet \<Rightarrow> ('w, 'p, 'kv) onchain_wallet \<Rightarrow> bool" where
  "account_change ow ow' \<longleftrightarrow> accounts_inv ow'
     \<and> (set (loaded_keys ow') = set (loaded_keys ow) \<or> ow_generation ow' = ow_generation ow + 1)"

lemma quiet_account_change: "accounts_inv ow \<Longrightarrow> quiet ow ow' \<Longrightarrow> account_change ow ow'"
  by (auto simp: account_change_def quiet_loaded accounts_inv_quiet)

lemma load_account_run:
  assumes "load_account L ow account = Some (ow', r)"
  obtains (fail) e where "r = Inl e" "ow' = ow"
    | (load) w p where "r = Inr ()" "snd (add_wallet (ow_inner ow) account w p) = Inr ()"
        "ow' = ow\<lparr>ow_inner := fst (add_wallet (ow_inner ow) account w p), ow_generation := ow_generation ow + 1\<rparr>"
proof -
  obtain tip where tip: "current_best_block (lib_ops (ol_agg L)) (ow_inner ow) = Some tip"
    using assms by (auto simp: load_account_def bind_eq_Some_conv)
  show thesis
  proof (cases "create_wallet_for_account L account tip None")
    case (Inl e)
    then show ?thesis
      using assms tip fail [of e] by (simp add: load_account_def)
  next
    case (Inr wp)
    then obtain w p where wp: "create_wallet_for_account L account tip None = Inr (w, p)"
      by (cases wp) simp
    show ?thesis
    proof (cases "snd (add_wallet (ow_inner ow) account w p)")
      case (Inl e)
      then show ?thesis
        using assms tip wp fail [of WalletOperationFailed] add_wallet_err [OF Inl]
        by (simp add: load_account_def with_inner_eq)
    next
      case (Inr u)
      then show ?thesis
        using assms tip wp load [of w p] by (simp add: load_account_def with_inner_eq)
    qed
  qed
qed

lemma add_monitored_change:
  assumes "accounts_inv ow" "add_monitored_address_type L ow t = Some (ow', r)"
  shows "account_change ow ow'"
proof (cases "rc_primary (ow_runtime ow) = t \<or> t \<in> set (rc_monitored (ow_runtime ow))")
  case True
  then have "ow' = ow"
    using assms(2) by (auto simp: add_monitored_address_type_def Let_def split: if_splits)
  then show ?thesis
    using assms(1) by (simp add: quiet_account_change)
next
  case False
  then obtain ow1 r1 where load: "load_account L ow (account_zero t) = Some (ow1, r1)"
    using assms(2) by (auto simp: add_monitored_address_type_def Let_def bind_eq_Some_conv)
  then show ?thesis
  proof (cases rule: load_account_run)
    case (fail e)
    then show ?thesis
      using assms False load by (simp add: add_monitored_address_type_def Let_def quiet_account_change)
  next
    case (load w p)
    then have "ow' = ow1\<lparr>ow_runtime := (ow_runtime ow)\<lparr>rc_monitored := rc_monitored (ow_runtime ow) @ [t]\<rparr>\<rparr>"
      using assms(2) False \<open>load_account L ow (account_zero t) = Some (ow1, r1)\<close>
      by (simp add: add_monitored_address_type_def Let_def)
    then show ?thesis
      using load assms(1) False add_wallet_ok [OF load(2)] agg_inv_add_wallet [of "ow_inner ow" "account_zero t" w p]
      by (auto simp: account_change_def accounts_inv_def loaded_keys_def registered_accounts_def)
  qed
qed

lemma account_zero_not_derived [simp]: "\<not> is_derived (account_zero t)"
  by (simp add: is_derived_def account_zero_def)

lemma remove_monitored_change:
  assumes "accounts_inv ow" "remove_monitored_address_type ow t = (ow', r)"
  shows "account_change ow ow'"
proof (cases "rc_primary (ow_runtime ow) = t \<or> t \<notin> set (rc_monitored (ow_runtime ow))")
  case True
  then have "ow' = ow"
    using assms(2) by (auto simp: remove_monitored_address_type_def Let_def split: if_splits)
  then show ?thesis
    using assms(1) by (simp add: quiet_account_change)
next
  case False
  let ?rc = "ow_runtime ow"
  let ?rc' = "?rc\<lparr>rc_monitored := removeAll t (rc_monitored ?rc)\<rparr>"
  obtain a q where run: "remove_wallet (ow_inner ow) (account_zero t) = (a, q)"
    by (metis prod.exhaust)
  have inv: "agg_inv a"
    using agg_inv_remove_wallet [of "ow_inner ow" "account_zero t"] run assms(1) by (simp add: accounts_inv_def)
  have others: "registered_accounts ?rc - {account_zero t} \<subseteq> registered_accounts ?rc'"
    by (auto simp: registered_accounts_def)
  consider (removed) u where "q = Inr u" | (gone) "q = Inl AggWalletNotFound"
    | (bad) e where "q = Inl e" "e \<noteq> AggWalletNotFound"
    by (cases q) auto
  then show ?thesis
  proof cases
    case removed
    then have "ow' = ow\<lparr>ow_inner := a, ow_runtime := ?rc', ow_generation := ow_generation ow + 1\<rparr>"
      using assms(2) False run by (simp add: remove_monitored_address_type_def Let_def)
    then show ?thesis
      using assms(1) inv others remove_wallet_ok [of "ow_inner ow" "account_zero t" a u] run removed
      by (auto simp: account_change_def accounts_inv_def loaded_keys_def)
  next
    case gone
    then have run': "remove_wallet (ow_inner ow) (account_zero t) = (a, Inl AggWalletNotFound)"
      using run by simp
    have "ow' = ow\<lparr>ow_runtime := ?rc'\<rparr>"
      using assms(2) False run' remove_wallet_err [OF run'] by (simp add: remove_monitored_address_type_def Let_def)
    moreover have "set (loaded_keys ow) \<subseteq> registered_accounts ?rc'"
      using assms(1) others remove_wallet_missing [OF run'] unfolding accounts_inv_def loaded_keys_def by blast
    ultimately show ?thesis
      using assms(1) by (simp add: account_change_def accounts_inv_def loaded_keys_def)
  next
    case bad
    then have "ow' = ow"
      using assms(2) False run remove_wallet_err [of "ow_inner ow" "account_zero t" a e]
      by (auto simp: remove_monitored_address_type_def Let_def split: agg_error.splits)
    then show ?thesis
      using assms(1) by (simp add: quiet_account_change)
  qed
qed

lemma load_primary_run:
  assumes "load_primary L ow account = Some (ow', r)"
  obtains (fail) e where "r = Inl e" "ow' = ow"
    | (loaded) "r = Inr ()" "account \<in> set (loaded_keys ow)" "ow' = ow"
    | (load) w p where "r = Inr ()" "snd (add_wallet (ow_inner ow) account w p) = Inr ()"
        "ow' = ow\<lparr>ow_inner := fst (add_wallet (ow_inner ow) account w p), ow_generation := ow_generation ow + 1\<rparr>"
proof (cases "account \<in> set (loaded_keys ow)")
  case True
  then have "r = Inr ()" "ow' = ow"
    using assms by (auto simp: load_primary_def)
  then show thesis
    using True by (intro loaded) assumption+
next
  case False
  then have "load_account L ow account = Some (ow', r)"
    using assms by (simp add: load_primary_def)
  then show thesis
    by (rule load_account_run) (rule fail load; assumption)+
qed

lemma promote_primary_simps [simp]:
  "rc_primary (promote_primary rc t) = t" "rc_derived_accounts (promote_primary rc t) = rc_derived_accounts rc"
  "t \<noteq> rc_primary rc \<Longrightarrow> set (rc_monitored (promote_primary rc t)) = insert (rc_primary rc) (set (rc_monitored rc) - {t})"
  by (auto simp: promote_primary_def Let_def)

lemma set_primary_change:
  assumes "accounts_inv ow" "set_primary_address_type L ow t = Some (ow', r)"
  shows "account_change ow ow'"
proof (cases "t = rc_primary (ow_runtime ow)")
  case True
  then show ?thesis
    using assms by (simp add: set_primary_address_type_def quiet_account_change)
next
  case False
  then obtain ow1 r1 where load: "load_primary L ow (account_zero t) = Some (ow1, r1)"
    using assms(2) by (auto simp: set_primary_address_type_def Let_def bind_eq_Some_conv)
  have promoted: "account_change ow ow'" if ok: "r1 = Inr ()"
    and ow1: "agg_inv (ow_inner ow1)" "account_zero t \<in> set (loaded_keys ow1)" "ow_runtime ow1 = ow_runtime ow"
    and keys: "set (loaded_keys ow1) \<subseteq> insert (account_zero t) (set (loaded_keys ow))"
    and gen: "set (loaded_keys ow1) = set (loaded_keys ow) \<or> ow_generation ow1 = ow_generation ow + 1"
  proof -
    have "snd (set_primary (ow_inner ow1) (account_zero t)) = Inr ()"
      "fst (set_primary (ow_inner ow1) (account_zero t)) = (ow_inner ow1)\<lparr>agg_primary := account_zero t\<rparr>"
      using ow1(2) by (auto simp: set_primary_def loaded_keys_def map_of_eq_None_iff)
    then have "ow_inner ow' = (ow_inner ow1)\<lparr>agg_primary := account_zero t\<rparr>"
      "ow_runtime ow' = promote_primary (ow_runtime ow) t" "ow_generation ow' = ow_generation ow1"
      using assms(2) False load ok ow1(3)
      by (auto simp: set_primary_address_type_def Let_def with_inner_eq split: if_splits)
    moreover have "agg_inv ((ow_inner ow1)\<lparr>agg_primary := account_zero t\<rparr>)"
      using ow1(1,2) by (auto simp: agg_inv_def agg_keys_def loaded_keys_def)
    moreover have "insert (account_zero t) (registered_accounts (ow_runtime ow))
        \<subseteq> registered_accounts (promote_primary (ow_runtime ow) t)"
      using False by (auto simp: registered_accounts_def)
    then have "set (loaded_keys ow1) \<subseteq> registered_accounts (promote_primary (ow_runtime ow) t)"
      using assms(1) keys unfolding accounts_inv_def by blast
    moreover have "loaded_keys ow' = loaded_keys ow1"
      using calculation(1) by (simp add: loaded_keys_def)
    ultimately show ?thesis
      using assms(1) gen False by (simp add: account_change_def accounts_inv_def)
  qed
  from load show ?thesis
  proof (cases rule: load_primary_run)
    case (fail e)
    then show ?thesis
      using assms False load by (simp add: set_primary_address_type_def Let_def quiet_account_change)
  next
    case loaded
    then show ?thesis
      using promoted assms(1) by (auto simp: accounts_inv_def)
  next
    case (load w p)
    then show ?thesis
      using promoted assms(1) add_wallet_ok [OF load(2)] agg_inv_add_wallet [of "ow_inner ow" "account_zero t" w p]
      by (auto simp: accounts_inv_def loaded_keys_def)
  qed
qed

lemma registered_register_derived:
  "registered_accounts (register_derived account rc) = insert account (registered_accounts rc)"
  "rc_primary (register_derived account rc) = rc_primary rc" "rc_monitored (register_derived account rc) = rc_monitored rc"
  "set (rc_derived_accounts (register_derived account rc)) = insert account (set (rc_derived_accounts rc))"
  by (auto simp: register_derived_def registered_accounts_def)

lemma register_derived_change:
  assumes "accounts_inv ow" "is_derived account" "agg_inv (ow_inner ow1)" "agg_primary (ow_inner ow1) = agg_primary (ow_inner ow)"
    and "set (loaded_keys ow1) \<subseteq> insert account (set (loaded_keys ow))" "ow_runtime ow1 = ow_runtime ow"
    and "set (loaded_keys ow1) = set (loaded_keys ow) \<or> ow_generation ow1 = ow_generation ow + 1"
  shows "account_change ow (ow1\<lparr>ow_runtime := register_derived account (ow_runtime ow1)\<rparr>)"
proof -
  have "set (loaded_keys ow1) \<subseteq> insert account (registered_accounts (ow_runtime ow))"
    using assms(1,5) unfolding accounts_inv_def by blast
  then show ?thesis
    using assms by (simp add: account_change_def accounts_inv_def registered_register_derived loaded_keys_def)
qed

lemma add_onchain_run:
  fixes L :: "('w, 'p, 'u, 'ev, 'blk, 'b, 'x, 'c, 'kv, 'addr, 'route) onchain_libs"
  assumes "add_onchain_wallet_account L ow t i xpub = Some (ow', r)"
  defines "account \<equiv> \<lparr>wa_address_type = t, wa_account_index = i\<rparr>" and "W \<equiv> lib_ops (ol_agg L)"
  obtains (same) "ow' = ow"
    | (loaded) "is_derived account" "account \<in> set (loaded_keys ow)"
        "ow' = ow\<lparr>ow_inner := fst (persist_all W (ow_inner ow))\<rparr>
         \<or> ow' = ow\<lparr>ow_inner := fst (persist_all W (ow_inner ow)), ow_runtime := register_derived account (ow_runtime ow)\<rparr>"
    | (load) w p a q where "is_derived account" "add_wallet_and_persist W (ow_inner ow) account w p = Some (a, q)"
        "ow' = (if isl q then ow\<lparr>ow_inner := a\<rparr>
                else ow\<lparr>ow_inner := a, ow_generation := ow_generation ow + 1,
                       ow_runtime := register_derived account (ow_runtime ow)\<rparr>)"
proof -
  have der: "i \<noteq> 0 \<Longrightarrow> is_derived account"
    by (simp add: account_def is_derived_def word_le_nat_alt Suc_le_eq unat_gt_0)
  show thesis
  proof (cases "i = 0 \<or> MAX_ONCHAIN_WALLET_ACCOUNT_INDEX < i \<or> export_onchain_wallet_account_xpub L t i \<noteq> Inr (trim xpub)")
    case True
    then show ?thesis
      using assms same
      by (cases "export_onchain_wallet_account_xpub L t i")
        (auto simp: add_onchain_wallet_account_def Let_def split: if_splits)
  next
    case False
    show ?thesis
    proof (cases "account \<in> set (loaded_keys ow)")
      case True
      then show ?thesis
        using assms False loaded der by (cases "snd (persist_all W (ow_inner ow))")
          (auto simp: add_onchain_wallet_account_def Let_def with_inner_eq)
    next
      case new: False
      obtain tip where tip: "current_best_block W (ow_inner ow) = Some tip"
        using assms False new by (auto simp: add_onchain_wallet_account_def Let_def bind_eq_Some_conv)
      show ?thesis
      proof (cases "create_wallet_for_account L account tip (Some (ol_lookahead L))")
        case (Inl e)
        then show ?thesis
          using assms False new tip same by (simp add: add_onchain_wallet_account_def Let_def)
      next
        case (Inr wp)
        obtain w p where wp: "wp = (w, p)"
          by (cases wp)
        obtain a q where run: "add_wallet_and_persist W (ow_inner ow) account w p = Some (a, q)"
          using assms False new tip Inr wp by (auto simp: add_onchain_wallet_account_def Let_def bind_eq_Some_conv)
        show ?thesis
          using assms False new tip Inr wp run der load [OF _ run]
          by (cases q) (auto simp: add_onchain_wallet_account_def Let_def with_inner_eq)
      qed
    qed
  qed
qed

lemma add_onchain_change:
  fixes L :: "('w, 'p, 'u, 'ev, 'blk, 'b, 'x, 'c, 'kv, 'addr, 'route) onchain_libs"
  assumes "accounts_inv ow" "add_onchain_wallet_account L ow t i xpub = Some (ow', r)"
  shows "account_change ow ow'"
proof -
  let ?account = "\<lparr>wa_address_type = t, wa_account_index = i\<rparr>" and ?W = "lib_ops (ol_agg L)"
  let ?run = "persist_all ?W (ow_inner ow)"
  from assms(2) show ?thesis
  proof (cases rule: add_onchain_run)
    case same
    then show ?thesis
      using assms(1) by (simp add: quiet_account_change)
  next
    case loaded
    have q: "quiet ow (ow\<lparr>ow_inner := fst ?run\<rparr>)"
      by (simp add: quiet_def op_keys_fst)
    note inv = accounts_inv_quiet [OF q assms(1)]
    have "account_change ow (ow\<lparr>ow_inner := fst ?run, ow_runtime := register_derived ?account (ow_runtime ow)\<rparr>)"
      using register_derived_change [OF assms(1) loaded(1), of "ow\<lparr>ow_inner := fst ?run\<rparr>"] inv quiet_loaded [OF q] assms(1)
      by (auto simp: accounts_inv_def)
    then show ?thesis
      using loaded(3) quiet_account_change [OF assms(1) q] by auto
  next
    case (load w p a q)
    have "agg_inv (ow_inner ow)"
      using assms(1) by (simp add: accounts_inv_def)
    then obtain a' q' where "add_wallet_and_persist ?W (ow_inner ow) ?account w p = Some (a', q')" "agg_inv a'"
      "case q' of Inl e \<Rightarrow> agg_keys a' = agg_keys (ow_inner ow)
         | Inr _ \<Rightarrow> map_of (agg_wallets (ow_inner ow)) ?account = None \<and> map_of (agg_wallets a') ?account \<noteq> None"
      by (rule add_wallet_and_persist_total)
    then have inv: "agg_inv a" and err: "isl q \<longrightarrow> agg_keys a = agg_keys (ow_inner ow)"
      using load(2) by (simp_all split: sum.splits)
    show ?thesis
    proof (cases q)
      case (Inl e)
      then show ?thesis
        using load(3) err assms(1) by (simp add: quiet_account_change quiet_def)
    next
      case (Inr u)
      then show ?thesis
        using load register_derived_change [OF assms(1) load(1),
          of "ow\<lparr>ow_inner := a, ow_generation := ow_generation ow + 1\<rparr>"]
          add_wallet_and_persist_ok [of ?W "ow_inner ow" ?account w p a u] inv
        by (simp add: loaded_keys_def)
    qed
  qed
qed

lemma unregister_derived_simps [simp]:
  "ow_inner (unregister_derived account ow) = ow_inner ow" "ow_generation (unregister_derived account ow) = ow_generation ow"
  "loaded_keys (unregister_derived account ow) = loaded_keys ow"
  "rc_primary (ow_runtime (unregister_derived account ow)) = rc_primary (ow_runtime ow)"
  "rc_monitored (ow_runtime (unregister_derived account ow)) = rc_monitored (ow_runtime ow)"
  "rc_derived_accounts (ow_runtime (unregister_derived account ow)) = removeAll account (rc_derived_accounts (ow_runtime ow))"
  by (simp_all add: unregister_derived_def loaded_keys_def)

lemma remove_onchain_change:
  assumes "accounts_inv ow" "remove_onchain_wallet_account ow t i = (ow', r)"
  shows "account_change ow ow'"
proof (cases "i = 0 \<or> MAX_ONCHAIN_WALLET_ACCOUNT_INDEX < i
    \<or> \<lparr>wa_address_type = t, wa_account_index = i\<rparr> \<notin> set (rc_derived_accounts (ow_runtime ow))")
  case True
  then have "ow' = ow"
    using assms(2) by (auto simp: remove_onchain_wallet_account_def Let_def split: if_splits)
  then show ?thesis
    using assms(1) by (simp add: quiet_account_change)
next
  case False
  let ?account = "\<lparr>wa_address_type = t, wa_account_index = i\<rparr>"
  obtain a q where run: "remove_wallet (ow_inner ow) ?account = (a, q)"
    by (metis prod.exhaust)
  have inv: "agg_inv a"
    using agg_inv_remove_wallet [of "ow_inner ow" ?account] run assms(1) by (simp add: accounts_inv_def)
  have others: "registered_accounts (ow_runtime ow) - {?account} \<subseteq> registered_accounts (ow_runtime (unregister_derived ?account ow1))"
    if "ow_runtime ow1 = ow_runtime ow" for ow1 :: "('a, 'b, 'c) onchain_wallet"
    using that by (auto simp: registered_accounts_def)
  have finish: "account_change ow (unregister_derived ?account ow1)"
    if "ow_runtime ow1 = ow_runtime ow" "agg_inv (ow_inner ow1)" "agg_primary (ow_inner ow1) = agg_primary (ow_inner ow)"
      "set (loaded_keys ow1) \<subseteq> set (loaded_keys ow) - {?account}"
      "set (loaded_keys ow1) = set (loaded_keys ow) \<or> ow_generation ow1 = ow_generation ow + 1"
    for ow1 :: "('a, 'b, 'c) onchain_wallet"
  proof -
    have "set (loaded_keys ow1) \<subseteq> registered_accounts (ow_runtime (unregister_derived ?account ow1))"
      using that(4) others [OF that(1)] assms(1) unfolding accounts_inv_def by blast
    then show ?thesis
      using that assms(1) by (simp add: account_change_def accounts_inv_def)
  qed
  consider (removed) "remove_wallet (ow_inner ow) ?account = (a, Inr ())"
    | (gone) "remove_wallet (ow_inner ow) ?account = (a, Inl AggWalletNotFound)"
    | (bad) e where "remove_wallet (ow_inner ow) ?account = (a, Inl e)" "e \<noteq> AggWalletNotFound"
    using run by (cases q) auto
  then show ?thesis
  proof cases
    case removed
    have "ow' = unregister_derived ?account (ow\<lparr>ow_inner := a, ow_generation := ow_generation ow + 1\<rparr>)"
      using assms(2) False removed by (simp add: remove_onchain_wallet_account_def Let_def)
    then show ?thesis
      using finish [of "ow\<lparr>ow_inner := a, ow_generation := ow_generation ow + 1\<rparr>"] inv remove_wallet_ok [OF removed]
      by (simp add: loaded_keys_def)
  next
    case gone
    have "ow' = unregister_derived ?account (ow\<lparr>ow_inner := a\<rparr>)"
      using assms(2) False gone by (simp add: remove_onchain_wallet_account_def Let_def)
    then show ?thesis
      using finish [of "ow\<lparr>ow_inner := a\<rparr>"] inv remove_wallet_err [OF gone] remove_wallet_missing [OF gone]
      by (simp add: loaded_keys_def)
  next
    case bad
    then have "ow' = ow"
      using assms(2) False remove_wallet_err [OF bad(1)]
      by (cases e) (simp_all add: remove_onchain_wallet_account_def Let_def)
    then show ?thesis
      using assms(1) by (simp add: quiet_account_change)
  qed
qed

lemma rewind_quiet:
  assumes "accounts_inv ow" "rewind_wallet_account L ow account hash height = (ow', r)"
  shows "quiet ow ow'"
proof -
  let ?a = "fst (persist_all (lib_ops (ol_agg L)) (ow_inner ow))"
  have keys: "agg_keys ?a = agg_keys (ow_inner ow)"
    by (rule op_keys_fst)
  have found: "agg_keys (?a\<lparr>agg_wallets := AList.update account w (agg_wallets ?a),
      agg_persisters := AList.update account p (agg_persisters ?a)\<rparr>) = agg_keys ?a"
    if "map_of (agg_wallets (ow_inner ow)) account \<noteq> None" for w p
  proof -
    have same: "map fst (agg_wallets ?a) = map fst (agg_wallets (ow_inner ow))"
      "map fst (agg_persisters ?a) = map fst (agg_persisters (ow_inner ow))"
      using keys by (simp_all add: agg_keys_def)
    have "set (map fst (agg_persisters (ow_inner ow))) = set (map fst (agg_wallets (ow_inner ow)))"
      using assms(1) by (simp add: accounts_inv_def agg_inv_def agg_keys_def)
    then have "account \<in> set (map fst (agg_wallets ?a))" "account \<in> set (map fst (agg_persisters ?a))"
      using that unfolding same map_of_keys by simp_all
    then obtain w0 p0 where "map_of (agg_wallets ?a) account = Some w0" "map_of (agg_persisters ?a) account = Some p0"
      unfolding map_of_keys [symmetric] by blast
    then show ?thesis
      by (simp add: agg_keys_def map_fst_update)
  qed
  have base: "quiet ow (ow\<lparr>ow_inner := ?a\<rparr>)"
    using keys by (simp add: quiet_def)
  show ?thesis
  proof (cases "new_master (ol_keys L) (cfg_network (ol_config L)) (ol_seed L) = None
      \<or> map_of (agg_wallets (ow_inner ow)) account = None")
    case True
    then have "ow' = ow"
      using assms(2) by (auto simp: rewind_wallet_account_def split: option.splits)
    then show ?thesis
      by simp
  next
    case False
    then obtain xprv w0 where x: "new_master (ol_keys L) (cfg_network (ol_config L)) (ol_seed L) = Some xprv"
      "map_of (agg_wallets (ow_inner ow)) account = Some w0"
      by auto
    show ?thesis
    proof (cases "snd (persist_all (lib_ops (ol_agg L)) (ow_inner ow))")
      case (Inl e)
      then show ?thesis
        using assms(2) x base by (simp add: rewind_wallet_account_def with_inner_eq)
    next
      case ok: (Inr u)
      show ?thesis
      proof (cases "reload_rewound L account xprv hash height")
        case (Inl e)
        then show ?thesis
          using assms(2) x ok base by (simp add: rewind_wallet_account_def with_inner_eq)
      next
        case (Inr wp)
        then show ?thesis
          using assms(2) x ok keys found [where w = "fst wp" and p = "snd wp"]
          by (auto simp: rewind_wallet_account_def with_inner_eq case_prod_unfold quiet_def)
      qed
    qed
  qed
qed

section \<open>Runs of the wallet\<close>

inductive wallet_step ::
    "('w, 'p, 'u, 'ev, 'blk, 'b, 'x, 'c, 'kv, 'addr, 'route) onchain_libs \<Rightarrow> ('w, 'p, 'kv) onchain_wallet
       \<Rightarrow> ('w, 'p, 'kv) onchain_wallet \<Rightarrow> bool"
  for L where
  add_monitored: "add_monitored_address_type L ow t = Some (ow', r) \<Longrightarrow> wallet_step L ow ow'"
| remove_monitored: "remove_monitored_address_type ow t = (ow', r) \<Longrightarrow> wallet_step L ow ow'"
| set_primary_type: "set_primary_address_type L ow t = Some (ow', r) \<Longrightarrow> wallet_step L ow ow'"
| add_account: "add_onchain_wallet_account L ow t i xpub = Some (ow', r) \<Longrightarrow> wallet_step L ow ow'"
| remove_account: "remove_onchain_wallet_account ow t i = (ow', r) \<Longrightarrow> wallet_step L ow ow'"
| rewind: "rewind_wallet_account L ow account hash height = (ow', r) \<Longrightarrow> wallet_step L ow ow'"
| update: "wallet_apply_update L ow u = (ow', re) \<Longrightarrow> wallet_step L ow ow'"
| update_account: "apply_update_for_wallet_account L ow account u = (ow', ro) \<Longrightarrow> wallet_step L ow ow'"
| block_account: "apply_block_to_account L ow account block height = (ow', r) \<Longrightarrow> wallet_step L ow ow'"
| finish_sync: "finish_pending_sync L ow refresh = Some (ow', r) \<Longrightarrow> wallet_step L ow ow'"
| mempool: "wallet_apply_mempool_txs L ow txs evicted = Some (ow', r) \<Longrightarrow> wallet_step L ow ow'"
| block: "block_connected L ow block height = Some ow' \<Longrightarrow> wallet_step L ow ow'"
| payments: "update_payment_store L ow = Some (ow', r) \<Longrightarrow> wallet_step L ow ow'"
| address: "get_new_address_info L ow = (ow', ri) \<Longrightarrow> wallet_step L ow ow'"
| address_account: "get_new_address_info_for_account L ow account = (ow', ri) \<Longrightarrow> wallet_step L ow ow'"
| reveal: "reveal_receive_addresses_to_account L ow account i = (ow', r) \<Longrightarrow> wallet_step L ow ow'"
| witness_address: "get_new_witness_address L ow = (ow', ri) \<Longrightarrow> wallet_step L ow ow'"
| internal_address: "get_new_internal_address L ow = (ow', rs) \<Longrightarrow> wallet_step L ow ow'"
| cancel: "wallet_cancel_transaction L ow tx = (ow', r) \<Longrightarrow> wallet_step L ow ow'"
| synced: "wallet_step L ow (mark_derived_account_synced ow account)"

lemma mark_synced_quiet: "quiet ow (mark_derived_account_synced ow account)"
  by (simp add: quiet_def mark_derived_account_synced_def)

lemma wallet_step_change:
  assumes "wallet_step L ow ow'" "accounts_inv ow"
  shows "account_change ow ow'"
  using assms(1)
proof cases
  case add_monitored
  then show ?thesis by (rule add_monitored_change [OF assms(2)])
next
  case remove_monitored
  then show ?thesis by (rule remove_monitored_change [OF assms(2)])
next
  case set_primary_type
  then show ?thesis by (rule set_primary_change [OF assms(2)])
next
  case add_account
  then show ?thesis by (rule add_onchain_change [OF assms(2)])
next
  case remove_account
  then show ?thesis by (rule remove_onchain_change [OF assms(2)])
next
  case rewind
  then show ?thesis by (intro quiet_account_change [OF assms(2)] rewind_quiet [OF assms(2)])
next
  case synced
  then show ?thesis by (simp add: quiet_account_change [OF assms(2)] mark_synced_quiet)
qed (erule quiet_account_change [OF assms(2) apply_quiet(1)] quiet_account_change [OF assms(2) apply_quiet(2)]
    quiet_account_change [OF assms(2) apply_quiet(3)] quiet_account_change [OF assms(2) apply_quiet(4)]
    quiet_account_change [OF assms(2) apply_quiet(5)] quiet_account_change [OF assms(2) block_connected_quiet]
    quiet_account_change [OF assms(2) update_payment_store_quiet] quiet_account_change [OF assms(2) witness_address_quiet]
    quiet_account_change [OF assms(2) address_quiet(1)] quiet_account_change [OF assms(2) address_quiet(2)]
    quiet_account_change [OF assms(2) address_quiet(3)] quiet_account_change [OF assms(2) address_quiet(4)]
    quiet_account_change [OF assms(2) address_quiet(5)])+

lemma wallet_steps_inv:
  assumes "(wallet_step L)\<^sup>*\<^sup>* ow ow'" "accounts_inv ow"
  shows "accounts_inv ow'"
  using assms by (induction rule: rtranclp_induct) (auto dest: wallet_step_change simp: account_change_def)

text \<open>The wallets the builder sets up are those of registered accounts.\<close>

lemma build_wallet_account: "build_wallet_for_account K S c account xprv tip ahead = Inr (k, w, p) \<Longrightarrow> k = account"
  by (auto simp: build_wallet_for_account_def split: prod.splits sum.splits if_splits option.splits)

lemma additional_fold_accounts:
  assumes "fold (\<lambda>account r. and_then r (\<lambda>wallets.
      and_then (build_wallet_for_account K S c account xprv tip ahead) (\<lambda>tuple. Inr (wallets @ [tuple])))) accounts (Inr ws) = Inr ws'"
  shows "fst ` set ws' = fst ` set ws \<union> set accounts"
proof -
  have stuck: "fold (\<lambda>account r. and_then r (\<lambda>wallets.
      and_then (build_wallet_for_account K S c account xprv tip ahead) (\<lambda>tuple. Inr (wallets @ [tuple])))) accounts (Inl e) = Inl e"
    for accounts e
    by (induction accounts) simp_all
  show ?thesis
    using assms
  proof (induction accounts arbitrary: ws)
    case (Cons account accounts)
    obtain k w p where b: "build_wallet_for_account K S c account xprv tip ahead = Inr (k, w, p)"
      using Cons.prems stuck by (cases "build_wallet_for_account K S c account xprv tip ahead") auto
    then have "fst ` set ws' = fst ` set (ws @ [(k, w, p)]) \<union> set accounts"
      using Cons.prems by (intro Cons.IH) simp
    then show ?case
      using build_wallet_account [OF b] by auto
  qed simp
qed

lemma additional_wallets_accounts:
  assumes "build_additional_wallets K S c configured xprv tip ahead = Inr additional"
  shows "fst ` set additional \<subseteq> account_zero ` {t \<in> set (cfg_address_types_to_monitor c). t \<noteq> cfg_address_type c} \<union> set configured"
proof -
  let ?monitored = "List.map_filter (\<lambda>t. case build_wallet_for_account K S c (account_zero t) xprv tip None of
      Inr tuple \<Rightarrow> Some tuple | Inl e \<Rightarrow> None) (Config_additional_address_types c)"
  have "fst ` set additional = fst ` set ?monitored \<union> set configured"
    by (rule additional_fold_accounts [of K S c xprv tip "Some ahead"])
      (use assms in \<open>simp add: build_additional_wallets_def Let_def\<close>)
  moreover have "fst ` set ?monitored \<subseteq> account_zero ` set (Config_additional_address_types c)"
    by (auto simp: List.map_filter_def dest!: build_wallet_account split: sum.splits)
  moreover have "set (Config_additional_address_types c) = {t \<in> set (cfg_address_types_to_monitor c). t \<noteq> cfg_address_type c}"
    by (auto simp: Config_additional_address_types_def set_first_occurrences)
  ultimately show ?thesis
    by blast
qed


lemma fold_update_keys:
  "set (map fst (fold (\<lambda>(k, w, _). AList.update k w) additional ws)) = fst ` set additional \<union> set (map fst ws)"
proof (induction additional arbitrary: ws)
  case (Cons e additional)
  have "set (map fst (AList.update (fst e) (fst (snd e)) ws)) = insert (fst e) (set (map fst ws))"
    unfolding set_map by (rule keys_update)
  with Cons show ?case
    by (simp add: case_prod_unfold)
qed simp

lemma Wallet_new_accounts_inv:
  assumes "validate_configured_onchain_wallet_accounts K (ol_config L) xprv = Inr derived"
    and "build_additional_wallets K S (ol_config L) derived xprv tip ahead = Inr additional"
  shows "accounts_inv (Wallet_new L w p additional est payments kv (runtime_config_from_config (ol_config L) derived) metrics)"
proof -
  let ?a = "aggregate_new w p (account_zero (cfg_address_type (ol_config L))) additional"
  have "\<forall>a \<in> set derived. is_derived a"
    by (rule validate_configured_accounts_sound(2) [OF assms(1)])
  moreover have "set (map fst (agg_wallets ?a)) = insert (account_zero (cfg_address_type (ol_config L))) (fst ` set additional)"
    by (simp add: aggregate_new_def fold_update_keys [unfolded set_map])
  ultimately show ?thesis
    using additional_wallets_accounts [OF assms(2)] agg_inv_new [of w p _ additional]
    unfolding accounts_inv_def Wallet_new_def loaded_keys_def runtime_config_from_config_def registered_accounts_def
    by (auto simp: aggregate_new_def)
qed

text \<open>One payment record is written at a time, and only its own.\<close>

lemma insert_or_update_other:
  assumes "DataStore_insert_or_update S ops ds kv d = (r, ds', kv')" "i \<noteq> so_id S d"
  shows "objects ds' i = objects ds i"
  using assms by (auto simp: DataStore_insert_or_update_def split: option.splits prod.splits sum.splits if_splits)

lemma payment_merge_fields:
  "pd_status (payment_merge now old d) = pd_status d" "pd_amount_msat (payment_merge now old d) = pd_amount_msat d"
  "pd_fee_paid_msat (payment_merge now old d) = pd_fee_paid_msat d"
proof -
  let ?up = "PaymentDetailsUpdate_from d"
  have up: "pu_status ?up = Some (pd_status d)" "pu_amount_msat ?up = Some (pd_amount_msat d)"
    "pu_fee_paid_msat ?up = Some (pd_fee_paid_msat d)"
    unfolding PaymentDetailsUpdate_from_def Let_def case_prod_unfold by simp_all
  have over: "pd_status (details_overwrite ?up e) = pd_status d" "pd_amount_msat (details_overwrite ?up e) = pd_amount_msat d"
    "pd_fee_paid_msat (details_overwrite ?up e) = pd_fee_paid_msat d" for e
    by (simp_all add: details_overwrite_def up)
  have merged: "\<exists>t. payment_merge now (Some e) d = (details_overwrite ?up e)\<lparr>pd_latest_update_timestamp := t\<rparr>" for e
  proof (cases "details_overwrite ?up e = e")
    case True
    then have "payment_merge now (Some e) d = e"
      by (simp add: payment_merge_def PaymentDetails_update_overwrite)
    then show ?thesis
      using True by (intro exI [of _ "pd_latest_update_timestamp e"]) simp
  next
    case False
    then show ?thesis
      by (auto simp: payment_merge_def PaymentDetails_update_overwrite)
  qed
  show "pd_status (payment_merge now old d) = pd_status d"
    using merged [of "the old"] over(1) [of "the old"] by (cases old) (auto simp: payment_merge_def)
  show "pd_amount_msat (payment_merge now old d) = pd_amount_msat d"
    using merged [of "the old"] over(2) [of "the old"] by (cases old) (auto simp: payment_merge_def)
  show "pd_fee_paid_msat (payment_merge now old d) = pd_fee_paid_msat d"
    using merged [of "the old"] over(3) [of "the old"] by (cases old) (auto simp: payment_merge_def)
qed

lemma onchain_payment_fields:
  "pd_id (onchain_payment L a height w i) = txid_payment_id i"
  "pd_status (onchain_payment L a height w i)
     = fst (onchain_status (ol_reorg_delay L) height (map_of (transaction_confirmations (lib_view (ol_agg L)) a) i))"
  by (simp_all add: onchain_payment_def PaymentDetails_new_def Let_def case_prod_unfold)

lemma onchain_status_fst:
  "fst (onchain_status delay height c) = (case c of
     Some anchor \<Rightarrow> if cb_height anchor + delay - 1 \<le> height then Succeeded else Pending | None \<Rightarrow> Pending)"
  by (simp add: onchain_status_def split: option.splits)

lemma txid_payment_id_inj [simp]: "txid_payment_id i = txid_payment_id j \<longleftrightarrow> i = j"
  by (cases i; cases j) simp

text \<open>What the loop leaves behind for a transaction: the record it had, or the one of its first entry.\<close>

lemma update_payments_loop_status:
  assumes "\<And>w old. P (payment_merge (ol_now L) old (onchain_payment L a height w i))"
    and "update_payments_loop L a height seen entries ds kv = (Inr (), ds', kv')"
    and "i \<in> seen \<Longrightarrow> \<exists>d. DataStore_get ds (txid_payment_id i) = Some d \<and> P d" "i \<in> seen \<union> snd ` set entries"
  shows "\<exists>d. DataStore_get ds' (txid_payment_id i) = Some d \<and> P d"
  using assms(2-)
proof (induction entries arbitrary: seen ds kv)
  case Nil
  then show ?case by simp
next
  case (Cons e entries)
  obtain w j where e: "e = (w, j)"
    by (cases e)
  show ?case
  proof (cases "j \<in> seen")
    case True
    with Cons.prems e show ?thesis
      by (intro Cons.IH [of seen ds kv]) auto
  next
    case False
    obtain b ds1 kv1 where ins: "DataStore_insert_or_update (payment_storable (ol_now L) (ol_payment L)) (ol_kv L) ds kv
        (onchain_payment L a height w j) = (Inr b, ds1, kv1)"
      using Cons.prems(1) e False by (auto split: prod.splits sum.splits)
    have mine: "DataStore_get ds1 (txid_payment_id j)
        = Some (payment_merge (ol_now L) (DataStore_get ds (txid_payment_id j)) (onchain_payment L a height w j))"
      using insert_or_update_result [OF ins] by (simp add: onchain_payment_fields)
    have other: "DataStore_get ds1 (txid_payment_id i) = DataStore_get ds (txid_payment_id i)" if "i \<noteq> j"
      using insert_or_update_other [OF ins, of "txid_payment_id i"] that
      by (simp add: DataStore_get_def payment_storable_def onchain_payment_fields)
    show ?thesis
    proof (rule Cons.IH [of "insert j seen" ds1 kv1])
      show "update_payments_loop L a height (insert j seen) entries ds1 kv1 = (Inr (), ds', kv')"
        using Cons.prems(1) e False ins by simp
      show "i \<in> insert j seen \<union> snd ` set entries"
        using Cons.prems(3) e by auto
      show "\<exists>d. DataStore_get ds1 (txid_payment_id i) = Some d \<and> P d" if "i \<in> insert j seen"
        using that mine other Cons.prems(2) assms(1) by (cases "i = j") auto
    qed
  qed
qed

lemma update_payments_loop_synced:
  assumes "ol_kv L = sqlite_ops alphabet max_len db"
    and "sqlite_fresh kv" "keyed (payment_storable (ol_now L) (ol_payment L)) ds"
    and "synced (payment_storable (ol_now L) (ol_payment L)) ds (kv_table kv)"
    and "update_payments_loop L a height seen entries ds kv = (r, ds', kv')"
  shows "sqlite_fresh kv' \<and> keyed (payment_storable (ol_now L) (ol_payment L)) ds'
    \<and> synced (payment_storable (ol_now L) (ol_payment L)) ds' (kv_table kv')"
  using assms(2-)
proof (induction entries arbitrary: seen ds kv)
  case Nil
  then show ?case by simp
next
  case (Cons e entries)
  obtain w j where e: "e = (w, j)"
    by (cases e)
  show ?case
  proof (cases "j \<in> seen")
    case True
    with Cons e show ?thesis by simp
  next
    case False
    obtain r1 ds1 kv1 where ins: "DataStore_insert_or_update (payment_storable (ol_now L) (ol_payment L))
        (sqlite_ops alphabet max_len db) ds kv (onchain_payment L a height w j) = (r1, ds1, kv1)"
      by (metis prod_cases3)
    note ok = payments.insert_or_update_ok [OF Cons.prems(1-3) ins]
    show ?thesis
    proof (cases r1)
      case (Inl e1)
      then show ?thesis
        using Cons.prems(4) e False ins ok assms(1) by auto
    next
      case (Inr b)
      then show ?thesis
        using Cons.prems(4) e False ins ok assms(1) by (intro Cons.IH [of kv1 ds1 "insert j seen"]) simp_all
    qed
  qed
qed

section \<open>The properties\<close>

text \<open>
  C37: from the wallet the builder sets up, whatever accounts are added, removed or promoted, whatever
  blocks, updates and mempool transactions arrive, with every failure of a crate or of the store on the
  way, the account state stays well formed: the wallets and their persisters are of the same accounts,
  the primary wallet is loaded and is that of the primary address type, which is not monitored too,
  derived accounts have a positive index, and every loaded wallet belongs to a registered account. A step
  that changes which accounts are loaded moves the generation, on which a running sync notices it.
\<close>

theorem accounts_stay_consistent:
  assumes "validate_configured_onchain_wallet_accounts K (ol_config L) xprv = Inr derived"
    and "build_additional_wallets K S (ol_config L) derived xprv tip ahead = Inr additional"
    and "(wallet_step L)\<^sup>*\<^sup>* (Wallet_new L w p additional est payments kv
           (runtime_config_from_config (ol_config L) derived) metrics) ow"
    and "wallet_step L ow ow'"
  shows "accounts_inv ow \<and> accounts_inv ow'
    \<and> (set (loaded_keys ow') = set (loaded_keys ow) \<or> ow_generation ow' = ow_generation ow + 1)"
  using wallet_steps_inv [OF assms(3) Wallet_new_accounts_inv [OF assms(1,2)]] wallet_step_change [OF assms(4)]
  by (simp add: account_change_def)

text \<open>
  C38: refreshing the payments from the wallets' transactions keeps the payments in memory and those on disk
  equal, whichever write fails, and remembers a failure as work that is still to be done. When it succeeds every transaction
  of every loaded wallet has a payment record, which has succeeded exactly when the transaction is
  buried by \<open>ANTI_REORG_DELAY\<close> blocks and is pending otherwise, also after a reorganisation.
\<close>

theorem payments_follow_the_chain:
  assumes "ol_kv L = sqlite_ops alphabet max_len db" "sqlite_fresh (ow_kv ow)"
    and "keyed (payment_storable (ol_now L) (ol_payment L)) (ow_payments ow)"
    and "synced (payment_storable (ol_now L) (ol_payment L)) (ow_payments ow) (kv_table (ow_kv ow))"
    and "current_best_block (lib_ops (ol_agg L)) (ow_inner ow) = Some (hash, height)"
    and "update_payment_store L ow = Some (ow', r)"
  shows "synced (payment_storable (ol_now L) (ol_payment L)) (ow_payments ow') (kv_table (ow_kv ow'))
    \<and> ow_update_pending ow' = isl r
    \<and> (r = Inr () \<longrightarrow> (\<forall>w \<in> snd ` set (agg_wallets (ow_inner ow)).
         \<forall>i \<in> fst ` set (transactions (lib_view (ol_agg L)) w). \<exists>d.
           DataStore_get (ow_payments ow') (txid_payment_id i) = Some d
           \<and> pd_status d = (case map_of (transaction_confirmations (lib_view (ol_agg L)) (ow_inner ow)) i of
               Some anchor \<Rightarrow> if cb_height anchor + ol_reorg_delay L - 1 \<le> height then Succeeded else Pending
             | None \<Rightarrow> Pending)))"
proof -
  let ?V = "lib_view (ol_agg L)" and ?a = "ow_inner ow"
  obtain ds kv where loop: "update_payments_loop L ?a height {} (wallet_entries ?V ?a) (ow_payments ow) (ow_kv ow) = (r, ds, kv)"
    and ow': "ow' = ow\<lparr>ow_payments := ds, ow_kv := kv, ow_update_pending := isl r\<rparr>"
    using assms(5,6) by (auto simp: update_payment_store_def Let_def split: prod.splits)
  have status: "\<exists>d. DataStore_get ds (txid_payment_id i) = Some d
      \<and> pd_status d = fst (onchain_status (ol_reorg_delay L) height (map_of (transaction_confirmations ?V ?a) i))"
    if "r = Inr ()" "w \<in> snd ` set (agg_wallets ?a)" "i \<in> fst ` set (transactions ?V w)" for w i
  proof (rule update_payments_loop_status [where seen = "{}" and entries = "wallet_entries ?V ?a" and i = i])
    show "update_payments_loop L ?a height {} (wallet_entries ?V ?a) (ow_payments ow) (ow_kv ow) = (Inr (), ds, kv)"
      using loop that(1) by simp
    show "i \<in> {} \<union> snd ` set (wallet_entries ?V ?a)"
      using that(2,3) by (force simp: wallet_entries_def)
  qed (simp_all add: payment_merge_fields onchain_payment_fields)
  show ?thesis
    using update_payments_loop_synced [OF assms(1-4) loop] status unfolding onchain_status_fst ow' by simp
qed


section \<open>Examples\<close>

definition example_setup :: "(example_wallet, nat, string, u32) wallet_setup_lib" where
  "example_setup =
     \<lparr>load_wallet = (\<lambda>_ _ _ _ p. (p, Inr None)), create_wallet = (\<lambda>_ _ _ _ p. (p, Some ([], [], []))),
      insert_checkpoint = (\<lambda>w _ _. Some w), new_persister = (\<lambda>_. 0)\<rparr>"

definition example_keys :: "(string, u32) key_lib" where
  "example_keys =
     \<lparr>new_master = (\<lambda>_ _. Some ''m''), hardened_idx = Some, normal_idx = Some, derive_priv = (\<lambda>x _. Some x),
      xpub_string = (\<lambda>x. x)\<rparr>"

definition example_onchain ::
    "(u64 \<Rightarrow> bool) \<Rightarrow> (example_wallet, nat, unit, unit, unit, example_wallet, string, u32, sqlite_store, unit, unit) onchain_libs" where
  "example_onchain db =
     \<lparr>ol_agg = example_libs, ol_keys = example_keys, ol_setup = example_setup, ol_rewind = (\<lambda>p _ _. (p, True)),
      ol_kv = sqlite_ops example_alphabet 120 db, ol_payment = (\<lambda>_. [3]),
      ol_config = Config_default\<lparr>cfg_address_types_to_monitor := [Legacy]\<rparr>,
      ol_seed = [], ol_lookahead = 25, ol_now = 7, ol_txid_string = (\<lambda>_. ''''), ol_txin_weight = 164,
      ol_reorg_delay = 6, ol_floor = 253\<rparr>"

abbreviation example_additional :: "(wallet_account \<times> example_wallet \<times> nat) list" where
  "example_additional \<equiv> [(account_zero Legacy, ([], [], []), 0)]"

definition example_start :: "(example_wallet, nat, sqlite_store) onchain_wallet" where
  "example_start = Wallet_new (example_onchain (\<lambda>_. True)) ([], [(Txid [1], example_tx [] [])], []) 0 example_additional
     OnchainFeeEstimator_new empty_payments (SqliteStore_new Map.empty)
     (runtime_config_from_config (ol_config (example_onchain (\<lambda>_. True))) []) NodeMetrics_default"

lemma example_config:
  "ol_config (example_onchain db) = Config_default\<lparr>cfg_address_types_to_monitor := [Legacy]\<rparr>"
  by (simp add: example_onchain_def)

lemma example_start_validated:
  "validate_configured_onchain_wallet_accounts example_keys (ol_config (example_onchain (\<lambda>_. True))) ''m'' = Inr []"
  by (simp add: example_config validate_configured_onchain_wallet_accounts_def Config_default_def)

lemmas build_eval = build_wallet_for_account_def get_or_create_wallet_for_account_def load_or_create_def
  example_setup_def example_keys_def account_zero_def Config_default_def

lemma example_start_built:
  "build_additional_wallets example_keys example_setup (ol_config (example_onchain (\<lambda>_. True))) [] ''m'' None 25
     = Inr example_additional"
proof -
  have "Config_additional_address_types (Config_default\<lparr>cfg_address_types_to_monitor := [Legacy]\<rparr> :: (unit, unit) config) = [Legacy]"
    by code_simp
  then show ?thesis
    by (simp add: example_config build_additional_wallets_def build_eval List.map_filter_def)
qed

abbreviation example_owner :: example_wallet where
  "example_owner \<equiv> ([], [(Txid [1], example_tx [] [])], [])"

lemma example_start_eq:
  "example_start =
     \<lparr>ow_inner = \<lparr>agg_wallets = [(account_zero NativeSegwit, example_owner), (account_zero Legacy, ([], [], []))],
        agg_persisters = [(account_zero NativeSegwit, 0), (account_zero Legacy, 0)],
        agg_primary = account_zero NativeSegwit\<rparr>,
      ow_generation = 0, ow_synced_derived = [], ow_update_pending = False, ow_payments = empty_payments,
      ow_kv = SqliteStore_new Map.empty,
      ow_runtime = \<lparr>rc_primary = NativeSegwit, rc_monitored = [Legacy], rc_derived_accounts = []\<rparr>,
      ow_metrics = NodeMetrics_default, ow_estimator = OnchainFeeEstimator_new, ow_broadcasts = []\<rparr>"
  by (simp add: example_start_def Wallet_new_def aggregate_new_def example_config runtime_config_from_config_def
      Config_default_def AddressType_default_def account_zero_def)

lemma example_libs_fields:
  "lib_ops (ol_agg (example_onchain db)) = example_wallet_ops" "lib_view (ol_agg (example_onchain db)) = example_view"
  "ol_keys (example_onchain db) = example_keys" "ol_setup (example_onchain db) = example_setup"
  by (simp_all add: example_onchain_def example_libs_def)

lemma example_tip: "current_best_block example_wallet_ops (ow_inner example_start) = Some (BlockHash [], 0)"
  by (simp add: current_best_block_def example_start_eq example_wallet_ops_def less_prod_def)

definition example_added :: "(example_wallet, nat, sqlite_store) onchain_wallet" where
  "example_added = example_start
     \<lparr>ow_inner := fst (add_wallet (ow_inner example_start) (account_zero Taproot) ([], [], []) 0), ow_generation := 1,
      ow_runtime := \<lparr>rc_primary = NativeSegwit, rc_monitored = [Legacy, Taproot], rc_derived_accounts = []\<rparr>\<rparr>"

lemma example_added_run:
  "add_monitored_address_type (example_onchain (\<lambda>_. True)) example_start Taproot = Some (example_added, Inr ())"
proof -
  have "create_wallet_for_account (example_onchain (\<lambda>_. True)) (account_zero Taproot) (BlockHash [], 0) None = Inr (([], [], []), 0)"
    by (simp add: create_wallet_for_account_def example_libs_fields build_eval)
  moreover have "snd (add_wallet (ow_inner example_start) (account_zero Taproot) ([], [], []) 0) = Inr ()"
    by (simp add: add_wallet_def example_start_eq account_zero_def)
  ultimately have "load_account (example_onchain (\<lambda>_. True)) example_start (account_zero Taproot)
      = Some (example_start\<lparr>ow_inner := fst (add_wallet (ow_inner example_start) (account_zero Taproot) ([], [], []) 0),
          ow_generation := ow_generation example_start + 1\<rparr>, Inr ())"
    by (simp add: load_account_def example_libs_fields example_tip with_inner_eq)
  moreover have "ow_runtime example_start = \<lparr>rc_primary = NativeSegwit, rc_monitored = [Legacy], rc_derived_accounts = []\<rparr>"
    "ow_generation example_start = 0"
    by (simp_all add: example_start_eq)
  ultimately show ?thesis
    by (simp add: add_monitored_address_type_def example_added_def)
qed

definition example_promoted :: "(example_wallet, nat, sqlite_store) onchain_wallet" where
  "example_promoted = fst (the (set_primary_address_type (example_onchain (\<lambda>_. True)) example_added Taproot))"

lemma example_added_facts:
  "ow_generation example_added = 1" "account_zero Taproot \<in> set (loaded_keys example_added)"
  "rc_primary (ow_runtime example_added) = NativeSegwit"
  by (simp_all add: example_added_def loaded_keys_def add_wallet_def example_start_eq account_zero_def)

lemma example_promoted_run:
  "\<exists>r. set_primary_address_type (example_onchain (\<lambda>_. True)) example_added Taproot = Some (example_promoted, r)"
proof -
  have "set_primary_address_type (example_onchain (\<lambda>_. True)) example_added Taproot \<noteq> None"
    by (simp add: set_primary_address_type_def load_primary_def example_added_facts with_inner_eq Let_def split: sum.splits)
  then show ?thesis
    by (auto simp: example_promoted_def)
qed

theorem accounts_stay_consistent_witness:
  "accounts_inv example_promoted \<and> account_zero Taproot \<in> set (loaded_keys example_added)
   \<and> (set (loaded_keys example_promoted) = set (loaded_keys example_added) \<or> ow_generation example_promoted = 2)"
proof -
  let ?L = "example_onchain (\<lambda>_. True)"
  have "wallet_step ?L example_start example_added"
    by (rule wallet_step.add_monitored [OF example_added_run])
  then have steps: "(wallet_step ?L)\<^sup>*\<^sup>* example_start example_added"
    by blast
  obtain r where "set_primary_address_type ?L example_added Taproot = Some (example_promoted, r)"
    using example_promoted_run by blast
  then have "wallet_step ?L example_added example_promoted"
    by (rule wallet_step.set_primary_type)
  from accounts_stay_consistent [OF example_start_validated example_start_built steps [unfolded example_start_def] this]
  show ?thesis
    using example_added_facts by simp
qed

definition example_refreshed :: "(example_wallet, nat, sqlite_store) onchain_wallet" where
  "example_refreshed = fst (the (update_payment_store (example_onchain (\<lambda>_. True)) example_start))"

lemma example_insert:
  "isl (fst (DataStore_insert_or_update example_storable (sqlite_ops example_alphabet 120 (\<lambda>_. True)) empty_payments
     (SqliteStore_new Map.empty) (PaymentDetails_new 7 (PaymentId [1]) (Onchain (Txid [1]) Unconfirmed) (Some 0) (Some 0)
        Inbound Pending))) = False"
  by code_simp

lemma example_onchain_payment:
  "onchain_payment (example_onchain db) (ow_inner example_start) 0 example_owner (Txid [1])
     = PaymentDetails_new 7 (PaymentId [1]) (Onchain (Txid [1]) Unconfirmed) (Some 0) (Some 0) Inbound Pending"
proof -
  have "map_of (transaction_confirmations example_view (ow_inner example_start)) (Txid [1]) = None"
    "calculate_tx_fee example_view (ow_inner example_start) (example_tx [] []) = Inr 0"
    "sent_and_received example_view (ow_inner example_start) (Txid [1]) = Some (0, 0)"
    unfolding example_start_eq onchain_wallet.select_convs by code_simp+
  moreover have "get_tx example_view example_owner (Txid [1]) = Some (example_tx [] [])" "saturating_sub 0 (0 :: u64) = 0"
    by (simp_all add: example_view_def saturating_sub_def)
  moreover have "ol_now (example_onchain db) = 7"
    by (simp add: example_onchain_def)
  ultimately show ?thesis
    by (simp add: onchain_payment_def example_libs_fields onchain_status_def onchain_direction_def Let_def)
qed

lemma example_refresh_run: "update_payment_store (example_onchain (\<lambda>_. True)) example_start = Some (example_refreshed, Inr ())"
proof -
  have entries: "wallet_entries example_view (ow_inner example_start) = [(example_owner, Txid [1])]"
    by (simp add: wallet_entries_def example_start_eq example_view_def)
  have fields: "ow_payments example_start = empty_payments" "ow_kv example_start = SqliteStore_new Map.empty"
    "ol_now (example_onchain db) = 7" "ol_payment (example_onchain db) = (\<lambda>_. [3])"
    "ol_kv (example_onchain db) = sqlite_ops example_alphabet 120 db" for db
    by (simp_all add: example_start_eq example_onchain_def)
  let ?p = "PaymentDetails_new 7 (PaymentId [1]) (Onchain (Txid [1]) Unconfirmed) (Some 0) (Some 0) Inbound Pending"
  obtain b ds kv where "DataStore_insert_or_update example_storable (sqlite_ops example_alphabet 120 (\<lambda>_. True))
      empty_payments (SqliteStore_new Map.empty) ?p = (Inr b, ds, kv)"
    using example_insert by (metis isl_def prod_cases3 fst_conv sum.exhaust)
  then have "update_payments_loop (example_onchain (\<lambda>_. True)) (ow_inner example_start) 0 {} [(example_owner, Txid [1])]
      empty_payments (SqliteStore_new Map.empty) = (Inr (), ds, kv)"
    by (simp add: fields example_onchain_payment)
  then show ?thesis
    by (simp add: update_payment_store_def example_libs_fields example_tip entries fields example_refreshed_def)
qed

theorem payments_follow_the_chain_witness:
  "\<exists>d. DataStore_get (ow_payments example_refreshed) (PaymentId [1]) = Some d \<and> pd_status d = Pending"
proof -
  let ?L = "example_onchain (\<lambda>_. True)"
  have kv: "ol_kv ?L = sqlite_ops example_alphabet 120 (\<lambda>_. True)" "ol_now ?L = 7" "ol_payment ?L = (\<lambda>_. [3])"
    "ow_kv example_start = SqliteStore_new Map.empty" "ow_payments example_start = empty_payments"
    by (simp_all add: example_onchain_def example_start_def Wallet_new_def)
  have tip: "current_best_block (lib_ops (ol_agg ?L)) (ow_inner example_start) = Some (BlockHash [], 0)"
    unfolding example_libs_fields by (rule example_tip)
  have wallet: "example_owner \<in> snd ` set (agg_wallets (ow_inner example_start))"
    by (simp add: example_start_eq)
  have tx: "Txid [1] \<in> fst ` set (transactions (lib_view (ol_agg ?L)) example_owner)"
    by (simp add: example_libs_fields example_view_def)
  have unconfirmed: "map_of (transaction_confirmations (lib_view (ol_agg ?L)) (ow_inner example_start)) (Txid [1]) = None"
    unfolding example_libs_fields example_start_eq onchain_wallet.select_convs by code_simp
  show ?thesis
    using payments_follow_the_chain [OF kv(1) _ _ _ tip example_refresh_run] empty_payments_ok wallet tx unconfirmed
    unfolding kv by fastforce
qed

end
