(* ===== verification/Onchain_Send.thy ===== *)
theory Onchain_Send
  imports Onchain_Wallet
begin

text \<open>
  The sending half of \<open>src/wallet/mod.rs\<close>: building a payment under the anchor reserve
  (\<open>build_transaction_psbt\<close>), quoting its fee, signing, recording and broadcasting it, replacing and
  accelerating transactions, funding channels, selecting inputs of a splice, and the scripts and
  outputs the \<open>WalletKeysManager\<close> and the \<open>WalletSource\<close> hand to LDK.

  The coin selection and the transaction builder of BDK are parameters as in \<open>Agg_Build\<close>; the record
  \<open>send_lib\<close> has the calls only this file makes. A panic of the code, the overflow of a sum of
  amounts or a missing primary wallet, is \<open>None\<close>. Dropping the lock on an early return is not visible.
\<close>

section \<open>Parameters\<close>

text \<open>
  \<open>sl_script\<close> is \<open>Address::script_pubkey\<close>, \<open>sl_require_network\<close> that the address parses for a network,
  \<open>sl_from_unsigned\<close> is \<open>Psbt::from_unsigned_tx\<close>, \<open>sl_funding_input\<close> the two constructors of
  \<open>FundingTxInput\<close> (for a key spend of a Taproot output or not) and \<open>sl_shutdown\<close> the shutdown script of
  a witness program.
\<close>

record ('d, 'b, 'fi) send_lib =
  sl_script :: "'d \<Rightarrow> script"
  sl_require_network :: "network \<Rightarrow> 'd \<Rightarrow> bool"
  sl_fee_absolute :: "'b \<Rightarrow> u64 \<Rightarrow> 'b"
  sl_only_witness_utxo :: "'b \<Rightarrow> 'b"
  sl_add_foreign_utxo :: "'b \<Rightarrow> outpoint \<Rightarrow> psbt_input \<Rightarrow> u64 \<Rightarrow> 'b option"
  sl_exclude_unconfirmed :: "'b \<Rightarrow> 'b"
  sl_from_unsigned :: "transaction \<Rightarrow> psbt option"
  sl_funding_input :: "bool \<Rightarrow> transaction \<Rightarrow> u32 \<Rightarrow> 'fi option"
  sl_shutdown :: "script \<Rightarrow> script option"

datatype onchain_send_amount =
    ExactRetainingReserve u64 u64
  | AllRetainingReserve u64
  | AllDrainingReserve

section \<open>Helpers\<close>

fun input_weight_loop :: "u64 \<Rightarrow> u64 \<Rightarrow> utxo_psbt_info list \<Rightarrow> (u64, node_error) result" where
  "input_weight_loop base_weight weight [] = Inr weight"
| "input_weight_loop base_weight weight (utxo # utxos) =
     and_then (ok_or InvalidFeeRate
       (Option.bind (checked_add weight base_weight) (\<lambda>w. checked_add w (up_weight utxo)))) (\<lambda>weight.
     input_weight_loop base_weight weight utxos)"

definition additional_input_weight :: "u64 \<Rightarrow> utxo_psbt_info list \<Rightarrow> (u64, node_error) result" where
  "additional_input_weight base_weight utxos = input_weight_loop base_weight 0 utxos"

definition checked_sum :: "u64 list \<Rightarrow> (u64, node_error) result" where
  "checked_sum values = try_sum InsufficientFunds 0 values"

text \<open>The weight of the inputs that are given, none when they are not.\<close>

definition given_input_weight :: "u64 \<Rightarrow> utxo_psbt_info list option \<Rightarrow> (u64, node_error) result" where
  "given_input_weight base_weight infos =
     (case infos of Some utxos \<Rightarrow> additional_input_weight base_weight utxos | None \<Rightarrow> Inr 0)"

definition checked_payment_target ::
    "bitcoin_lib \<Rightarrow> u64 \<Rightarrow> u64 \<Rightarrow> script \<Rightarrow> utxo_psbt_info list option \<Rightarrow> u64 \<Rightarrow> (u64, node_error) result" where
  "checked_payment_target B base_weight amount_sats recipient_spk manual_utxo_infos fee_rate =
     and_then (given_input_weight base_weight manual_utxo_infos) (\<lambda>manual_input_weight.
     let min_weight = 42 + recipient_output_weight B recipient_spk + manual_input_weight in
     and_then (ok_or InvalidFeeRate (fee_wu B fee_rate min_weight)) (\<lambda>min_fee.
     ok_or InsufficientFunds (checked_add amount_sats min_fee)))"

fun error_of_create_tx :: "create_tx_error \<Rightarrow> node_error" where
  "error_of_create_tx CreateCoinSelection = InsufficientFunds"
| "error_of_create_tx CreateOther = OnchainTxCreationFailed"

section \<open>Building a payment\<close>

text \<open>The outpoints the user chose must be unspent outputs of the wallets and not fund a channel.\<close>

fun check_outpoints ::
    "local_output list \<Rightarrow> outpoint option list \<Rightarrow> outpoint list \<Rightarrow> (unit, node_error) result" where
  "check_outpoints all_utxos channels [] = Inr ()"
| "check_outpoints all_utxos channels (outpoint # outpoints) =
     (if outpoint \<notin> set (map lo_outpoint all_utxos) then Inl WalletOperationFailed
      else if is_funding_transaction channels (op_txid outpoint) then Inl WalletOperationFailed
      else check_outpoints all_utxos channels outpoints)"

definition check_utxos_to_spend ::
    "local_output list \<Rightarrow> outpoint option list \<Rightarrow> outpoint list option \<Rightarrow> (unit, node_error) result" where
  "check_utxos_to_spend all_utxos channels utxos_to_spend =
     (case utxos_to_spend of
        None \<Rightarrow> Inr ()
      | Some outpoints \<Rightarrow>
          and_then (check_outpoints all_utxos channels outpoints) (\<lambda>_.
          and_then (checked_sum (map (\<lambda>u. to_value (lo_txout u))
            (filter (\<lambda>u. lo_outpoint u \<in> set outpoints) all_utxos))) (\<lambda>_. Inr ())))"

definition funding_txids :: "local_output list \<Rightarrow> outpoint option list \<Rightarrow> txid list" where
  "funding_txids all_utxos channels =
     map (\<lambda>u. op_txid (lo_outpoint u)) (filter (\<lambda>u. is_funding_transaction channels (op_txid (lo_outpoint u))) all_utxos)"

text \<open>Sending everything takes in the outputs of the other wallets.\<close>

definition non_primary_utxo_infos ::
    "('w, 'p, 'u, 'ev, 'blk, 'b) agg_libs \<Rightarrow> (wallet_account, 'w, 'p) aggregate \<Rightarrow> txid list \<Rightarrow> outpoint list option
       \<Rightarrow> onchain_send_amount \<Rightarrow> (utxo_psbt_info list option, node_error) result option" where
  "non_primary_utxo_infos X a excluded utxos_to_spend send_amount =
     (case (utxos_to_spend, send_amount) of
        (Some _, _) \<Rightarrow> Some (Inr None)
      | (None, ExactRetainingReserve _ _) \<Rightarrow> Some (Inr None)
      | (None, _) \<Rightarrow>
          map_option (\<lambda>r. and_then (map_err (\<lambda>_. WalletOperationFailed) r)
              (\<lambda>infos. Inr (if infos = [] then None else Some infos)))
            (non_primary_foreign_utxos X a excluded))"

definition manual_utxo_infos ::
    "('w, 'p, 'u, 'ev, 'blk, 'b) agg_libs \<Rightarrow> (wallet_account, 'w, 'p) aggregate \<Rightarrow> outpoint list option
       \<Rightarrow> (utxo_psbt_info list option, node_error) result" where
  "manual_utxo_infos X a utxos_to_spend =
     (case utxos_to_spend of
        None \<Rightarrow> Inr None
      | Some outpoints \<Rightarrow>
          and_then (map_err (\<lambda>_. WalletOperationFailed)
            (prepare_outpoints_for_psbt (lib_btc X) (lib_view X) outpoints (agg_wallets a) (agg_primary a)))
            (\<lambda>infos. Inr (Some infos)))"

text \<open>Adding chosen inputs makes them the only ones.\<close>

definition add_manual ::
    "('w, 'b) builder_lib \<Rightarrow> 'b \<Rightarrow> utxo_psbt_info list option \<Rightarrow> ('b, node_error) result" where
  "add_manual T b infos =
     (case infos of
        None \<Rightarrow> Inr b
      | Some infos \<Rightarrow>
          and_then (map_err (\<lambda>_. OnchainTxCreationFailed) (add_utxos_to_tx_builder (input_ops T) b infos)) (\<lambda>b.
          Inr (manually_selected_only T b)))"

definition add_cross_wallet ::
    "('w, 'b) builder_lib \<Rightarrow> 'b \<Rightarrow> utxo_psbt_info list option \<Rightarrow> ('b, node_error) result" where
  "add_cross_wallet T b infos =
     (case infos of
        None \<Rightarrow> Inr b
      | Some infos \<Rightarrow> map_err (\<lambda>_. OnchainTxCreationFailed) (add_utxos_to_tx_builder (input_ops T) b infos))"

text \<open>
  Sending everything but the reserve: a trial transaction that pays the reserve to the wallet itself
  tells the fee; the payment is what remains. The trial is cancelled.
\<close>

definition trial_psbt ::
    "('w, 'p, 'u, 'ev, 'blk, 'b, 'x, 'c, 'kv, 'addr, 'route) onchain_libs \<Rightarrow> (wallet_account, 'w, 'p) aggregate
       \<Rightarrow> script \<Rightarrow> u64 \<Rightarrow> u64 \<Rightarrow> utxo_psbt_info list option
       \<Rightarrow> ((wallet_account, 'w, 'p) aggregate \<times> (psbt, node_error) result) option" where
  "trial_psbt L a spk cur_anchor_reserve_sats fee_rate manual =
     (let X = ol_agg L; T = lib_build X in
      Option.bind (primary_wallet a) (\<lambda>w.
      let change_spk = ai_script (peek_address (lib_ops X) w Internal 0);
          b = set_fee_rate T (add_recipient T (drain_to T (drain_wallet T (build_tx T w)) spk)
                change_spk cur_anchor_reserve_sats) fee_rate
      in case add_manual T b manual of
           Inl e \<Rightarrow> Some (a, Inl e)
         | Inr b \<Rightarrow>
             (case finish_on T a (agg_primary a) b of
                (a, Inl e) \<Rightarrow> Some (a, Inl (error_of_create_tx e))
              | (a, Inr tmp_psbt) \<Rightarrow>
                  map_option (\<lambda>a. (a, Inr tmp_psbt)) (cancel_dry_run_tx (lib_ops X) a (unsigned_tx tmp_psbt)))))"

definition estimated_amount ::
    "('w, 'p, 'u, 'ev, 'blk, 'b, 'x, 'c, 'kv, 'addr, 'route) onchain_libs \<Rightarrow> (wallet_account, 'w, 'p) aggregate
       \<Rightarrow> psbt \<Rightarrow> u64 \<Rightarrow> u64 \<Rightarrow> utxo_psbt_info list option \<Rightarrow> (u64 \<times> u64, node_error) result" where
  "estimated_amount L a tmp_psbt spendable_amount_sats fee_rate non_primary =
     and_then (map_err (\<lambda>_. WalletOperationFailed) (calculate_fee_from_psbt (lib_view (ol_agg L)) a tmp_psbt)) (\<lambda>base_fee.
     and_then (given_input_weight (ol_txin_weight L) non_primary) (\<lambda>extra_input_weight.
     and_then (ok_or InvalidFeeRate (fee_wu (lib_btc (ol_agg L)) fee_rate extra_input_weight)) (\<lambda>extra_input_fee.
     and_then (ok_or InvalidFeeRate (checked_add base_fee extra_input_fee)) (\<lambda>estimated_tx_fee.
     let estimated_spendable_amount = saturating_sub spendable_amount_sats estimated_tx_fee in
     if estimated_spendable_amount < DUST_LIMIT_SATS then Inl InsufficientFunds
     else Inr (estimated_spendable_amount, estimated_tx_fee)))))"

definition start_builder ::
    "('w, 'p, 'u, 'ev, 'blk, 'b, 'x, 'c, 'kv, 'addr, 'route) onchain_libs \<Rightarrow> ('d, 'b, 'fi) send_lib
       \<Rightarrow> (wallet_account, 'w, 'p) aggregate \<Rightarrow> balance \<Rightarrow> script \<Rightarrow> onchain_send_amount \<Rightarrow> u64
       \<Rightarrow> utxo_psbt_info list option \<Rightarrow> utxo_psbt_info list option
       \<Rightarrow> ((wallet_account, 'w, 'p) aggregate \<times> ('b, node_error) result) option" where
  "start_builder L Q a bal spk send_amount fee_rate manual non_primary =
     (let T = lib_build (ol_agg L);
          drain = map_option (\<lambda>w. (a, Inr (set_fee_rate T (drain_to T (drain_wallet T (build_tx T w)) spk) fee_rate)))
                    (primary_wallet a)
      in case send_amount of
           ExactRetainingReserve amount_sats _ \<Rightarrow>
             map_option (\<lambda>w. (a, Inr (set_fee_rate T (add_recipient T (build_tx T w) spk amount_sats) fee_rate)))
               (primary_wallet a)
         | AllRetainingReserve cur_anchor_reserve_sats \<Rightarrow>
             if DUST_LIMIT_SATS < cur_anchor_reserve_sats then
               Option.bind (get_balances_inner (ol_config L) bal cur_anchor_reserve_sats) (\<lambda>(_, spendable_amount_sats).
               Option.bind (trial_psbt L a spk cur_anchor_reserve_sats fee_rate manual) (\<lambda>(a, r).
               case and_then r (\<lambda>tmp_psbt. estimated_amount L a tmp_psbt spendable_amount_sats fee_rate non_primary) of
                 Inl e \<Rightarrow> Some (a, Inl e)
               | Inr (estimated_spendable_amount, estimated_tx_fee) \<Rightarrow>
                   map_option (\<lambda>w. (a, Inr (sl_fee_absolute Q
                       (add_recipient T (build_tx T w) spk estimated_spendable_amount) estimated_tx_fee)))
                     (primary_wallet a)))
             else drain
         | AllDrainingReserve \<Rightarrow> drain)"

text \<open>A payment the primary wallet cannot make alone is tried again over all wallets.\<close>

definition finish_or_retry ::
    "('w, 'p, 'u, 'ev, 'blk, 'b) agg_libs \<Rightarrow> (wallet_account, 'w, 'p) aggregate \<Rightarrow> 'b \<Rightarrow> script
       \<Rightarrow> onchain_send_amount \<Rightarrow> u64 \<Rightarrow> txid list \<Rightarrow> bool
       \<Rightarrow> (wallet_account, 'w, 'p) aggregate \<times> (psbt, node_error) result" where
  "finish_or_retry X a b spk send_amount fee_rate excluded only_own =
     (case finish_on (lib_build X) a (agg_primary a) b of
        (a, Inr psbt) \<Rightarrow> (a, Inr psbt)
      | (a, Inl err) \<Rightarrow>
          (case send_amount of
             ExactRetainingReserve amount_sats _ \<Rightarrow>
               if only_own then
                 (case build_psbt_with_cross_wallet_fallback X a spk amount_sats fee_rate excluded BranchAndBound of
                    (a, r) \<Rightarrow> (a, map_err (\<lambda>e. if e = AggInsufficientFunds then InsufficientFunds
                                              else OnchainTxCreationFailed) r))
               else (a, Inl (error_of_create_tx err))
           | _ \<Rightarrow> (a, Inl (error_of_create_tx err))))"

text \<open>The reserve is checked on the finished transaction; one that infringes it is cancelled.\<close>

definition check_reserve ::
    "('w, 'p, 'u, 'ev, 'blk, 'b, 'x, 'c, 'kv, 'addr, 'route) onchain_libs \<Rightarrow> (wallet_account, 'w, 'p) aggregate
       \<Rightarrow> balance \<Rightarrow> onchain_send_amount \<Rightarrow> psbt
       \<Rightarrow> ((wallet_account, 'w, 'p) aggregate \<times> (psbt, node_error) result) option" where
  "check_reserve L a bal send_amount psbt =
     (let X = ol_agg L;
          cancelled = (\<lambda>e. map_option (\<lambda>a. (a, Inl e)) (cancel_dry_run_tx (lib_ops X) a (unsigned_tx psbt)))
      in case send_amount of
           ExactRetainingReserve amount_sats cur_anchor_reserve_sats \<Rightarrow>
             Option.bind (get_balances_inner (ol_config L) bal cur_anchor_reserve_sats) (\<lambda>(_, spendable_amount_sats).
             Option.bind (calculate_fee_with_fallback (lib_view X) a psbt) (\<lambda>fee_result.
             case fee_result of
               Inl _ \<Rightarrow> cancelled WalletOperationFailed
             | Inr tx_fee_sats \<Rightarrow>
                 if spendable_amount_sats < saturating_add amount_sats tx_fee_sats then cancelled InsufficientFunds
                 else Some (a, Inr psbt)))
         | AllRetainingReserve cur_anchor_reserve_sats \<Rightarrow>
             Option.bind (get_balances_inner (ol_config L) bal cur_anchor_reserve_sats) (\<lambda>(_, spendable_amount_sats).
             Option.bind (drain_amount_from_psbt (lib_view X) a psbt) (\<lambda>drain_amount.
             if spendable_amount_sats < drain_amount then cancelled InsufficientFunds
             else Some (a, Inr psbt)))
         | AllDrainingReserve \<Rightarrow> Some (a, Inr psbt))"

text \<open>What is checked and gathered before a builder is set up.\<close>

definition payment_inputs ::
    "('w, 'p, 'u, 'ev, 'blk, 'b, 'x, 'c, 'kv, 'addr, 'route) onchain_libs \<Rightarrow> (wallet_account, 'w, 'p) aggregate
       \<Rightarrow> script \<Rightarrow> onchain_send_amount \<Rightarrow> u64 \<Rightarrow> outpoint list option \<Rightarrow> outpoint option list
       \<Rightarrow> (utxo_psbt_info list option \<times> utxo_psbt_info list option, node_error) result option" where
  "payment_inputs L a spk send_amount fee_rate utxos_to_spend channels =
     (let X = ol_agg L; all_utxos = list_unspent_all (lib_view X) a in
      case check_utxos_to_spend all_utxos channels utxos_to_spend of
        Inl e \<Rightarrow> Some (Inl e)
      | Inr _ \<Rightarrow>
          map_option (\<lambda>non_primary.
            and_then non_primary (\<lambda>non_primary.
            and_then (manual_utxo_infos X a utxos_to_spend) (\<lambda>manual.
            case send_amount of
              ExactRetainingReserve amount_sats _ \<Rightarrow>
                and_then (checked_payment_target (lib_btc X) (ol_txin_weight L) amount_sats spk manual fee_rate)
                  (\<lambda>_. Inr (non_primary, manual))
            | _ \<Rightarrow> Inr (non_primary, manual))))
          (non_primary_utxo_infos X a (funding_txids all_utxos channels) utxos_to_spend send_amount))"

definition build_transaction_psbt ::
    "('w, 'p, 'u, 'ev, 'blk, 'b, 'x, 'c, 'kv, 'addr, 'route) onchain_libs \<Rightarrow> ('d, 'b, 'fi) send_lib
       \<Rightarrow> (wallet_account, 'w, 'p) aggregate \<Rightarrow> script \<Rightarrow> onchain_send_amount \<Rightarrow> u64 \<Rightarrow> outpoint list option
       \<Rightarrow> outpoint option list \<Rightarrow> ((wallet_account, 'w, 'p) aggregate \<times> (psbt, node_error) result) option" where
  "build_transaction_psbt L Q a spk send_amount fee_rate utxos_to_spend channels =
     (let excluded = funding_txids (list_unspent_all (lib_view (ol_agg L)) a) channels in
     Option.bind (payment_inputs L a spk send_amount fee_rate utxos_to_spend channels) (\<lambda>inputs.
     case inputs of
       Inl e \<Rightarrow> Some (a, Inl e)
     | Inr (non_primary, manual) \<Rightarrow>
         Option.bind (aggregate_balance (lib_view (ol_agg L)) a) (\<lambda>bal.
         Option.bind (start_builder L Q a bal spk send_amount fee_rate manual non_primary) (\<lambda>(a, r).
         let T = lib_build (ol_agg L) in
         case and_then r (\<lambda>b. and_then (add_manual T b manual) (\<lambda>b. add_cross_wallet T b non_primary)) of
           Inl e \<Rightarrow> Some (a, Inl e)
         | Inr b \<Rightarrow>
             (case finish_or_retry (ol_agg L) a b spk send_amount fee_rate excluded
                     (manual = None \<and> non_primary = None) of
                (a, Inl e) \<Rightarrow> Some (a, Inl e)
              | (a, Inr psbt) \<Rightarrow> check_reserve L a bal send_amount psbt)))))"

section \<open>Quoting and sending\<close>

definition calculate_transaction_fee ::
    "('w, 'p, 'u, 'ev, 'blk, 'b, 'x, 'c, 'kv, 'addr, 'route) onchain_libs \<Rightarrow> ('d, 'b, 'fi) send_lib
       \<Rightarrow> ('w, 'p, 'kv) onchain_wallet \<Rightarrow> 'd \<Rightarrow> onchain_send_amount \<Rightarrow> u64 option \<Rightarrow> outpoint list option
       \<Rightarrow> outpoint option list \<Rightarrow> (('w, 'p, 'kv) onchain_wallet \<times> (u64, node_error) result) option" where
  "calculate_transaction_fee L Q ow address send_amount fee_rate utxos_to_spend channels =
     (if \<not> sl_require_network Q (cfg_network (ol_config L)) address then Some (ow, Inl InvalidAddress)
      else
        (let fee_rate = (case fee_rate of Some r \<Rightarrow> r | None \<Rightarrow> estimate_fee_rate (ol_floor L) (ow_estimator ow) OnchainPayment) in
         Option.bind (build_transaction_psbt L Q (ow_inner ow) (sl_script Q address) send_amount fee_rate utxos_to_spend channels)
           (\<lambda>(a, r).
         case r of
           Inl e \<Rightarrow> Some (ow\<lparr>ow_inner := a\<rparr>, Inl e)
         | Inr psbt \<Rightarrow>
             Option.bind (calculate_fee_with_fallback (lib_view (ol_agg L)) a psbt) (\<lambda>fee_result.
             map_option (\<lambda>a. (ow\<lparr>ow_inner := a\<rparr>, map_err (\<lambda>_. WalletOperationFailed) fee_result))
               (cancel_dry_run_tx (lib_ops (ol_agg L)) a (unsigned_tx psbt))))))"

definition sign_then_persist ::
    "('w, 'p, 'u, 'ev, 'blk, 'b) agg_libs \<Rightarrow> (wallet_account, 'w, 'p) aggregate \<Rightarrow> psbt
       \<Rightarrow> (wallet_account, 'w, 'p) aggregate \<times> (transaction, node_error) result" where
  "sign_then_persist X a psbt =
     (case sign_psbt_all X a psbt of
        Inl _ \<Rightarrow> (a, Inl OnchainTxSigningFailed)
      | Inr tx \<Rightarrow>
          (case persist_all (lib_ops X) a of
             (a, Inl _) \<Rightarrow> (a, Inl PersistenceFailed)
           | (a, Inr _) \<Rightarrow> (a, Inr tx)))"

definition drain_then_persist ::
    "('w, 'p, 'u, 'ev, 'blk, 'b) agg_libs \<Rightarrow> (wallet_account, 'w, 'p) aggregate \<Rightarrow> script \<Rightarrow> u64
       \<Rightarrow> ((wallet_account, 'w, 'p) aggregate \<times> (transaction, node_error) result) option" where
  "drain_then_persist X a spk fee_rate =
     map_option (\<lambda>(a, r).
       case r of
         Inl _ \<Rightarrow> (a, Inl OnchainTxCreationFailed)
       | Inr tx \<Rightarrow>
           (case persist_all (lib_ops X) a of
              (a, Inl _) \<Rightarrow> (a, Inl PersistenceFailed)
            | (a, Inr _) \<Rightarrow> (a, Inr tx)))
       (build_and_sign_drain X a spk fee_rate)"

definition is_drain_all :: "onchain_send_amount \<Rightarrow> bool" where
  "is_drain_all send_amount =
     (case send_amount of
        AllDrainingReserve \<Rightarrow> True
      | AllRetainingReserve cur_anchor_reserve_sats \<Rightarrow> cur_anchor_reserve_sats \<le> DUST_LIMIT_SATS
      | _ \<Rightarrow> False)"

definition prepare_send_to_address ::
    "('w, 'p, 'u, 'ev, 'blk, 'b, 'x, 'c, 'kv, 'addr, 'route) onchain_libs \<Rightarrow> ('d, 'b, 'fi) send_lib
       \<Rightarrow> ('w, 'p, 'kv) onchain_wallet \<Rightarrow> 'd \<Rightarrow> onchain_send_amount \<Rightarrow> u64 option \<Rightarrow> outpoint list option
       \<Rightarrow> outpoint option list \<Rightarrow> (('w, 'p, 'kv) onchain_wallet \<times> (transaction, node_error) result) option" where
  "prepare_send_to_address L Q ow address send_amount fee_rate utxos_to_spend channels =
     (if \<not> sl_require_network Q (cfg_network (ol_config L)) address then Some (ow, Inl InvalidAddress)
      else
        (let fee_rate = (case fee_rate of Some r \<Rightarrow> r | None \<Rightarrow> estimate_fee_rate (ol_floor L) (ow_estimator ow) OnchainPayment) in
         map_option (\<lambda>(a, r). (ow\<lparr>ow_inner := a\<rparr>, r))
           (if is_drain_all send_amount \<and> utxos_to_spend = None
            then drain_then_persist (ol_agg L) (ow_inner ow) (sl_script Q address) fee_rate
            else
              map_option (\<lambda>(a, r). case r of Inl e \<Rightarrow> (a, Inl e) | Inr psbt \<Rightarrow> sign_then_persist (ol_agg L) a psbt)
                (build_transaction_psbt L Q (ow_inner ow) (sl_script Q address) send_amount fee_rate utxos_to_spend channels))))"

text \<open>A transaction is recorded before it is handed to the broadcaster, and cancelled when it cannot be.\<close>

definition record_and_broadcast ::
    "('w, 'p, 'u, 'ev, 'blk, 'b, 'x, 'c, 'kv, 'addr, 'route) onchain_libs \<Rightarrow> ('w, 'p, 'kv) onchain_wallet \<Rightarrow> transaction
       \<Rightarrow> ('w, 'p, 'kv) onchain_wallet \<times> (txid, node_error) result" where
  "record_and_broadcast L ow tx =
     (let i = compute_txid (lib_btc (ol_agg L)) tx in
      case record_broadcast_txid L ow i of
        (ow, Inl e) \<Rightarrow> (fst (wallet_cancel_transaction L ow tx), Inl e)
      | (ow, Inr _) \<Rightarrow> (ow\<lparr>ow_broadcasts := ow_broadcasts ow @ [tx]\<rparr>, Inr i))"

definition send_to_address ::
    "('w, 'p, 'u, 'ev, 'blk, 'b, 'x, 'c, 'kv, 'addr, 'route) onchain_libs \<Rightarrow> ('d, 'b, 'fi) send_lib
       \<Rightarrow> ('w, 'p, 'kv) onchain_wallet \<Rightarrow> 'd \<Rightarrow> onchain_send_amount \<Rightarrow> u64 option \<Rightarrow> outpoint list option
       \<Rightarrow> outpoint option list \<Rightarrow> (('w, 'p, 'kv) onchain_wallet \<times> (txid, node_error) result) option" where
  "send_to_address L Q ow address send_amount fee_rate utxos_to_spend channels =
     map_option (\<lambda>(ow, r). case r of Inl e \<Rightarrow> (ow, Inl e) | Inr tx \<Rightarrow> record_and_broadcast L ow tx)
       (prepare_send_to_address L Q ow address send_amount fee_rate utxos_to_spend channels)"


section \<open>Replacing and accelerating\<close>

definition rbf_error :: "agg_error \<Rightarrow> node_error" where
  "rbf_error e =
     (case e of AggTransactionNotFound \<Rightarrow> TransactionNotFound | AggTransactionAlreadyConfirmed \<Rightarrow> TransactionAlreadyConfirmed
        | AggInvalidFeeRate \<Rightarrow> InvalidFeeRate | AggInsufficientFunds \<Rightarrow> InsufficientFunds
        | _ \<Rightarrow> OnchainTxCreationFailed)"

text \<open>Persisting the wallets, then recording and broadcasting.\<close>

definition persist_and_dispatch ::
    "('w, 'p, 'u, 'ev, 'blk, 'b, 'x, 'c, 'kv, 'addr, 'route) onchain_libs \<Rightarrow> ('w, 'p, 'kv) onchain_wallet \<Rightarrow> transaction
       \<Rightarrow> ('w, 'p, 'kv) onchain_wallet \<times> (txid, node_error) result" where
  "persist_and_dispatch L ow tx =
     (case with_inner ow (persist_all (lib_ops (ol_agg L)) (ow_inner ow)) (\<lambda>_. PersistenceFailed) of
        (ow, Inl e) \<Rightarrow> (ow, Inl e)
      | (ow, Inr _) \<Rightarrow> record_and_broadcast L ow tx)"

definition bump_fee_by_rbf ::
    "('w, 'p, 'u, 'ev, 'blk, 'b, 'x, 'c, 'kv, 'addr, 'route) onchain_libs \<Rightarrow> ('w, 'p, 'kv) onchain_wallet \<Rightarrow> txid \<Rightarrow> u64
       \<Rightarrow> outpoint option list \<Rightarrow> (('w, 'p, 'kv) onchain_wallet \<times> (txid, node_error) result) option" where
  "bump_fee_by_rbf L ow i fee_rate channels =
     (if is_funding_transaction channels i then Some (ow, Inl CannotRbfFundingTransaction)
      else
        (case is_broadcast_by_wallet L ow i of
           Inl e \<Rightarrow> Some (ow, Inl e)
         | Inr recorded \<Rightarrow>
             if \<not> recorded then Some (ow, Inl TransactionNotBroadcastByWallet)
             else
               map_option (\<lambda>run.
                 (case with_inner ow run rbf_error of
                    (ow, Inl e) \<Rightarrow> (ow, Inl e)
                  | (ow, Inr (tx, original_fee)) \<Rightarrow> persist_and_dispatch L ow tx))
                 (build_rbf (ol_agg L) (ow_inner ow) i fee_rate)))"

definition cpfp_error :: "agg_error \<Rightarrow> node_error" where
  "cpfp_error e =
     (case e of AggTransactionNotFound \<Rightarrow> TransactionNotFound | AggTransactionAlreadyConfirmed \<Rightarrow> TransactionAlreadyConfirmed
        | AggNoSpendableOutputs \<Rightarrow> NoSpendableOutputs | _ \<Rightarrow> OnchainTxCreationFailed)"

definition accelerate_by_cpfp ::
    "('w, 'p, 'u, 'ev, 'blk, 'b, 'x, 'c, 'kv, 'addr, 'route) onchain_libs \<Rightarrow> ('d, 'b, 'fi) send_lib
       \<Rightarrow> ('w, 'p, 'kv) onchain_wallet \<Rightarrow> txid \<Rightarrow> u64 \<Rightarrow> 'd option
       \<Rightarrow> (('w, 'p, 'kv) onchain_wallet \<times> (txid, node_error) result) option" where
  "accelerate_by_cpfp L Q ow i fee_rate destination =
     (if case destination of Some address \<Rightarrow> \<not> sl_require_network Q (cfg_network (ol_config L)) address | None \<Rightarrow> False
      then Some (ow, Inl InvalidAddress)
      else
        map_option (\<lambda>run.
          (case with_inner ow run cpfp_error of
             (ow, Inl e) \<Rightarrow> (ow, Inl e)
           | (ow, Inr (tx, parent_fee, parent_fee_rate)) \<Rightarrow> persist_and_dispatch L ow tx))
          (build_cpfp (ol_agg L) (ow_inner ow) i fee_rate (map_option (sl_script Q) destination)))"

definition wallet_cpfp_fee_rate ::
    "('w, 'p, 'u, 'ev, 'blk, 'b, 'x, 'c, 'kv, 'addr, 'route) onchain_libs \<Rightarrow> ('w, 'p, 'kv) onchain_wallet \<Rightarrow> txid \<Rightarrow> bool
       \<Rightarrow> (u64, node_error) result" where
  "wallet_cpfp_fee_rate L ow parent_txid urgent =
     (let tgt = (if urgent then Lightning MaximumFeeEstimate else OnchainPayment) in
      map_err (\<lambda>e. case e of AggTransactionNotFound \<Rightarrow> TransactionNotFound
                     | AggTransactionAlreadyConfirmed \<Rightarrow> TransactionAlreadyConfirmed | _ \<Rightarrow> WalletOperationFailed)
        (calculate_cpfp_fee_rate (ol_agg L) (ow_inner ow) parent_txid
           (estimate_fee_rate (ol_floor L) (ow_estimator ow) tgt)))"

section \<open>Funding channels and splices\<close>

definition funding_error :: "agg_error \<Rightarrow> node_error" where
  "funding_error e =
     (case e of AggInsufficientFunds \<Rightarrow> InsufficientFunds | AggOnchainTxSigningFailed \<Rightarrow> OnchainTxSigningFailed
        | AggPersistenceFailed \<Rightarrow> PersistenceFailed | _ \<Rightarrow> OnchainTxCreationFailed)"

definition create_funding_transaction ::
    "('w, 'p, 'u, 'ev, 'blk, 'b, 'x, 'c, 'kv, 'addr, 'route) onchain_libs \<Rightarrow> ('w, 'p, 'kv) onchain_wallet \<Rightarrow> script \<Rightarrow> u64
       \<Rightarrow> confirmation_target \<Rightarrow> u32 \<Rightarrow> ('w, 'p, 'kv) onchain_wallet \<times> (transaction, node_error) result" where
  "create_funding_transaction L ow output_script amount tgt locktime =
     (let fee_rate = estimate_fee_rate (ol_floor L) (ow_estimator ow) tgt; a = ow_inner ow in
      with_inner ow
        (if wa_address_type (agg_primary a) = Legacy
         then build_and_sign_tx_with_best_wallet (ol_agg L) a output_script amount fee_rate locktime
                (\<lambda>k. wa_account_index k = 0 \<and> wa_address_type k \<noteq> Legacy)
         else build_and_sign_funding_tx (ol_agg L) a output_script amount fee_rate locktime)
        funding_error)"

record splice_input =
  si_outpoint :: outpoint
  si_previous_utxo :: tx_out
  si_satisfaction_weight :: u64

fun add_must_spend ::
    "('d, 'b, 'fi) send_lib \<Rightarrow> 'b \<Rightarrow> splice_input list \<Rightarrow> 'b option" where
  "add_must_spend Q b [] = Some b"
| "add_must_spend Q b (input # inputs) =
     Option.bind (sl_add_foreign_utxo Q b (si_outpoint input)
       (psbt_input_default\<lparr>witness_utxo := Some (si_previous_utxo input)\<rparr>) (si_satisfaction_weight input)) (\<lambda>b.
     add_must_spend Q b inputs)"

text \<open>\<open>tx_details\<close> finds the transaction \<open>get_tx\<close> finds.\<close>

definition funding_inputs ::
    "('w, 'p, 'u, 'ev, 'blk, 'b) agg_libs \<Rightarrow> ('d, 'b, 'fi) send_lib \<Rightarrow> 'w \<Rightarrow> splice_input list \<Rightarrow> tx_in list
       \<Rightarrow> 'fi option list" where
  "funding_inputs X Q w must_spend txins =
     List.map_filter (\<lambda>txin.
       map_option (\<lambda>prevtx.
         (let vout = op_vout (previous_output txin);
              taproot = (case nth_opt (tx_output prevtx) (unat vout) of
                           Some txout \<Rightarrow> is_p2tr (lib_btc X) (to_script txout)
                         | None \<Rightarrow> False)
          in sl_funding_input Q taproot prevtx vout))
         (get_tx (lib_view X) w (op_txid (previous_output txin))))
       (filter (\<lambda>txin. list_all (\<lambda>input. si_outpoint input \<noteq> previous_output txin) must_spend) txins)"

text \<open>\<open>collect\<close> into a result: all values, or the error of the first that failed.\<close>

fun collect_some :: "'a option list \<Rightarrow> 'a list option" where
  "collect_some [] = Some []"
| "collect_some (x # xs) = Option.bind x (\<lambda>y. map_option (\<lambda>ys. y # ys) (collect_some xs))"

text \<open>On the locked aggregate; the outer option is a panic, an error of the call is \<open>Inl ()\<close>.\<close>

definition select_confirmed_on ::
    "('w, 'p, 'u, 'ev, 'blk, 'b) agg_libs \<Rightarrow> ('d, 'b, 'fi) send_lib \<Rightarrow> (wallet_account, 'w, 'p) aggregate
       \<Rightarrow> splice_input list \<Rightarrow> tx_out list \<Rightarrow> u64
       \<Rightarrow> ((wallet_account, 'w, 'p) aggregate \<times> ('fi list, unit) result) option" where
  "select_confirmed_on X Q a must_spend must_pay_to fee_rate =
     (let T = lib_build X in
      if \<not> is_native_witness (wa_address_type (agg_primary a)) then Some (a, Inl ())
      else
        Option.bind (primary_wallet a) (\<lambda>w.
        case add_must_spend Q (sl_only_witness_utxo Q (build_tx T w)) must_spend of
          None \<Rightarrow> Some (a, Inl ())
        | Some b \<Rightarrow>
            (let b = fold (\<lambda>out b. add_recipient T b (to_script out) (to_value out)) must_pay_to b in
             case finish_on T a (agg_primary a) (sl_exclude_unconfirmed Q (set_fee_rate T b fee_rate)) of
               (a, Inl _) \<Rightarrow> Some (a, Inl ())
             | (a, Inr psbt) \<Rightarrow>
                 Option.bind (primary_wallet a) (\<lambda>w.
                 let r = (case collect_some (funding_inputs X Q w must_spend (tx_input (unsigned_tx psbt))) of
                            Some inputs \<Rightarrow> Inr inputs | None \<Rightarrow> Inl ())
                 in map_option (\<lambda>a. (a, r)) (cancel_dry_run_tx (lib_ops X) a (unsigned_tx psbt))))))"

definition select_confirmed_utxos ::
    "('w, 'p, 'u, 'ev, 'blk, 'b, 'x, 'c, 'kv, 'addr, 'route) onchain_libs \<Rightarrow> ('d, 'b, 'fi) send_lib
       \<Rightarrow> ('w, 'p, 'kv) onchain_wallet \<Rightarrow> splice_input list \<Rightarrow> tx_out list \<Rightarrow> u64
       \<Rightarrow> (('w, 'p, 'kv) onchain_wallet \<times> ('fi list, unit) result) option" where
  "select_confirmed_utxos L Q ow must_spend must_pay_to fee_rate =
     map_option (\<lambda>(a, r). (ow\<lparr>ow_inner := a\<rparr>, r))
       (select_confirmed_on (ol_agg L) Q (ow_inner ow) must_spend must_pay_to fee_rate)"

fun fill_prevouts :: "(outpoint \<times> tx_out) list \<Rightarrow> tx_in list \<Rightarrow> psbt_input list \<Rightarrow> psbt_input list" where
  "fill_prevouts known (txin # txins) (inp # inps) =
     (case List.find (\<lambda>(outpoint, _). outpoint = previous_output txin) known of
        Some (_, txout) \<Rightarrow> inp\<lparr>witness_utxo := Some txout\<rparr>
      | None \<Rightarrow> inp) # fill_prevouts known txins inps"
| "fill_prevouts known _ inps = inps"

definition wallet_sign_owned_inputs ::
    "('w, 'p, 'u, 'ev, 'blk, 'b, 'x, 'c, 'kv, 'addr, 'route) onchain_libs \<Rightarrow> ('d, 'b, 'fi) send_lib
       \<Rightarrow> ('w, 'p, 'kv) onchain_wallet \<Rightarrow> transaction \<Rightarrow> (outpoint \<times> tx_out) list \<Rightarrow> (transaction, unit) result" where
  "wallet_sign_owned_inputs L Q ow tx known_prevouts =
     and_then (ok_or () (sl_from_unsigned Q tx)) (\<lambda>psbt.
     map_err (\<lambda>_. ()) (sign_psbt_all (ol_agg L) (ow_inner ow)
       (psbt\<lparr>psbt_inputs := fill_prevouts known_prevouts (tx_input (unsigned_tx psbt)) (psbt_inputs psbt)\<rparr>)))"


section \<open>What LDK is handed\<close>

text \<open>
  The outputs the wallets offer for bumping anchors. \<open>ul_witness_version\<close>, \<open>ul_is_p2pkh\<close> and
  \<open>ul_explicit_script\<close> (the inner script of a descriptor at an index) are questions to \<open>bitcoin\<close> and BDK,
  \<open>ul_program_ok\<close> and \<open>ul_xonly_ok\<close> the checks of \<open>WitnessProgram::new\<close> and \<open>XOnlyPublicKey::from_slice\<close>; a
  \<open>WPubkeyHash\<close> has 20 bytes.
\<close>

record 'w utxo_lib =
  ul_witness_version :: "script \<Rightarrow> nat option"
  ul_program_ok :: "nat \<Rightarrow> bytes \<Rightarrow> bool"
  ul_xonly_ok :: "bytes \<Rightarrow> bool"
  ul_is_p2pkh :: "script \<Rightarrow> bool"
  ul_explicit_script :: "'w \<Rightarrow> keychain_kind \<Rightarrow> u32 \<Rightarrow> bytes option"

datatype ldk_utxo =
    UtxoV0P2wpkh outpoint u64 bytes
  | UtxoTaproot outpoint u64 bytes u64
  | UtxoP2pkh outpoint u64 bytes
  | UtxoNestedP2wpkh outpoint u64 bytes

text \<open>Only the first wallet that knows the output is asked.\<close>

definition derive_wpkh_for_p2sh ::
    "'w bdk_view \<Rightarrow> 'w utxo_lib \<Rightarrow> (wallet_account, 'w, 'p) aggregate \<Rightarrow> local_output \<Rightarrow> bytes option" where
  "derive_wpkh_for_p2sh V U a utxo =
     Option.bind (List.find (\<lambda>(_, w). get_utxo V w (lo_outpoint utxo) \<noteq> None) (agg_wallets a)) (\<lambda>(_, w).
     Option.bind (ul_explicit_script U w (lo_keychain utxo) (lo_derivation_index utxo)) (\<lambda>explicit.
     if length explicit = 22 \<and> explicit ! 0 = 0x00 \<and> explicit ! 1 = 0x14 then Some (take 20 (drop 2 explicit)) else None))"

definition TAPROOT_SATISFACTION_WEIGHT :: u64 where
  "TAPROOT_SATISFACTION_WEIGHT = 1 * 4 + 1 + 1 + 64"

text \<open>An output is offered, skipped (\<open>Inr None\<close>), or ends the listing with an error.\<close>

definition utxo_for_ldk ::
    "'w bdk_view \<Rightarrow> bitcoin_lib \<Rightarrow> 'w utxo_lib \<Rightarrow> (wallet_account, 'w, 'p) aggregate \<Rightarrow> local_output
       \<Rightarrow> (ldk_utxo option, unit) result" where
  "utxo_for_ldk V B U a u =
     (let s = to_script (lo_txout u); op = lo_outpoint u; v = to_value (lo_txout u) in
      case ul_witness_version U s of
        Some ver \<Rightarrow>
          (let program = drop 2 s in
           if ver = 0 then
             (if ul_program_ok U 0 program \<and> length program = 20 then Inr (Some (UtxoV0P2wpkh op v program)) else Inl ())
           else if ver = 1 then
             (if ul_program_ok U 1 program \<and> ul_xonly_ok U program
              then Inr (Some (UtxoTaproot op v program TAPROOT_SATISFACTION_WEIGHT)) else Inl ())
           else Inr None)
      | None \<Rightarrow>
          if ul_is_p2pkh U s then Inr (Some (UtxoP2pkh op v (take 20 (drop 3 s))))
          else if is_p2sh B s then
            Inr (map_option (\<lambda>wpkh. UtxoNestedP2wpkh op v wpkh) (derive_wpkh_for_p2sh V U a u))
          else Inr None)"

definition list_confirmed_utxos_inner ::
    "('w, 'p, 'u, 'ev, 'blk, 'b) agg_libs \<Rightarrow> 'w utxo_lib \<Rightarrow> ('w, 'p, 'kv) onchain_wallet
       \<Rightarrow> (ldk_utxo list, unit) result" where
  "list_confirmed_utxos_inner X U ow =
     and_then (try_map (utxo_for_ldk (lib_view X) (lib_btc X) U (ow_inner ow))
       (list_confirmed_unspent (lib_view X) (ow_inner ow))) (\<lambda>us. Inr (List.map_filter (\<lambda>u. u) us))"

definition get_change_script_inner ::
    "('w, 'p, 'u, 'ev, 'blk, 'b, 'x, 'c, 'kv, 'addr, 'route) onchain_libs \<Rightarrow> ('w, 'p, 'kv) onchain_wallet
       \<Rightarrow> ('w, 'p, 'kv) onchain_wallet \<times> (script, unit) result" where
  "get_change_script_inner L ow =
     (case get_new_internal_address L ow of (ow, r) \<Rightarrow> (ow, map_err (\<lambda>_. ()) r))"

definition get_destination_script ::
    "('w, 'p, 'u, 'ev, 'blk, 'b, 'x, 'c, 'kv, 'addr, 'route) onchain_libs \<Rightarrow> ('w, 'p, 'kv) onchain_wallet
       \<Rightarrow> ('w, 'p, 'kv) onchain_wallet \<times> (script, unit) result" where
  "get_destination_script L ow =
     (case get_new_witness_address L ow of (ow, r) \<Rightarrow> (ow, and_then (map_err (\<lambda>_. ()) r) (\<lambda>info. Inr (ai_script info))))"

definition get_shutdown_scriptpubkey ::
    "('w, 'p, 'u, 'ev, 'blk, 'b, 'x, 'c, 'kv, 'addr, 'route) onchain_libs \<Rightarrow> ('d, 'b, 'fi) send_lib
       \<Rightarrow> ('w, 'p, 'kv) onchain_wallet \<Rightarrow> ('w, 'p, 'kv) onchain_wallet \<times> (script, unit) result" where
  "get_shutdown_scriptpubkey L Q ow =
     (case get_destination_script L ow of
        (ow, r) \<Rightarrow> (ow, and_then r (\<lambda>s.
          if has_witness_version (lib_btc (ol_agg L)) s then ok_or () (sl_shutdown Q s) else Inl ())))"


section \<open>The anchor reserve is kept\<close>

text \<open>The part of a balance that may be spent before the reserve is taken off.\<close>

definition spendable_base :: "('addr, 'route) config \<Rightarrow> balance \<Rightarrow> u64 option" where
  "spendable_base c b =
     map_option (\<lambda>trusted. if cfg_include_untrusted_pending_in_spendable c then trusted + bal_untrusted_pending b else trusted)
       (trusted_spendable b)"

lemma get_balances_inner_spendable:
  assumes "get_balances_inner c b reserve = Some (t, s)"
  shows "\<exists>base. spendable_base c b = Some base \<and> s = saturating_sub base reserve"
  using assms by (auto simp: get_balances_inner_def spendable_base_def bind_eq_Some_conv)

lemma unat_saturating_add_le:
  assumes "saturating_add x y \<le> (z :: u64)" "unat z < 2 ^ 64 - 1"
  shows "unat x + unat y \<le> unat z"
  using assms by (simp add: word_le_nat_alt unat_saturating_add)

lemma check_outpoints_ok:
  "check_outpoints us channels outpoints = Inr () \<longleftrightarrow>
     (\<forall>op \<in> set outpoints. op \<in> lo_outpoint ` set us \<and> \<not> is_funding_transaction channels (op_txid op))"
  by (induction outpoints) auto


text \<open>What a finished payment takes out of the wallets, its fee included, and the most it may take.\<close>

definition within_reserve :: "'w bdk_view \<Rightarrow> (wallet_account, 'w, 'p) aggregate \<Rightarrow> u64 \<Rightarrow> onchain_send_amount \<Rightarrow> psbt \<Rightarrow> bool" where
  "within_reserve V a base send_amount psbt =
     (case send_amount of
        ExactRetainingReserve amount reserve \<Rightarrow>
          (case calculate_fee_with_fallback V a psbt of
             Some (Inr fee) \<Rightarrow> unat amount + unat fee \<le> unat base - unat reserve
           | _ \<Rightarrow> False)
      | AllRetainingReserve reserve \<Rightarrow>
          (case drain_amount_from_psbt V a psbt of
             Some drained \<Rightarrow> unat drained \<le> unat base - unat reserve
           | None \<Rightarrow> False)
      | AllDrainingReserve \<Rightarrow> True)"

lemma check_reserve_exact:
  assumes "check_reserve L a bal (ExactRetainingReserve amount reserve) psbt = Some (a', Inr p)"
    and "spendable_base (ol_config L) bal = Some base" "unat base < 2 ^ 64 - 1"
  shows "a' = a \<and> p = psbt \<and> within_reserve (lib_view (ol_agg L)) a base (ExactRetainingReserve amount reserve) psbt"
proof -
  obtain t s q where s: "get_balances_inner (ol_config L) bal reserve = Some (t, s)"
    and q: "calculate_fee_with_fallback (lib_view (ol_agg L)) a psbt = Some q"
    using assms(1) by (auto simp: check_reserve_def Let_def bind_eq_Some_conv)
  then obtain fee where fee: "q = Inr fee" and le: "saturating_add amount fee \<le> s" and eq: "a' = a" "p = psbt"
    using assms(1) by (cases q) (auto simp: check_reserve_def Let_def not_less split: if_splits)
  have "s = saturating_sub base reserve"
    using get_balances_inner_spendable [OF s] assms(2) by simp
  then have "unat s = unat base - unat reserve" "unat s < 2 ^ 64 - 1"
    using assms(3) by (simp_all add: unat_saturating_sub)
  with unat_saturating_add_le [OF le] q fee eq show ?thesis
    by (simp add: within_reserve_def)
qed

lemma check_reserve_all:
  assumes "check_reserve L a bal (AllRetainingReserve reserve) psbt = Some (a', Inr p)"
    and "spendable_base (ol_config L) bal = Some base"
  shows "a' = a \<and> p = psbt \<and> within_reserve (lib_view (ol_agg L)) a base (AllRetainingReserve reserve) psbt"
proof -
  obtain t s drained where s: "get_balances_inner (ol_config L) bal reserve = Some (t, s)"
    and d: "drain_amount_from_psbt (lib_view (ol_agg L)) a psbt = Some drained"
    using assms(1) by (auto simp: check_reserve_def Let_def bind_eq_Some_conv)
  then have le: "drained \<le> s" and eq: "a' = a" "p = psbt"
    using assms(1) by (auto simp: check_reserve_def Let_def not_less split: if_splits)
  have "s = saturating_sub base reserve"
    using get_balances_inner_spendable [OF s] assms(2) by simp
  with le d eq show ?thesis
    by (simp add: within_reserve_def word_le_nat_alt unat_saturating_sub)
qed

lemma check_reserve_ok:
  assumes "check_reserve L a bal send_amount psbt = Some (a', Inr p)"
    and "spendable_base (ol_config L) bal = Some base" "unat base < 2 ^ 64 - 1"
  shows "a' = a \<and> p = psbt \<and> within_reserve (lib_view (ol_agg L)) a base send_amount psbt"
proof (cases send_amount)
  case (ExactRetainingReserve amount reserve)
  show ?thesis
    unfolding ExactRetainingReserve
    by (rule check_reserve_exact [OF assms(1) [unfolded ExactRetainingReserve] assms(2,3)])
next
  case (AllRetainingReserve reserve)
  show ?thesis
    unfolding AllRetainingReserve
    by (rule check_reserve_all [OF assms(1) [unfolded AllRetainingReserve] assms(2)])
next
  case AllDrainingReserve
  with assms(1) show ?thesis by (simp add: check_reserve_def within_reserve_def)
qed

lemma payment_inputs_checked:
  assumes "payment_inputs L a spk send_amount fee_rate (Some outpoints) channels = Some (Inr infos)" "op \<in> set outpoints"
  shows "op \<in> lo_outpoint ` set (list_unspent_all (lib_view (ol_agg L)) a) \<and> \<not> is_funding_transaction channels (op_txid op)"
proof -
  have "check_outpoints (list_unspent_all (lib_view (ol_agg L)) a) channels outpoints = Inr ()"
    using assms(1) by (auto simp: payment_inputs_def check_utxos_to_spend_def Let_def and_then_eq_Inr split: sum.splits)
  then show ?thesis
    using assms(2) unfolding check_outpoints_ok by blast
qed

lemma build_transaction_reserve_checked:
  assumes "build_transaction_psbt L Q a spk send_amount fee_rate utxos_to_spend channels = Some (a', Inr psbt)"
  obtains infos bal a1 p1 where "payment_inputs L a spk send_amount fee_rate utxos_to_spend channels = Some (Inr infos)"
    and "aggregate_balance (lib_view (ol_agg L)) a = Some bal" "check_reserve L a1 bal send_amount p1 = Some (a', Inr psbt)"
proof -
  let ?T = "lib_build (ol_agg L)"
  note run = assms [unfolded build_transaction_psbt_def Let_def]
  obtain q where q: "payment_inputs L a spk send_amount fee_rate utxos_to_spend channels = Some q"
    using run by (auto simp: bind_eq_Some_conv)
  with run obtain np man where inputs: "q = Inr (np, man)"
    by (cases q) auto
  obtain bal a0 r where bal: "aggregate_balance (lib_view (ol_agg L)) a = Some bal"
    and start: "start_builder L Q a bal spk send_amount fee_rate man np = Some (a0, r)"
    using run by (auto simp: q inputs bind_eq_Some_conv)
  obtain b where b: "and_then r (\<lambda>b. and_then (add_manual ?T b man) (\<lambda>b. add_cross_wallet ?T b np)) = Inr b"
    using run by (cases "and_then r (\<lambda>b. and_then (add_manual ?T b man) (\<lambda>b. add_cross_wallet ?T b np))")
      (simp_all add: q inputs bal start)
  obtain a1 f where f: "finish_or_retry (ol_agg L) a0 b spk send_amount fee_rate
      (funding_txids (list_unspent_all (lib_view (ol_agg L)) a) channels) (man = None \<and> np = None) = (a1, f)"
    by fastforce
  obtain p1 where "f = Inr p1"
    using run by (cases f) (simp_all add: q inputs bal start b f)
  then have "check_reserve L a1 bal send_amount p1 = Some (a', Inr psbt)"
    using run by (simp add: q inputs bal start b f)
  with that q inputs bal show thesis
    by blast
qed



section \<open>Broadcast transactions are on record\<close>

text \<open>The runs of the wallet, with the operations that broadcast.\<close>

inductive spend_step ::
    "('w, 'p, 'u, 'ev, 'blk, 'b, 'x, 'c, 'kv, 'addr, 'route) onchain_libs \<Rightarrow> ('d, 'b, 'fi) send_lib
       \<Rightarrow> ('w, 'p, 'kv) onchain_wallet \<Rightarrow> ('w, 'p, 'kv) onchain_wallet \<Rightarrow> bool"
  for L Q where
  wallet: "wallet_step L ow ow' \<Longrightarrow> spend_step L Q ow ow'"
| quote: "calculate_transaction_fee L Q ow address amount fee_rate utxos channels = Some (ow', rf) \<Longrightarrow> spend_step L Q ow ow'"
| prepare: "prepare_send_to_address L Q ow address amount fee_rate utxos channels = Some (ow', rt) \<Longrightarrow> spend_step L Q ow ow'"
| send: "send_to_address L Q ow address amount fee_rate utxos channels = Some (ow', ri) \<Longrightarrow> spend_step L Q ow ow'"
| replace: "bump_fee_by_rbf L ow i rate channels = Some (ow', ri) \<Longrightarrow> spend_step L Q ow ow'"
| accelerate: "accelerate_by_cpfp L Q ow i rate destination = Some (ow', ri) \<Longrightarrow> spend_step L Q ow ow'"
| fund: "create_funding_transaction L ow s value tgt locktime = (ow', rt) \<Longrightarrow> spend_step L Q ow ow'"
| splice: "select_confirmed_utxos L Q ow inputs outputs rate = Some (ow', rl) \<Longrightarrow> spend_step L Q ow ow'"

text \<open>An operation that leaves the store, the payments and the broadcast transactions alone.\<close>

definition same_store :: "('w, 'p, 'kv) onchain_wallet \<Rightarrow> ('w, 'p, 'kv) onchain_wallet \<Rightarrow> bool" where
  "same_store ow ow' \<longleftrightarrow> ow_kv ow' = ow_kv ow \<and> ow_payments ow' = ow_payments ow \<and> ow_broadcasts ow' = ow_broadcasts ow"

lemma same_store_refl [simp]: "same_store ow ow"
  by (simp add: same_store_def)

lemma load_account_store: "load_account L ow account = Some (ow', r) \<Longrightarrow> same_store ow ow'"
  by (erule load_account_run) (simp_all add: same_store_def)

lemma add_monitored_store:
  assumes "add_monitored_address_type L ow t = Some (ow', r)"
  shows "same_store ow ow'"
proof (cases "rc_primary (ow_runtime ow) = t \<or> t \<in> set (rc_monitored (ow_runtime ow))")
  case True
  then have "ow' = ow"
    using assms by (auto simp: add_monitored_address_type_def Let_def split: if_splits)
  then show ?thesis by simp
next
  case False
  then obtain ow1 r1 where l: "load_account L ow (account_zero t) = Some (ow1, r1)"
    using assms by (auto simp: add_monitored_address_type_def Let_def bind_eq_Some_conv)
  show ?thesis
    using assms False load_account_store [OF l] by (cases r1) (auto simp: add_monitored_address_type_def Let_def l same_store_def)
qed

lemma load_primary_store: "load_primary L ow account = Some (ow', r) \<Longrightarrow> same_store ow ow'"
  by (auto simp: load_primary_def dest: load_account_store split: if_splits)

lemma set_primary_store:
  assumes "set_primary_address_type L ow t = Some (ow', r)"
  shows "same_store ow ow'"
proof (cases "t = rc_primary (ow_runtime ow)")
  case True
  then show ?thesis
    using assms by (simp add: set_primary_address_type_def Let_def)
next
  case False
  then obtain ow1 r1 where l: "load_primary L ow (account_zero t) = Some (ow1, r1)"
    using assms by (auto simp: set_primary_address_type_def Let_def bind_eq_Some_conv)
  show ?thesis
  proof (cases r1)
    case (Inl e)
    then show ?thesis
      using assms False load_primary_store [OF l] by (simp add: set_primary_address_type_def Let_def l)
  next
    case (Inr u)
    then show ?thesis
      using assms False load_primary_store [OF l]
      by (cases "snd (set_primary (ow_inner ow1) (account_zero t))")
        (auto simp: set_primary_address_type_def Let_def l with_inner_eq same_store_def)
  qed
qed

lemma add_onchain_store: "add_onchain_wallet_account L ow t i xpub = Some (ow', r) \<Longrightarrow> same_store ow ow'"
  by (erule add_onchain_run) (auto simp: same_store_def)

lemma remove_store:
  "remove_monitored_address_type ow t = (ow', r) \<Longrightarrow> same_store ow ow'"
  "remove_onchain_wallet_account ow t i = (ow', r) \<Longrightarrow> same_store ow ow'"
proof -
  let ?r = "snd (remove_wallet (ow_inner ow) (account_zero t))"
  show "remove_monitored_address_type ow t = (ow', r) \<Longrightarrow> same_store ow ow'"
    by (cases ?r; cases "projl ?r")
      (auto simp: remove_monitored_address_type_def Let_def same_store_def case_prod_unfold split: if_splits)
  let ?r = "snd (remove_wallet (ow_inner ow) \<lparr>wa_address_type = t, wa_account_index = i\<rparr>)"
  show "remove_onchain_wallet_account ow t i = (ow', r) \<Longrightarrow> same_store ow ow'"
    by (cases ?r; cases "projl ?r")
      (auto simp: remove_onchain_wallet_account_def unregister_derived_def Let_def same_store_def case_prod_unfold split: if_splits)
qed

lemma rewind_store:
  assumes "rewind_wallet_account L ow account hash height = (ow', r)"
  shows "same_store ow ow'"
proof (cases "new_master (ol_keys L) (cfg_network (ol_config L)) (ol_seed L)")
  case None
  then show ?thesis
    using assms by (simp add: rewind_wallet_account_def)
next
  case (Some xprv)
  then show ?thesis
    using assms
    by (cases "snd (persist_all (lib_ops (ol_agg L)) (ow_inner ow))"; cases "reload_rewound L account xprv hash height")
      (auto simp: rewind_wallet_account_def with_inner_eq same_store_def case_prod_unfold split: if_splits)
qed

lemma chain_store:
  "wallet_apply_update L ow u = (ow', re) \<Longrightarrow> same_store ow ow'"
  "apply_update_for_wallet_account L ow account u = (ow', ro) \<Longrightarrow> same_store ow ow'"
  "apply_block_to_account L ow account block height = (ow', r) \<Longrightarrow> same_store ow ow'"
  by (auto simp: wallet_apply_update_def apply_update_for_wallet_account_def apply_block_to_account_def with_inner_eq
      same_store_def split: if_splits sum.splits)

lemma address_store:
  "get_new_address_info L ow = (ow', ri) \<Longrightarrow> same_store ow ow'"
  "get_new_address_info_for_account L ow account = (ow', ri) \<Longrightarrow> same_store ow ow'"
  "reveal_receive_addresses_to_account L ow account i = (ow', r) \<Longrightarrow> same_store ow ow'"
  "get_new_internal_address L ow = (ow', rs) \<Longrightarrow> same_store ow ow'"
  "wallet_cancel_transaction L ow tx = (ow', r) \<Longrightarrow> same_store ow ow'"
  by (auto simp: get_new_address_info_def get_new_address_info_for_account_def reveal_receive_addresses_to_account_def
      get_new_internal_address_def wallet_cancel_transaction_def with_inner_eq same_store_def split: sum.splits)

lemma witness_address_store: "get_new_witness_address L ow = (ow', ri) \<Longrightarrow> same_store ow ow'"
  by (auto simp: get_new_witness_address_def Let_def dest: address_store split: if_splits option.splits)

lemma quote_store:
  assumes "calculate_transaction_fee L Q ow address amount fee_rate utxos channels = Some (ow', rf)"
  shows "same_store ow ow'"
proof (cases "sl_require_network Q (cfg_network (ol_config L)) address")
  case True
  let ?rate = "case fee_rate of Some r \<Rightarrow> r | None \<Rightarrow> estimate_fee_rate (ol_floor L) (ow_estimator ow) OnchainPayment"
  obtain a r where b: "build_transaction_psbt L Q (ow_inner ow) (sl_script Q address) amount ?rate utxos channels = Some (a, r)"
    using assms True by (auto simp: calculate_transaction_fee_def Let_def bind_eq_Some_conv)
  then show ?thesis
    using assms True by (cases r) (auto simp: calculate_transaction_fee_def Let_def b bind_eq_Some_conv same_store_def)
qed (use assms in \<open>simp add: calculate_transaction_fee_def\<close>)

lemma prepare_store: "prepare_send_to_address L Q ow address amount fee_rate utxos channels = Some (ow', rt) \<Longrightarrow> same_store ow ow'"
  by (auto simp: prepare_send_to_address_def Let_def same_store_def case_prod_unfold split: if_splits)

lemma fund_store: "create_funding_transaction L ow s value tgt locktime = (ow', rt) \<Longrightarrow> same_store ow ow'"
  by (auto simp: create_funding_transaction_def Let_def with_inner_eq same_store_def)

lemma splice_store: "select_confirmed_utxos L Q ow inputs outputs rate = Some (ow', rl) \<Longrightarrow> same_store ow ow'"
  by (auto simp: select_confirmed_utxos_def same_store_def)

text \<open>
  The payments of the store and the broadcast transactions live in different namespaces.
\<close>

definition store_ok ::
    "('w, 'p, 'u, 'ev, 'blk, 'b, 'x, 'c, sqlite_store, 'addr, 'route) onchain_libs
       \<Rightarrow> ('w, 'p, sqlite_store) onchain_wallet \<Rightarrow> bool" where
  "store_ok L ow \<longleftrightarrow> sqlite_fresh (ow_kv ow)
     \<and> primary_namespace (ow_payments ow) = PAYMENT_INFO_PERSISTENCE_PRIMARY_NAMESPACE
     \<and> (\<forall>tx \<in> set (ow_broadcasts ow). kv_table (ow_kv ow) (broadcast_target L (compute_txid (lib_btc (ol_agg L)) tx)) = Some [])"

lemma store_ok_same: "same_store ow ow' \<Longrightarrow> store_ok L ow \<Longrightarrow> store_ok L ow'"
  by (simp add: same_store_def store_ok_def)

lemma insert_or_update_frame:
  assumes "DataStore_insert_or_update S (sqlite_ops alphabet max_len db) ds kv d = (r, ds', kv')" "sqlite_fresh kv"
    and "fst t \<noteq> primary_namespace ds"
  shows "sqlite_fresh kv' \<and> kv_table kv' t = kv_table kv t \<and> primary_namespace ds' = primary_namespace ds"
proof -
  have written: "sqlite_fresh k \<and> kv_table k t = kv_table kv t"
    if p: "DataStore_persist S (sqlite_ops alphabet max_len db) ds kv obj = (q, k)" for obj q k
  proof -
    obtain q' where w: "kv_write (sqlite_ops alphabet max_len db) kv (store_target S ds (so_id S obj)) (so_encode S obj) = (q', k)"
      using p by (auto simp: DataStore_persist_def split: prod.splits sum.splits)
    show ?thesis
      using sqlite.contents_write [OF assms(2) w] sqlite.invar_write [OF assms(2) w] assms(3)
      by (auto simp: store_target_def)
  qed
  then show ?thesis
    using assms(1,2)
    by (auto simp: DataStore_insert_or_update_def split: option.splits prod.splits sum.splits if_splits)
qed

lemma update_payments_loop_frame:
  assumes "ol_kv L = sqlite_ops alphabet max_len db" "fst t \<noteq> PAYMENT_INFO_PERSISTENCE_PRIMARY_NAMESPACE"
    and "sqlite_fresh kv" "primary_namespace ds = PAYMENT_INFO_PERSISTENCE_PRIMARY_NAMESPACE"
    and "update_payments_loop L a height seen entries ds kv = (r, ds', kv')"
  shows "sqlite_fresh kv' \<and> kv_table kv' t = kv_table kv t
    \<and> primary_namespace ds' = PAYMENT_INFO_PERSISTENCE_PRIMARY_NAMESPACE"
  using assms(3-)
proof (induction entries arbitrary: seen ds kv)
  case Nil
  then show ?case by simp
next
  case (Cons e entries)
  obtain w j where e: "e = (w, j)"
    by (cases e)
  show ?case
  proof (cases "j \<in> seen")
    case True
    with Cons e show ?thesis by simp
  next
    case False
    obtain r1 ds1 kv1 where ins: "DataStore_insert_or_update (payment_storable (ol_now L) (ol_payment L))
        (sqlite_ops alphabet max_len db) ds kv (onchain_payment L a height w j) = (r1, ds1, kv1)"
      by (metis prod_cases3)
    note frame = insert_or_update_frame [OF ins Cons.prems(1), of t]
    show ?thesis
    proof (cases r1)
      case (Inl e1)
      then show ?thesis
        using Cons.prems e False ins frame assms(1,2) by auto
    next
      case (Inr b)
      then have "update_payments_loop L a height (insert j seen) entries ds1 kv1 = (r, ds', kv')"
        using Cons.prems(3) e False ins assms(1) by simp
      with Cons.IH [of kv1 ds1 "insert j seen"] frame Cons.prems(2) assms(2) show ?thesis
        by simp
    qed
  qed
qed

lemma update_payment_store_ok:
  assumes "ol_kv L = sqlite_ops alphabet max_len db" "update_payment_store L ow = Some (ow', r)" "store_ok L ow"
  shows "store_ok L ow'"
proof -
  let ?V = "lib_view (ol_agg L)" and ?a = "ow_inner ow"
  obtain height ds kv where loop: "update_payments_loop L ?a height {} (wallet_entries ?V ?a) (ow_payments ow) (ow_kv ow) = (r, ds, kv)"
    and ow': "ow' = ow\<lparr>ow_payments := ds, ow_kv := kv, ow_update_pending := isl r\<rparr>"
  proof -
    obtain hash height where tip: "current_best_block (lib_ops (ol_agg L)) ?a = Some (hash, height)"
      using assms(2) by (auto simp: update_payment_store_def Let_def)
    obtain q ds kv where "update_payments_loop L ?a height {} (wallet_entries ?V ?a) (ow_payments ow) (ow_kv ow) = (q, ds, kv)"
      by (metis prod_cases3)
    with that assms(2) tip show thesis
      by (auto simp: update_payment_store_def Let_def)
  qed
  have ns: "fst (broadcast_target L i) \<noteq> PAYMENT_INFO_PERSISTENCE_PRIMARY_NAMESPACE" for i
    by (simp add: broadcast_target_def WALLET_BROADCAST_TXIDS_PRIMARY_NAMESPACE_def
        PAYMENT_INFO_PERSISTENCE_PRIMARY_NAMESPACE_def)
  show ?thesis
    using update_payments_loop_frame [OF assms(1) ns _ _ loop] assms(3) by (auto simp: store_ok_def ow')
qed


lemma chain_step_ok:
  assumes "ol_kv L = sqlite_ops alphabet max_len db" "store_ok L ow"
  shows "finish_pending_sync L ow refresh = Some (ow', r) \<Longrightarrow> store_ok L ow'"
    "wallet_apply_mempool_txs L ow txs evicted = Some (ow', r) \<Longrightarrow> store_ok L ow'"
    "block_connected L ow block height = Some ow' \<Longrightarrow> store_ok L ow'"
proof -
  have inner: "store_ok L (ow\<lparr>ow_inner := a\<rparr>)" "store_ok L (ow\<lparr>ow_update_pending := u, ow_inner := a\<rparr>)" for a u
    using assms(2) by (simp_all add: store_ok_def)
  note upd = update_payment_store_ok [OF assms(1)]
  show "store_ok L ow'" if "finish_pending_sync L ow refresh = Some (ow', r)"
    using that inner upd
    by (cases "snd (persist_all (lib_ops (ol_agg L)) (ow_inner ow))")
      (auto simp: finish_pending_sync_def with_inner_eq split: if_splits)
  show "store_ok L ow'" if "wallet_apply_mempool_txs L ow txs evicted = Some (ow', r)"
    using that inner upd
    by (cases "snd (apply_mempool_txs (lib_ops (ol_agg L)) (ow_inner ow) txs evicted)")
      (auto simp: wallet_apply_mempool_txs_def with_inner_eq)
  show "store_ok L ow'" if run: "block_connected L ow block height = Some ow'"
  proof -
    obtain a q where q: "apply_block (lib_view (ol_agg L)) (lib_ops (ol_agg L)) (ow_inner ow) block height = Some (a, q)"
      using run by (auto simp: block_connected_def bind_eq_Some_conv)
    show ?thesis
      using run q inner upd by (cases q) (auto simp: block_connected_def)
  qed
qed

lemma wallet_step_store_ok:
  assumes "ol_kv L = sqlite_ops alphabet max_len db" "store_ok L ow" "wallet_step L ow ow'"
  shows "store_ok L ow'"
  using assms(3)
proof cases
  case finish_sync
  then show ?thesis by (rule chain_step_ok(1) [OF assms(1,2)])
next
  case mempool
  then show ?thesis by (rule chain_step_ok(2) [OF assms(1,2)])
next
  case block
  then show ?thesis by (rule chain_step_ok(3) [OF assms(1,2)])
next
  case payments
  then show ?thesis by (rule update_payment_store_ok [OF assms(1) _ assms(2)])
next
  case synced
  then show ?thesis
    using assms(2) by (simp add: store_ok_def mark_derived_account_synced_def)
qed (rule store_ok_same [OF _ assms(2)],
    erule add_monitored_store remove_store set_primary_store add_onchain_store rewind_store chain_store address_store
      witness_address_store)+

text \<open>The end of every operation that broadcasts.\<close>

lemma record_and_broadcast_run:
  assumes "ol_kv L = sqlite_ops alphabet max_len db" "store_ok L ow" "record_and_broadcast L ow tx = (ow', r)"
  shows "store_ok L ow' \<and> (case r of
      Inl e \<Rightarrow> ow_broadcasts ow' = ow_broadcasts ow
    | Inr i \<Rightarrow> i = compute_txid (lib_btc (ol_agg L)) tx \<and> ow_broadcasts ow' = ow_broadcasts ow @ [tx])"
proof -
  let ?i = "compute_txid (lib_btc (ol_agg L)) tx"
  obtain q kv where w: "kv_write (sqlite_ops alphabet max_len db) (ow_kv ow) (broadcast_target L ?i) [] = (q, kv)"
    by fastforce
  have fresh: "sqlite_fresh (ow_kv ow)"
    using assms(2) by (simp add: store_ok_def)
  note written = sqlite.contents_write [OF fresh w] sqlite.invar_write [OF fresh w]
  show ?thesis
  proof (cases q)
    case (Inl e)
    have same: "same_store (ow\<lparr>ow_kv := kv\<rparr>) (fst (wallet_cancel_transaction L (ow\<lparr>ow_kv := kv\<rparr>) tx))"
      by (rule address_store(5)) (rule prod.collapse [symmetric])
    have "ow' = fst (wallet_cancel_transaction L (ow\<lparr>ow_kv := kv\<rparr>) tx)" "r = Inl PersistenceFailed"
      using assms(1,3) w Inl by (auto simp: record_and_broadcast_def record_broadcast_txid_def Let_def)
    moreover have "store_ok L (ow\<lparr>ow_kv := kv\<rparr>)"
      using assms(2) written Inl by (auto simp: store_ok_def)
    ultimately show ?thesis
      using store_ok_same [OF same, of L] same by (simp add: same_store_def)
  next
    case (Inr u)
    then have "ow' = ow\<lparr>ow_kv := kv, ow_broadcasts := ow_broadcasts ow @ [tx]\<rparr>" "r = Inr ?i"
      using assms(1,3) w by (auto simp: record_and_broadcast_def record_broadcast_txid_def Let_def)
    then show ?thesis
      using assms(2) written Inr by (auto simp: store_ok_def)
  qed
qed


text \<open>What an operation that broadcasts does, whatever happens on the way.\<close>

definition dispatched ::
    "('w, 'p, 'u, 'ev, 'blk, 'b, 'x, 'c, sqlite_store, 'addr, 'route) onchain_libs
       \<Rightarrow> ('w, 'p, sqlite_store) onchain_wallet \<Rightarrow> ('w, 'p, sqlite_store) onchain_wallet \<Rightarrow> (txid, node_error) result \<Rightarrow> bool" where
  "dispatched L ow ow' r =
     (case r of
        Inl e \<Rightarrow> ow_broadcasts ow' = ow_broadcasts ow
      | Inr i \<Rightarrow> ow_broadcasts ow' \<noteq> [] \<and> butlast (ow_broadcasts ow') = ow_broadcasts ow
          \<and> compute_txid (lib_btc (ol_agg L)) (last (ow_broadcasts ow')) = i)"

lemma record_dispatched:
  assumes "ol_kv L = sqlite_ops alphabet max_len db" "store_ok L ow1" "record_and_broadcast L ow1 tx = (ow', r)"
    and "ow_broadcasts ow1 = ow_broadcasts ow"
  shows "store_ok L ow' \<and> dispatched L ow ow' r"
  using record_and_broadcast_run [OF assms(1-3)] assms(4) by (cases r) (auto simp: dispatched_def)

lemma persist_and_dispatch_run:
  assumes "ol_kv L = sqlite_ops alphabet max_len db" "store_ok L ow1" "persist_and_dispatch L ow1 tx = (ow', r)"
    and "ow_broadcasts ow1 = ow_broadcasts ow"
  shows "store_ok L ow' \<and> dispatched L ow ow' r"
proof -
  have ok: "store_ok L (ow1\<lparr>ow_inner := a\<rparr>)" for a
    using assms(2) by (simp add: store_ok_def)
  show ?thesis
  proof (cases "snd (persist_all (lib_ops (ol_agg L)) (ow_inner ow1))")
    case (Inl e)
    then show ?thesis
      using assms(3,4) ok by (auto simp: persist_and_dispatch_def with_inner_eq dispatched_def)
  next
    case (Inr u)
    then have "record_and_broadcast L (ow1\<lparr>ow_inner := fst (persist_all (lib_ops (ol_agg L)) (ow_inner ow1))\<rparr>) tx = (ow', r)"
      using assms(3) by (simp add: persist_and_dispatch_def with_inner_eq)
    from record_dispatched [OF assms(1) ok this] assms(4) show ?thesis
      by simp
  qed
qed

lemma send_dispatched:
  assumes "ol_kv L = sqlite_ops alphabet max_len db" "store_ok L ow"
    and "send_to_address L Q ow address amount fee_rate utxos channels = Some (ow', r)"
  shows "store_ok L ow' \<and> dispatched L ow ow' r"
proof -
  obtain ow1 q where q: "prepare_send_to_address L Q ow address amount fee_rate utxos channels = Some (ow1, q)"
    using assms(3) by (auto simp: send_to_address_def)
  have same: "same_store ow ow1"
    by (rule prepare_store [OF q])
  show ?thesis
  proof (cases q)
    case (Inl e)
    then show ?thesis
      using assms(3) q same store_ok_same [OF same assms(2)] by (auto simp: send_to_address_def dispatched_def same_store_def)
  next
    case (Inr tx)
    then have "record_and_broadcast L ow1 tx = (ow', r)"
      using assms(3) q by (simp add: send_to_address_def)
    from record_dispatched [OF assms(1) store_ok_same [OF same assms(2)] this] same show ?thesis
      by (simp add: same_store_def)
  qed
qed

lemma built_dispatched:
  assumes "ol_kv L = sqlite_ops alphabet max_len db" "store_ok L ow"
    and "(case with_inner ow run err of (ow, Inl e) \<Rightarrow> (ow, Inl e) | (ow, Inr (tx, x)) \<Rightarrow> persist_and_dispatch L ow tx) = (ow', r)"
  shows "store_ok L ow' \<and> dispatched L ow ow' r"
proof -
  have ok: "store_ok L (ow\<lparr>ow_inner := a\<rparr>)" for a
    using assms(2) by (simp add: store_ok_def)
  show ?thesis
  proof (cases "snd run")
    case (Inl e)
    then show ?thesis
      using assms(3) ok by (auto simp: with_inner_eq dispatched_def)
  next
    case (Inr y)
    then have "persist_and_dispatch L (ow\<lparr>ow_inner := fst run\<rparr>) (fst y) = (ow', r)"
      using assms(3) by (simp add: with_inner_eq case_prod_unfold)
    from persist_and_dispatch_run [OF assms(1) ok this] show ?thesis
      by simp
  qed
qed

text \<open>A replacement is of a transaction on record that funds no channel.\<close>

lemma bump_dispatched:
  assumes "ol_kv L = sqlite_ops alphabet max_len db" "store_ok L ow" "bump_fee_by_rbf L ow i rate channels = Some (ow', r)"
  shows "store_ok L ow' \<and> dispatched L ow ow' r
    \<and> (\<not> isl r \<longrightarrow> \<not> is_funding_transaction channels i \<and> kv_table (ow_kv ow) (broadcast_target L i) \<noteq> None)"
proof (cases "is_funding_transaction channels i \<or> is_broadcast_by_wallet L ow i \<noteq> Inr True")
  case True
  then have "ow' = ow" "isl r"
    using assms(3)
    by (cases "is_broadcast_by_wallet L ow i"; auto simp: bump_fee_by_rbf_def split: if_splits)+
  then show ?thesis
    using assms(2) by (cases r) (simp_all add: dispatched_def)
next
  case False
  then have "(case with_inner ow (the (build_rbf (ol_agg L) (ow_inner ow) i rate)) rbf_error of
      (ow, Inl e) \<Rightarrow> (ow, Inl e) | (ow, Inr (tx, original_fee)) \<Rightarrow> persist_and_dispatch L ow tx) = (ow', r)"
    using assms(3) by (auto simp: bump_fee_by_rbf_def)
  note done1 = built_dispatched [OF assms(1,2) this]
  have "sqlite_fresh (ow_kv ow)"
    using assms(2) by (simp add: store_ok_def)
  moreover obtain v where "kv_read (sqlite_ops alphabet max_len db) (ow_kv ow) (broadcast_target L i) = Inr v"
    using False assms(1) by (auto simp: is_broadcast_by_wallet_def split: sum.splits if_splits)
  ultimately have "kv_table (ow_kv ow) (broadcast_target L i) = Some v"
    by (rule sqlite.read_ok)
  with done1 False show ?thesis
    by simp
qed

lemma accelerate_dispatched:
  assumes "ol_kv L = sqlite_ops alphabet max_len db" "store_ok L ow"
    and "accelerate_by_cpfp L Q ow i rate destination = Some (ow', r)"
  shows "store_ok L ow' \<and> dispatched L ow ow' r"
proof (cases "case destination of Some address \<Rightarrow> \<not> sl_require_network Q (cfg_network (ol_config L)) address | None \<Rightarrow> False")
  case True
  then show ?thesis
    using assms(2,3) by (auto simp: accelerate_by_cpfp_def dispatched_def split: option.splits)
next
  case False
  then obtain run where b: "build_cpfp (ol_agg L) (ow_inner ow) i rate (map_option (sl_script Q) destination) = Some run"
    using assms(3) by (auto simp: accelerate_by_cpfp_def)
  have "(case with_inner ow run cpfp_error of
      (ow, Inl e) \<Rightarrow> (ow, Inl e) | (ow, Inr (tx, x)) \<Rightarrow> persist_and_dispatch L ow tx) = (ow', r)"
    using assms(3) False unfolding accelerate_by_cpfp_def b by (simp add: case_prod_unfold)
  then show ?thesis
    by (rule built_dispatched [OF assms(1,2)])
qed


lemma spend_step_store_ok:
  assumes "ol_kv L = sqlite_ops alphabet max_len db" "store_ok L ow" "spend_step L Q ow ow'"
  shows "store_ok L ow'"
  using assms(3)
proof cases
  case wallet
  then show ?thesis by (rule wallet_step_store_ok [OF assms(1,2)])
next
  case quote
  then show ?thesis by (rule store_ok_same [OF quote_store assms(2)])
next
  case prepare
  then show ?thesis by (rule store_ok_same [OF prepare_store assms(2)])
next
  case send
  then show ?thesis by (rule send_dispatched [OF assms(1,2), THEN conjunct1])
next
  case replace
  then show ?thesis by (rule bump_dispatched [OF assms(1,2), THEN conjunct1])
next
  case accelerate
  then show ?thesis by (rule accelerate_dispatched [OF assms(1,2), THEN conjunct1])
next
  case fund
  then show ?thesis by (rule store_ok_same [OF fund_store assms(2)])
next
  case splice
  then show ?thesis by (rule store_ok_same [OF splice_store assms(2)])
qed

lemma spend_steps_store_ok:
  assumes "(spend_step L Q)\<^sup>*\<^sup>* ow ow'" "ol_kv L = sqlite_ops alphabet max_len db" "store_ok L ow"
  shows "store_ok L ow'"
  using assms by (induction rule: rtranclp_induct) (auto dest: spend_step_store_ok)

text \<open>
  C40: after any run of the wallet, payments, replacements and accelerations included and whatever fails on the
  way, every transaction handed to the broadcaster is on record in the store, so the wallet will know it
  as its own after a restart. An operation that reports an error has broadcast nothing, one that
  succeeds has broadcast exactly the transaction whose id it returns. A replacement is only made for a
  transaction on record, never for one that funds a channel.
\<close>

theorem broadcasts_are_recorded:
  assumes "ol_kv L = sqlite_ops alphabet max_len db" "sqlite_fresh kv"
    and "primary_namespace payments = PAYMENT_INFO_PERSISTENCE_PRIMARY_NAMESPACE"
    and "(spend_step L Q)\<^sup>*\<^sup>* (Wallet_new L w p additional est payments kv rc metrics) ow"
  shows "(\<forall>tx \<in> set (ow_broadcasts ow).
      kv_table (ow_kv ow) (broadcast_target L (compute_txid (lib_btc (ol_agg L)) tx)) = Some [])
    \<and> (send_to_address L Q ow address amount fee_rate utxos channels = Some (ow1, r1) \<longrightarrow> dispatched L ow ow1 r1)
    \<and> (accelerate_by_cpfp L Q ow i rate destination = Some (ow2, r2) \<longrightarrow> dispatched L ow ow2 r2)
    \<and> (bump_fee_by_rbf L ow i rate channels = Some (ow3, r3) \<longrightarrow> dispatched L ow ow3 r3
        \<and> (\<not> isl r3 \<longrightarrow> \<not> is_funding_transaction channels i \<and> kv_table (ow_kv ow) (broadcast_target L i) \<noteq> None))"
proof -
  have "store_ok L (Wallet_new L w p additional est payments kv rc metrics)"
    using assms(2,3) by (simp add: store_ok_def Wallet_new_def)
  then have ok: "store_ok L ow"
    by (rule spend_steps_store_ok [OF assms(4,1)])
  then have recorded: "\<forall>tx \<in> set (ow_broadcasts ow).
      kv_table (ow_kv ow) (broadcast_target L (compute_txid (lib_btc (ol_agg L)) tx)) = Some []"
    by (simp add: store_ok_def)
  have sent: "dispatched L ow ow1 r1" if "send_to_address L Q ow address amount fee_rate utxos channels = Some (ow1, r1)"
    using send_dispatched [OF assms(1) ok that] by simp
  have child: "dispatched L ow ow2 r2" if "accelerate_by_cpfp L Q ow i rate destination = Some (ow2, r2)"
    using accelerate_dispatched [OF assms(1) ok that] by simp
  show ?thesis
    using recorded sent child bump_dispatched [OF assms(1) ok, of i rate channels ow3 r3] by blast
qed


section \<open>Examples\<close>

definition example_sender :: "(script, example_wallet, unit) send_lib" where
  "example_sender =
     \<lparr>sl_script = (\<lambda>s. s), sl_require_network = (\<lambda>_ _. True), sl_fee_absolute = (\<lambda>b _. b), sl_only_witness_utxo = (\<lambda>b. b),
      sl_add_foreign_utxo = (\<lambda>b _ _ _. Some b), sl_exclude_unconfirmed = (\<lambda>b. b), sl_from_unsigned = (\<lambda>_. None),
      sl_funding_input = (\<lambda>_ _ _. Some ()), sl_shutdown = Some\<rparr>"

text \<open>The wallet holds output 1 of 1000 satoshi and reports a balance of 30000; the builder spends the output.\<close>

definition example_send_libs ::
    "(example_wallet, nat, unit, unit, unit, example_wallet) agg_libs" where
  "example_send_libs = example_libs
     \<lparr>lib_view := example_view\<lparr>wallet_balance := (\<lambda>_. \<lparr>bal_confirmed = 30000, bal_trusted_pending = 0,
        bal_untrusted_pending = 0, bal_immature = 0\<rparr>)\<rparr>,
      lib_build := example_builder\<lparr>finish := (\<lambda>b. (b, Inr example_psbt))\<rparr>\<rparr>"

definition example_send_onchain ::
    "(example_wallet, nat, unit, unit, unit, example_wallet, string, u32, sqlite_store, unit, unit) onchain_libs" where
  "example_send_onchain = (example_onchain (\<lambda>_. True))\<lparr>ol_agg := example_send_libs, ol_txid_string := (\<lambda>_. ''a''),
     ol_kv := sqlite_ops (CHR ''_'' # example_alphabet) 120 (\<lambda>_. True)\<rparr>"

definition example_send_agg :: "(wallet_account, example_wallet, nat) aggregate" where
  "example_send_agg = aggregate_new ([example_output 1 1000], [(Txid [1], example_tx [] [example_txout 1000 1])], [[9]]) 0 (account_zero NativeSegwit) []"

abbreviation example_amount :: onchain_send_amount where
  "example_amount \<equiv> ExactRetainingReserve 900 25000"

definition example_built :: "((wallet_account, example_wallet, nat) aggregate \<times> (psbt, node_error) result) option" where
  "example_built = build_transaction_psbt example_send_onchain example_sender example_send_agg [7] example_amount 250
     (Some [example_outpoint 1]) []"

lemma example_send_agg_eq:
  "example_send_agg = \<lparr>agg_wallets = [(account_zero NativeSegwit,
       ([example_output 1 1000], [(Txid [1], example_tx [] [example_txout 1000 1])], [[9]]))],
     agg_persisters = [(account_zero NativeSegwit, 0)], agg_primary = account_zero NativeSegwit\<rparr>"
  by (simp add: example_send_agg_def aggregate_new_def)

lemmas send_eval = example_send_agg_eq example_send_libs_def example_libs_def example_defs

lemma example_balance:
  "aggregate_balance (lib_view example_send_libs) example_send_agg
     = Some \<lparr>bal_confirmed = 30000, bal_trusted_pending = 0, bal_untrusted_pending = 0, bal_immature = 0\<rparr>"
  by (simp add: send_eval aggregate_balance_def balance_filtered_def add_balance_def balance_default_def checked_add_def)

lemma example_fields:
  "ol_agg example_send_onchain = example_send_libs" "ol_config example_send_onchain = Config_default\<lparr>cfg_address_types_to_monitor := [Legacy]\<rparr>"
  "ol_txin_weight example_send_onchain = 164"
  by (simp_all add: example_send_onchain_def example_onchain_def)

lemma example_inputs:
  "\<exists>info. up_is_primary info \<and> payment_inputs example_send_onchain example_send_agg [7] example_amount 250 (Some [example_outpoint 1]) []
     = Some (Inr (None, Some [info]))"
  by (simp add: payment_inputs_def example_fields send_eval list_unspent_all_def check_utxos_to_spend_def checked_sum_def
      non_primary_utxo_infos_def manual_utxo_infos_def prepare_outpoints_for_psbt_def find_unspent_def List.map_filter_def
      prepare_utxos_for_psbt_def prepare_utxo_def utxo_weight_def satisfaction_weight_for_outpoint_def
      satisfaction_weight_in_def is_funding_transaction_def Let_def checked_add_def
      checked_payment_target_def given_input_weight_def additional_input_weight_def recipient_output_weight_def)

lemma example_fee: "calculate_fee_with_fallback (lib_view example_send_libs) example_send_agg example_psbt = Some (Inr 100)"
  by (simp add: calculate_fee_with_fallback_def calculate_fee_from_psbt_def send_eval example_psbt_def psbt_input_value_def
      local_utxo_value_def nth_opt_def checked_add_def checked_sub_def)

lemma example_finished:
  "finish_on (lib_build example_send_libs) example_send_agg (agg_primary example_send_agg)
     ([example_output 1 1000], [(Txid [1], example_tx [] [example_txout 1000 1])], [[9]]) = (example_send_agg, Inr example_psbt)"
  by (simp add: finish_on_def send_eval)

lemma example_built_eq: "example_built = Some (example_send_agg, Inr example_psbt)"
proof -
  obtain info where info: "up_is_primary info" and inputs: "payment_inputs example_send_onchain example_send_agg [7]
      example_amount 250 (Some [example_outpoint 1]) [] = Some (Inr (None, Some [info]))"
    using example_inputs by blast
  let ?w = "([example_output 1 1000], [(Txid [1], example_tx [] [example_txout 1000 1])], [[9]]) :: example_wallet"
  have start: "start_builder example_send_onchain example_sender example_send_agg bal [7] example_amount 250 (Some [info]) None
      = Some (example_send_agg, Inr ?w)" for bal
    by (simp add: start_builder_def example_fields primary_wallet_def send_eval example_builder_def)
  have manual: "add_manual (lib_build example_send_libs) ?w (Some [info]) = Inr ?w"
    using info by (simp add: add_manual_def example_send_libs_def example_libs_def example_builder_def)
  have reserve: "check_reserve example_send_onchain example_send_agg
      \<lparr>bal_confirmed = 30000, bal_trusted_pending = 0, bal_untrusted_pending = 0, bal_immature = 0\<rparr>
      example_amount example_psbt = Some (example_send_agg, Inr example_psbt)"
    by (simp add: check_reserve_def example_fields example_fee get_balances_inner_def trusted_spendable_def balance_total_def
        checked_add_def Config_default_def saturating_sub_def saturating_add_def)
  show ?thesis
    unfolding example_built_def build_transaction_psbt_def Let_def inputs example_fields
    by (simp add: example_balance start manual add_cross_wallet_def finish_or_retry_def example_finished reserve)
qed


definition example_funded :: "(example_wallet, nat, sqlite_store) onchain_wallet" where
  "example_funded = Wallet_new example_send_onchain
     ([example_output 1 1000], [(Txid [1], example_tx [] [example_txout 1000 1])], [[9]]) 0 [] OnchainFeeEstimator_new empty_payments
     (SqliteStore_new Map.empty) \<lparr>rc_primary = NativeSegwit, rc_monitored = [], rc_derived_accounts = []\<rparr> NodeMetrics_default"

lemma example_funded_inner: "ow_inner example_funded = example_send_agg"
  by (simp add: example_funded_def Wallet_new_def example_fields example_send_agg_def Config_default_def AddressType_default_def)

lemma example_recorded:
  "isl (fst (kv_write (sqlite_ops (CHR ''_'' # example_alphabet) 120 (\<lambda>_. True)) (SqliteStore_new Map.empty)
     (''wallet_broadcast_txids'', [], ''a'') [])) = False"
  by code_simp

lemma example_signed: "sign_psbt_all example_send_libs example_send_agg example_psbt = Inr (unsigned_tx example_psbt)"
  by (simp add: sign_psbt_all_def sign_psbt_all_wallets_def send_eval example_psbt_def example_signer_def
      populate_psbt_inputs_from_wallets_def populate_input_def psbt_input_default_def is_owned_input_def is_finalized_def
      fill_witness_utxo_def fill_non_witness_utxo_def nth_opt_def)

lemma example_sent:
  "\<exists>ow'. send_to_address example_send_onchain example_sender example_funded [7] example_amount (Some 250)
     (Some [example_outpoint 1]) [] = Some (ow', Inr (Txid [0]))"
proof -
  obtain a u where p: "persist_all (lib_ops example_send_libs) example_send_agg = (a, Inr u)"
    by (simp add: persist_all_def for_each_wallet_def persist_step_def send_eval example_wallet_ops_def)
  have "prepare_send_to_address example_send_onchain example_sender example_funded [7] example_amount (Some 250)
      (Some [example_outpoint 1]) [] = Some (example_funded\<lparr>ow_inner := a\<rparr>, Inr (unsigned_tx example_psbt))"
    using example_built_eq [unfolded example_built_def]
    by (simp add: prepare_send_to_address_def example_sender_def is_drain_all_def example_funded_inner example_fields
        sign_then_persist_def example_signed p)
  moreover have "compute_txid (lib_btc example_send_libs) tx = Txid [0]" for tx
    by (simp add: send_eval)
  moreover have "ow_kv example_funded = SqliteStore_new Map.empty"
    "ol_kv example_send_onchain = sqlite_ops (CHR ''_'' # example_alphabet) 120 (\<lambda>_. True)"
    "broadcast_target example_send_onchain i = (''wallet_broadcast_txids'', [], ''a'')" for i
    by (simp_all add: example_funded_def Wallet_new_def example_send_onchain_def broadcast_target_def
        WALLET_BROADCAST_TXIDS_PRIMARY_NAMESPACE_def WALLET_BROADCAST_TXIDS_SECONDARY_NAMESPACE_def)
  ultimately show ?thesis
    using example_recorded
    by (auto simp: send_to_address_def record_and_broadcast_def record_broadcast_txid_def example_fields case_prod_unfold
        map_err_def split: sum.splits)
qed

theorem broadcasts_are_recorded_witness:
  "\<exists>ow'. send_to_address example_send_onchain example_sender example_funded [7] example_amount (Some 250)
     (Some [example_outpoint 1]) [] = Some (ow', Inr (Txid [0])) \<and> dispatched example_send_onchain example_funded ow' (Inr (Txid [0]))"
proof -
  obtain ow' where run: "send_to_address example_send_onchain example_sender example_funded [7] example_amount (Some 250)
     (Some [example_outpoint 1]) [] = Some (ow', Inr (Txid [0]))"
    using example_sent by blast
  have kv: "ol_kv example_send_onchain = sqlite_ops (CHR ''_'' # example_alphabet) 120 (\<lambda>_. True)"
    by (simp add: example_send_onchain_def)
  have ns: "primary_namespace empty_payments = PAYMENT_INFO_PERSISTENCE_PRIMARY_NAMESPACE"
    by (simp add: empty_payments_def DataStore_new_def)
  have fresh: "sqlite_fresh (SqliteStore_new Map.empty)"
    using empty_payments_ok by simp
  have "(spend_step example_send_onchain example_sender)\<^sup>*\<^sup>* example_funded example_funded"
    by simp
  from broadcasts_are_recorded [OF kv fresh ns this [unfolded example_funded_def], folded example_funded_def] run
  show ?thesis
    by blast
qed

end
