(* ===== verification/Spec2Isabelle.thy ===== *)
theory Spec2Isabelle
  imports LDK_Prelude Hex_Utils KV_Store Node_Error Data_Store LN_Types Payment_Store Wire Event_Queue Peer_Store Rate_Limiter Om_Mailbox Static_Invoice_Store Bdk_Types Agg_Utxo Agg_Signing Agg_Rbf Agg_Wallet Agg_Build Connection Node_Config Node_Metrics Fee_Estimator Node_Event Event_Handler Event_Safety Wallet_Persist Node_Builder Onchain_Wallet Onchain_Send
begin

text \<open>Plan.\<close>

end
